(* ===== verification/Prelude.thy ===== *)
theory Prelude
  imports Main "HOL-Library.Word" "HOL-Library.Sublist" "HOL-Library.Char_ord"
    "HOL-Library.Code_Target_Nat"
begin

text \<open>
  Shared vocabulary of the development.  A Go string or byte slice is a HOL \<^typ>\<open>string\<close>,
  a list of 8-bit characters, so that lengths and indices count bytes as Go does.  The
  functions below are the parts of Go's \<^verbatim>\<open>strings\<close>, \<^verbatim>\<open>os\<close> and \<^verbatim>\<open>fmt\<close>
  packages which the repository calls, together with the generic facts all components use.
  The collection \<open>go_defs\<close> holds the definitions that evaluation unfolds.
\<close>

named_theorems go_defs \<open>definitions unfolded when a closed Go term is evaluated\<close>

type_synonym bytes = string
type_synonym int64 = "64 word"

text \<open>The process environment as \<^verbatim>\<open>os.Getenv\<close> sees it: unset variables read as empty.\<close>

type_synonym environ = "string \<Rightarrow> string"

lemma set_filter_map: "set (List.map_filter f xs) = {y. \<exists>x\<in>set xs. f x = Some y}"
  by (induction xs) (auto simp: map_filter_simps split: option.splits)

section \<open>Splitting and joining\<close>

text \<open>\<^verbatim>\<open>strings.Split(s, sep)\<close> for a one-byte separator; never returns an empty slice.\<close>

fun go_split :: "char \<Rightarrow> string \<Rightarrow> string list" where
  "go_split c [] = [[]]"
| "go_split c (x # xs) =
     (if x = c then [] # go_split c xs
      else (case go_split c xs of [] \<Rightarrow> [[x]] | s # ss \<Rightarrow> (x # s) # ss))"

fun go_join :: "char \<Rightarrow> string list \<Rightarrow> string" where
  "go_join c [] = []"
| "go_join c [s] = s"
| "go_join c (s # t # ss) = s @ c # go_join c (t # ss)"

lemma go_split_nonempty [simp]: "go_split c s \<noteq> []"
  by (cases s) (auto split: list.splits)

lemma go_split_no_sep: "seg \<in> set (go_split c s) \<Longrightarrow> c \<notin> set seg"
  by (induction s arbitrary: seg) (auto split: if_splits list.splits)

lemma go_split_subset: "seg \<in> set (go_split c s) \<Longrightarrow> set seg \<subseteq> set s"
  by (induction s arbitrary: seg) (fastforce split: if_splits list.splits)+

lemma go_split_free: "c \<notin> set s \<Longrightarrow> go_split c s = [s]"
  by (induction s) auto

lemma go_split_append: "c \<notin> set s \<Longrightarrow> go_split c (s @ c # t) = s # go_split c t"
  by (induction s) auto

lemma go_split_app: "go_split c (s @ c # t) = go_split c s @ go_split c t"
  by (induction s) (auto split: list.splits)

lemma go_join_Cons: "ss \<noteq> [] \<Longrightarrow> go_join c (s # ss) = s @ c # go_join c ss"
  by (cases ss) auto

lemma go_join_split: "go_join c (go_split c s) = s"
proof (induction s)
  case (Cons x xs)
  obtain t ts where "go_split c xs = t # ts"
    by (cases "go_split c xs") auto
  with Cons show ?case by (cases ts) auto
qed simp

lemma go_split_join:
  "ss \<noteq> [] \<Longrightarrow> \<forall>s\<in>set ss. c \<notin> set s \<Longrightarrow> go_split c (go_join c ss) = ss"
proof (induction ss)
  case (Cons s ss)
  then show ?case
    by (cases ss) (auto simp: go_split_free go_split_append)
qed simp

section \<open>Searching\<close>

text \<open>
  \<^verbatim>\<open>strings.LastIndex\<close> and \<^verbatim>\<open>strings.IndexByte\<close> for one byte; Go's \<open>-1\<close> is
  \<^const>\<open>None\<close>.
\<close>

fun last_index :: "char \<Rightarrow> string \<Rightarrow> nat option" where
  "last_index c [] = None"
| "last_index c (x # xs) =
     (case last_index c xs of
        Some i \<Rightarrow> Some (Suc i)
      | None \<Rightarrow> if x = c then Some 0 else None)"

fun index_byte :: "char \<Rightarrow> string \<Rightarrow> nat option" where
  "index_byte c [] = None"
| "index_byte c (x # xs) = (if x = c then Some 0 else map_option Suc (index_byte c xs))"

lemma last_index_None: "last_index c s = None \<longleftrightarrow> c \<notin> set s"
  by (induction s) (auto split: option.splits)

lemma last_index_free: "c \<notin> set s \<Longrightarrow> last_index c s = None"
  by (simp add: last_index_None)

lemma last_index_SomeD:
  "last_index c s = Some i \<Longrightarrow>
     i < length s \<and> s = take i s @ c # drop (Suc i) s \<and> c \<notin> set (drop (Suc i) s)"
proof (induction s arbitrary: i)
  case (Cons x xs)
  then show ?case
    by (cases "last_index c xs") (auto simp: last_index_None split: if_splits)
qed simp

lemma last_index_append: "c \<notin> set t \<Longrightarrow> last_index c (s @ c # t) = Some (length s)"
  by (induction s) (auto simp flip: last_index_None)

lemma index_byte_None: "index_byte c s = None \<longleftrightarrow> c \<notin> set s"
  by (induction s) auto

lemma index_byte_SomeD:
  "index_byte c s = Some i \<Longrightarrow>
     i < length s \<and> s = take i s @ c # drop (Suc i) s \<and> c \<notin> set (take i s)"
  by (induction s arbitrary: i) (auto split: if_splits)

lemma index_byte_append: "c \<notin> set s \<Longrightarrow> index_byte c (s @ c # t) = Some (length s)"
  by (induction s) auto

text \<open>
  \<^verbatim>\<open>strings.HasPrefix\<close>, \<^verbatim>\<open>HasSuffix\<close>, \<^verbatim>\<open>Contains\<close> are \<^const>\<open>prefix\<close>,
  \<^const>\<open>suffix\<close> and \<^const>\<open>sublist\<close> of the library.
\<close>

definition trim_prefix :: "string \<Rightarrow> string \<Rightarrow> string" where
  [go_defs]: "trim_prefix s p = (if prefix p s then drop (length p) s else s)"

definition trim_suffix :: "string \<Rightarrow> string \<Rightarrow> string" where
  [go_defs]: "trim_suffix s p = (if suffix p s then take (length s - length p) s else s)"

lemma trim_prefix_append [simp]: "trim_prefix (p @ s) p = s"
  by (simp add: trim_prefix_def)

lemma trim_suffix_append [simp]: "trim_suffix (s @ p) p = s"
  by (simp add: trim_suffix_def suffix_def)

text \<open>\<^verbatim>\<open>strings.TrimRight\<close> and \<^verbatim>\<open>strings.Trim\<close> with a one-byte cutset.\<close>

definition trim_right_byte :: "char \<Rightarrow> string \<Rightarrow> string" where
  [go_defs]: "trim_right_byte c s = rev (dropWhile (\<lambda>x. x = c) (rev s))"

definition trim_byte :: "char \<Rightarrow> string \<Rightarrow> string" where
  [go_defs]: "trim_byte c s = trim_right_byte c (dropWhile (\<lambda>x. x = c) s)"

lemma trim_right_byte_free: "c \<notin> set s \<Longrightarrow> trim_right_byte c s = s"
  by (cases s rule: rev_cases) (auto simp: trim_right_byte_def)

section \<open>White space and case\<close>

text \<open>
  \<^verbatim>\<open>strings.TrimSpace\<close> removes Unicode white space.  The runes concerned are listed by
  their UTF-8 encodings; since each encoding starts with a lead byte followed by
  continuation bytes, Go's rune-wise trimming removes exactly these byte sequences, at the
  front and at the back, whatever the rest of the string is.
\<close>

definition space_seqs :: "string list" where
  [go_defs]: "space_seqs =
     [[CHR 0x09], [CHR 0x0A], [CHR 0x0B], [CHR 0x0C], [CHR 0x0D], [CHR 0x20],
      [CHR 0xC2, CHR 0x85], [CHR 0xC2, CHR 0xA0],
      [CHR 0xE1, CHR 0x9A, CHR 0x80],
      [CHR 0xE2, CHR 0x80, CHR 0x80], [CHR 0xE2, CHR 0x80, CHR 0x81],
      [CHR 0xE2, CHR 0x80, CHR 0x82], [CHR 0xE2, CHR 0x80, CHR 0x83],
      [CHR 0xE2, CHR 0x80, CHR 0x84], [CHR 0xE2, CHR 0x80, CHR 0x85],
      [CHR 0xE2, CHR 0x80, CHR 0x86], [CHR 0xE2, CHR 0x80, CHR 0x87],
      [CHR 0xE2, CHR 0x80, CHR 0x88], [CHR 0xE2, CHR 0x80, CHR 0x89],
      [CHR 0xE2, CHR 0x80, CHR 0x8A], [CHR 0xE2, CHR 0x80, CHR 0xA8],
      [CHR 0xE2, CHR 0x80, CHR 0xA9], [CHR 0xE2, CHR 0x80, CHR 0xAF],
      [CHR 0xE2, CHR 0x81, CHR 0x9F], [CHR 0xE3, CHR 0x80, CHR 0x80]]"

text \<open>Removes leading members of \<open>ws\<close> as long as there is one.\<close>

function strip_seqs :: "string list \<Rightarrow> string \<Rightarrow> string" where
  "strip_seqs ws s =
     (case find (\<lambda>w. w \<noteq> [] \<and> prefix w s) ws of
        None \<Rightarrow> s
      | Some w \<Rightarrow> strip_seqs ws (drop (length w) s))"
  by pat_completeness auto
termination
  by (relation "measure (\<lambda>(ws, s). length s)") (auto simp: find_Some_iff prefix_def)

declare strip_seqs.simps [simp del]

definition trim_space :: "string \<Rightarrow> string" where
  [go_defs]: "trim_space s = rev (strip_seqs (map rev space_seqs) (rev (strip_seqs space_seqs s)))"

lemma strip_seqs_id:
  "\<forall>w\<in>set ws. w \<noteq> [] \<longrightarrow> \<not> prefix w s \<Longrightarrow> strip_seqs ws s = s"
  by (subst strip_seqs.simps) (auto simp: find_None_iff split: option.splits dest: find_Some_iff [THEN iffD1])

lemma strip_seqs_Nil [simp]: "strip_seqs ws [] = []"
  by (rule strip_seqs_id) auto

lemma strip_seqs_suffix: "suffix (strip_seqs ws s) s"
proof (induction ws s rule: strip_seqs.induct)
  case (1 ws s)
  show ?case
  proof (cases "find (\<lambda>w. w \<noteq> [] \<and> prefix w s) ws")
    case None
    then show ?thesis by (subst strip_seqs.simps) simp
  next
    case (Some w)
    with "1.IH" have "suffix (strip_seqs ws (drop (length w) s)) (drop (length w) s)" by simp
    moreover have "suffix (drop (length w) s) s" by (rule suffix_drop)
    ultimately show ?thesis
      using Some by (subst strip_seqs.simps) (auto intro: suffix_order.trans)
  qed
qed

lemma trim_space_Nil [simp]: "trim_space [] = []"
  by (simp add: trim_space_def)

lemma trim_space_subset: "set (trim_space s) \<subseteq> set s"
proof -
  have *: "set (strip_seqs ws t) \<subseteq> set t" for ws t
    by (rule set_mono_suffix [OF strip_seqs_suffix])
  have "set (trim_space s) \<subseteq> set (strip_seqs space_seqs s)"
    unfolding trim_space_def set_rev by (rule order_trans [OF *]) simp
  also have "\<dots> \<subseteq> set s" by (rule *)
  finally show ?thesis .
qed

text \<open>
  Bytes that are neither ASCII white space nor part of a multi-byte rune: a string that
  starts and ends with such bytes is its own trimming.
\<close>

definition plain :: "char \<Rightarrow> bool" where
  "plain c \<longleftrightarrow> CHR 0x21 \<le> c \<and> c \<le> CHR 0x7E"

lemma trim_space_plain:
  assumes "s \<noteq> []" "plain (hd s)" "plain (last s)"
  shows "trim_space s = s"
proof -
  have "strip_seqs space_seqs s = s"
    using assms(1,2) by (intro strip_seqs_id) (cases s; auto simp: space_seqs_def plain_def)
  moreover have "strip_seqs (map rev space_seqs) (rev s) = rev s"
    using assms(1,3)
    by (intro strip_seqs_id)
      (cases s rule: rev_cases; auto simp: space_seqs_def plain_def)
  ultimately show ?thesis
    by (simp add: trim_space_def)
qed

text \<open>
  \<^verbatim>\<open>strings.ToLower\<close>, exact for comparison with ASCII text: besides the ASCII capitals
  only U+212A (Kelvin sign) and U+0130 have an ASCII lower case; every other non-ASCII rune
  stays non-ASCII and is left as it is.
\<close>

definition lower_byte :: "char \<Rightarrow> char" where
  [go_defs]: "lower_byte c =
     (if CHR ''A'' \<le> c \<and> c \<le> CHR ''Z'' then char_of (of_char c + 32 :: nat) else c)"

fun to_lower :: "string \<Rightarrow> string" where
  "to_lower [] = []"
| "to_lower (a # s) =
     (if a = CHR 0xE2 \<and> take 2 s = [CHR 0x84, CHR 0xAA] then CHR ''k'' # to_lower (drop 2 s)
      else if a = CHR 0xC4 \<and> take 1 s = [CHR 0xB0] then CHR ''i'' # to_lower (drop 1 s)
      else lower_byte a # to_lower s)"

section \<open>Numbers as text\<close>

fun dec_nat :: "nat \<Rightarrow> string" where
  "dec_nat n = (if n < 10 then [char_of (48 + n)] else dec_nat (n div 10) @ [char_of (48 + n mod 10)])"

declare dec_nat.simps [simp del]

definition dec_int :: "int \<Rightarrow> string" where
  [go_defs]: "dec_int i = (if i < 0 then CHR ''-'' # dec_nat (nat (- i)) else dec_nat (nat i))"

definition pad0 :: "nat \<Rightarrow> nat \<Rightarrow> string" where
  [go_defs]: "pad0 k n = replicate (k - length (dec_nat n)) CHR ''0'' @ dec_nat n"

text \<open>
  \<^verbatim>\<open>time.Unix(0, ns).UTC().Format(time.RFC3339)\<close> for a positive \<open>ns\<close>: the civil date
  of the day number, counted from 1970-01-01.
\<close>

definition civil :: "nat \<Rightarrow> nat \<times> nat \<times> nat" where
  [go_defs]: "civil days =
     (let z = days + 719468; era = z div 146097; doe = z mod 146097;
          yoe = (doe - doe div 1460 + doe div 36524 - doe div 146096) div 365;
          doy = doe - (365 * yoe + yoe div 4 - yoe div 100);
          mp = (5 * doy + 2) div 153; d = doy - (153 * mp + 2) div 5 + 1;
          m = (if mp < 10 then mp + 3 else mp - 9);
          y = yoe + 400 * era + (if m \<le> 2 then 1 else 0)
      in (y, m, d))"

definition rfc3339 :: "nat \<Rightarrow> string" where
  [go_defs]: "rfc3339 ns =
     (let secs = ns div 1000000000; t = secs mod 86400 in
      case civil (secs div 86400) of (y, m, d) \<Rightarrow>
        pad0 4 y @ ''-'' @ pad0 2 m @ ''-'' @ pad0 2 d @ ''T'' @
        pad0 2 (t div 3600) @ '':'' @ pad0 2 (t mod 3600 div 60) @ '':'' @ pad0 2 (t mod 60) @ ''Z'')"

text \<open>Go's zero \<^verbatim>\<open>time.Time\<close>, in nanoseconds since 1970.\<close>

definition zero_time :: int where
  [go_defs]: "zero_time = - 62135596800 * 1000000000"

section \<open>Environment helpers shared by every command\<close>

text \<open>\<^verbatim>\<open>fmt.Sscanf(v, "%d", &n)\<close> into a 64-bit integer: \<^const>\<open>None\<close> when Go reports an error.\<close>

definition digit_val :: "char \<Rightarrow> nat option" where
  [go_defs]: "digit_val c = (if CHR ''0'' \<le> c \<and> c \<le> CHR ''9'' then Some (of_char c - 48) else None)"

fun scan_digits :: "nat \<Rightarrow> string \<Rightarrow> nat" where
  "scan_digits acc [] = acc"
| "scan_digits acc (c # s) =
     (case digit_val c of None \<Rightarrow> acc | Some d \<Rightarrow> scan_digits (10 * acc + d) s)"

function skip_scan_space :: "string \<Rightarrow> string option" where
  "skip_scan_space s =
     (if prefix [CHR 0x0A] s \<or> prefix [CHR 0x0D, CHR 0x0A] s then None
      else case find (\<lambda>w. w \<noteq> [] \<and> prefix w s) space_seqs of
             None \<Rightarrow> Some s
           | Some w \<Rightarrow> skip_scan_space (drop (length w) s))"
  by pat_completeness auto
termination
  by (relation "measure length") (auto simp: find_Some_iff prefix_def)

declare skip_scan_space.simps [simp del]

definition scan_int :: "string \<Rightarrow> int64 option" where
  [go_defs]: "scan_int s =
     (case skip_scan_space s of
        None \<Rightarrow> None
      | Some t \<Rightarrow>
          let neg = (take 1 t = ''-''); u = (if take 1 t \<in> {''-'', ''+''} then drop 1 t else t) in
          (case u of
             [] \<Rightarrow> None
           | c # _ \<Rightarrow>
               (case digit_val c of
                  None \<Rightarrow> None
                | Some _ \<Rightarrow>
                    let n = int (scan_digits 0 u); v = (if neg then - n else n) in
                    if - (2 ^ 63) \<le> v \<and> v < 2 ^ 63 then Some (word_of_int v) else None)))"

definition env_or :: "environ \<Rightarrow> string \<Rightarrow> string \<Rightarrow> string" where
  [go_defs]: "env_or E key fallback = (if E key \<noteq> '''' then E key else fallback)"

fun first_non_empty :: "string list \<Rightarrow> string" where
  "first_non_empty [] = ''''"
| "first_non_empty (v # vs) = (if v \<noteq> '''' then v else first_non_empty vs)"

lemma first_non_empty_in: "first_non_empty vs \<noteq> '''' \<Longrightarrow> first_non_empty vs \<in> set vs"
  by (induction vs) auto

lemma first_non_empty_iff: "first_non_empty vs = '''' \<longleftrightarrow> (\<forall>v\<in>set vs. v = '''')"
  by (induction vs) auto

end
