(* ===== verification/Codec.thy ===== *)
theory Codec
  imports Prelude
begin

text \<open>
  Encodings.  The interface \<open>codec\<close> is what the clients of an encoding use of it: a decoder
  that inverts the encoder on valid inputs.  It is provided by the big-endian counters of
  the sibling records (here), by the storage-key layout (theory Paths) and by base64 (theory
  Base64); \<open>exact_codec\<close> adds that nothing else decodes.  The big-endian format is
  \<^verbatim>\<open>binary.BigEndian.PutUint64/Uint64\<close> as \<^verbatim>\<open>versioning.go\<close> and
  \<^verbatim>\<open>secrets_list.go\<close> use it on 8-byte records.
\<close>

section \<open>The interface\<close>

locale codec =
  fixes enc :: "'a \<Rightarrow> 'b"
    and dec :: "'b \<Rightarrow> 'a option"
    and valid :: "'a \<Rightarrow> bool"
  assumes dec_enc: "valid x \<Longrightarrow> dec (enc x) = Some x"
begin

lemma enc_inj: "valid x \<Longrightarrow> valid y \<Longrightarrow> enc x = enc y \<Longrightarrow> x = y"
  by (metis dec_enc option.inject)

lemma enc_eq_iff: "valid x \<Longrightarrow> valid y \<Longrightarrow> enc x = enc y \<longleftrightarrow> x = y"
  using enc_inj by blast

text \<open>Writing under one valid key leaves every other valid key as it was.\<close>

lemma upd_enc_other:
  "valid x \<Longrightarrow> valid y \<Longrightarrow> x \<noteq> y \<Longrightarrow> (m(enc x := v)) (enc y) = m (enc y)"
  by (simp add: enc_eq_iff)

lemma inj_on_enc: "inj_on enc {x. valid x}"
  by (simp add: inj_on_def enc_eq_iff)

end

locale exact_codec = codec +
  assumes enc_dec: "dec b = Some x \<Longrightarrow> valid x \<and> enc x = b"
begin

lemma dec_eq_Some_iff: "dec b = Some x \<longleftrightarrow> valid x \<and> enc x = b"
  using dec_enc enc_dec by blast

lemma dec_inj: "dec b = Some x \<Longrightarrow> dec c = Some x \<Longrightarrow> b = c"
  using enc_dec by blast

end

section \<open>Big-endian bytes\<close>

text \<open>\<open>be_val\<close> is also \<^verbatim>\<open>new(big.Int).SetBytes\<close>, which reads a whole byte slice.\<close>

definition be_val :: "bytes \<Rightarrow> nat" where
  [go_defs]: "be_val b = foldl (\<lambda>a c. 256 * a + of_char c) 0 b"

fun be_bytes :: "nat \<Rightarrow> nat \<Rightarrow> bytes" where
  "be_bytes 0 n = []"
| "be_bytes (Suc k) n = be_bytes k (n div 256) @ [char_of n]"

lemma be_val_Nil [simp]: "be_val [] = 0"
  and be_val_snoc [simp]: "be_val (b @ [c]) = 256 * be_val b + of_char c"
  by (simp_all add: be_val_def)

lemma length_be_bytes [simp]: "length (be_bytes k n) = k"
  by (induction k arbitrary: n) auto

lemma be_val_be_bytes: "be_val (be_bytes k n) = n mod 256 ^ k"
proof (induction k arbitrary: n)
  case (Suc k)
  have "n mod 256 ^ Suc k = 256 * (n div 256 mod 256 ^ k) + n mod 256"
    by (simp add: mod_mult2_eq)
  with Suc show ?case by simp
qed simp

lemma be_val_bound: "be_val b < 256 ^ length b"
proof (induction b rule: rev_induct)
  case (snoc c b)
  have "(of_char c :: nat) < 256" by simp
  moreover have "256 * be_val b + 256 \<le> 256 * 256 ^ length b"
    using snoc by simp
  ultimately show ?case
    unfolding be_val_snoc length_append_singleton power_Suc by linarith
qed simp

lemma be_bytes_be_val: "length b = k \<Longrightarrow> be_bytes k (be_val b) = b"
proof (induction b arbitrary: k rule: rev_induct)
  case (snoc c b)
  have "(256 * be_val b + of_char c) div 256 = be_val b" by simp
  moreover have "char_of (256 * be_val b + of_char c :: nat) = c"
    by (rule of_char_eqI [where 'a = nat]) simp
  ultimately show ?case using snoc by auto
qed simp

section \<open>Eight-byte counters\<close>

definition put_u64 :: "int64 \<Rightarrow> bytes" where
  [go_defs]: "put_u64 w = be_bytes 8 (unat w)"

definition get_u64 :: "bytes \<Rightarrow> int64 option" where
  [go_defs]: "get_u64 b = (if length b \<noteq> 8 then None else Some (word_of_nat (be_val b)))"

lemma unat_bound64: "unat (w :: int64) < 256 ^ 8"
  using unsigned_less [of w, where 'a = nat] by simp

interpretation u64: exact_codec put_u64 get_u64 "\<lambda>_. True"
proof
  show "get_u64 (put_u64 x) = Some x" for x
    using unat_bound64 [of x] by (simp add: get_u64_def put_u64_def be_val_be_bytes)
next
  fix b x
  assume *: "get_u64 b = Some x"
  then have len: "length b = 8" and x: "x = word_of_nat (be_val b)"
    by (auto simp: get_u64_def split: if_splits)
  have "be_val b < 2 ^ 64" using be_val_bound [of b] len by simp
  then have "unat x = be_val b" by (simp add: x unat_of_nat take_bit_nat_eq_self)
  then show "True \<and> put_u64 x = b"
    by (simp add: put_u64_def be_bytes_be_val len)
qed

lemma get_u64_None: "get_u64 b = None \<longleftrightarrow> length b \<noteq> 8"
  by (simp add: get_u64_def)

lemma get_put_u64 [simp]: "get_u64 (put_u64 w) = Some w"
  by (rule u64.dec_enc) simp

lemma length_put_u64 [simp]: "length (put_u64 w) = 8"
  by (simp add: put_u64_def)

end
