(* ===== verification/Paths.thy ===== *)
theory Paths
  imports Codec
begin

text \<open>
  Names, paths and storage keys: \<^verbatim>\<open>safePath\<close>, \<^verbatim>\<open>safeEnvName\<close>,
  \<^verbatim>\<open>splitSecretPath\<close>, \<^verbatim>\<open>envRequired\<close> (embed.go), \<^verbatim>\<open>versionKey\<close>
  (versioning.go), \<^verbatim>\<open>parseSecretRelKey\<close>, \<^verbatim>\<open>mtimeKey\<close> (secrets_list.go) and the
  client-side splits \<^verbatim>\<open>splitPathName\<close> (kmsclient) and \<^verbatim>\<open>splitPath\<close> (cmd/kms).
  Go's \<^verbatim>\<open>for _, ch := range seg\<close> reads runes; a rune outside ASCII and the bytes it
  is made of are rejected alike, so the byte-wise test decides the same strings.
\<close>

section \<open>Validation\<close>

definition safe_byte :: "char \<Rightarrow> bool" where
  [go_defs]: "safe_byte ch \<longleftrightarrow>
     (CHR ''a'' \<le> ch \<and> ch \<le> CHR ''z'') \<or> (CHR ''A'' \<le> ch \<and> ch \<le> CHR ''Z'') \<or>
     (CHR ''0'' \<le> ch \<and> ch \<le> CHR ''9'') \<or>
     ch = CHR ''_'' \<or> ch = CHR ''-'' \<or> ch = CHR ''.''"

definition safe_segment :: "string \<Rightarrow> bool" where
  [go_defs]: "safe_segment seg \<longleftrightarrow>
     \<not> (seg = '''' \<or> seg = ''.'' \<or> seg = ''..'') \<and> list_all safe_byte seg"

definition safe_path :: "string \<Rightarrow> bool" where
  [go_defs]: "safe_path p =
     (if p = '''' then True
      else if sublist ''//'' p \<or> sublist [CHR 0x00] p then False
      else list_all safe_segment (go_split CHR ''/'' p))"

fun safe_env_from :: "nat \<Rightarrow> string \<Rightarrow> bool" where
  "safe_env_from i [] = True"
| "safe_env_from i (ch # n) =
     (if CHR ''A'' \<le> ch \<and> ch \<le> CHR ''Z'' then safe_env_from (Suc i) n
      else if CHR ''a'' \<le> ch \<and> ch \<le> CHR ''z'' then safe_env_from (Suc i) n
      else if ch = CHR ''_'' then safe_env_from (Suc i) n
      else if i > 0 \<and> CHR ''0'' \<le> ch \<and> ch \<le> CHR ''9'' then safe_env_from (Suc i) n
      else False)"

definition safe_env_name :: "string \<Rightarrow> bool" where
  [go_defs]: "safe_env_name n = (if n = '''' then False else safe_env_from 0 n)"

text \<open>\<^verbatim>\<open>envRequired\<close>: true when the write names an environment.\<close>

definition env_required :: "string \<Rightarrow> bool" where
  [go_defs]: "env_required env \<longleftrightarrow> trim_space env \<noteq> ''''"

text \<open>\<^verbatim>\<open>splitSecretPath\<close>: \<^const>\<open>Inl\<close> carries the message of the 400 response.\<close>

definition split_secret_path :: "string \<Rightarrow> string + string \<times> string" where
  [go_defs]: "split_secret_path rest =
     (if \<not> safe_path rest then Inl ''invalid path''
      else case last_index CHR ''/'' rest of
             None \<Rightarrow> Inl ''path and name required''
           | Some idx \<Rightarrow> Inr (take idx rest, drop (Suc idx) rest))"

text \<open>The clients' splits return an empty path when there is no slash.\<close>

definition split_path_name :: "string \<Rightarrow> string \<times> string" where
  [go_defs]: "split_path_name s =
     (case last_index CHR ''/'' s of
        None \<Rightarrow> ('''', s)
      | Some idx \<Rightarrow> (take idx s, drop (Suc idx) s))"

section \<open>Storage keys\<close>

text \<open>The part of a key after its family prefix: \<open>{path}/{env}/{name}\<close>.\<close>

definition rel_key :: "string \<times> string \<times> string \<Rightarrow> bytes" where
  [go_defs]: "rel_key pen = (case pen of (path, env, name) \<Rightarrow> path @ ''/'' @ env @ ''/'' @ name)"

definition secret_key :: "string \<Rightarrow> string \<Rightarrow> string \<Rightarrow> bytes" where
  [go_defs]: "secret_key path name env = ''kms/secrets/'' @ rel_key (path, env, name)"

definition version_key :: "string \<Rightarrow> string \<Rightarrow> string \<Rightarrow> bytes" where
  [go_defs]: "version_key path name env = ''kms/versions/'' @ rel_key (path, env, name)"

definition mtime_key :: "string \<Rightarrow> string \<Rightarrow> string \<Rightarrow> bytes" where
  [go_defs]: "mtime_key path name env = ''kms/mtimes/'' @ rel_key (path, env, name)"

definition parse_secret_rel_key :: "bytes \<Rightarrow> (string \<times> string \<times> string) option" where
  [go_defs]: "parse_secret_rel_key rel =
     (case last_index CHR ''/'' rel of
        None \<Rightarrow> None
      | Some ls \<Rightarrow>
          let name = drop (Suc ls) rel; head = take ls rel in
          (case last_index CHR ''/'' head of
             None \<Rightarrow> None
           | Some es \<Rightarrow>
               let env = drop (Suc es) head; path = take es head in
               if path = '''' \<or> env = '''' \<or> name = '''' then None
               else Some (path, env, name)))"

section \<open>Facts about validation\<close>

lemma safe_byte_neq:
  "safe_byte c \<Longrightarrow> c \<noteq> CHR ''/'' \<and> c \<noteq> CHR 0x00 \<and> plain c"
  by (cases c) (auto simp: safe_byte_def plain_def)

text \<open>
  The scans for \<open>//\<close> and NUL are implied by the segment test, so \<open>safe_path\<close> is
  exactly "every segment is safe".
\<close>

lemma safe_path_segments:
  "safe_path p \<longleftrightarrow> p = '''' \<or> list_all safe_segment (go_split CHR ''/'' p)"
proof -
  have "\<not> list_all safe_segment (go_split CHR ''/'' p)" if "sublist ''//'' p"
  proof -
    from that obtain a b where "p = a @ ''//'' @ b" by (auto simp: sublist_def)
    then have "'''' \<in> set (go_split CHR ''/'' p)"
      using go_split_app [of "CHR ''/''" a "CHR ''/'' # b"] by simp
    then show ?thesis by (auto simp: list_all_iff safe_segment_def)
  qed
  moreover have "\<not> list_all safe_segment (go_split CHR ''/'' p)" if "sublist [CHR 0x00] p"
  proof
    assume safe: "list_all safe_segment (go_split CHR ''/'' p)"
    have "set (go_join CHR ''/'' ss) \<subseteq> insert CHR ''/'' (\<Union> (set ` set ss))" for ss
      by (induction "CHR ''/''" ss rule: go_join.induct) auto
    from this [of "go_split CHR ''/'' p"] have "CHR 0x00 \<in> \<Union> (set ` set (go_split CHR ''/'' p))"
      using that by (auto simp: go_join_split sublist_def)
    with safe show False
      by (auto simp: list_all_iff safe_segment_def dest: safe_byte_neq)
  qed
  ultimately show ?thesis by (auto simp: safe_path_def)
qed

lemma safe_path_append:
  "safe_path (p @ CHR ''/'' # n) \<longleftrightarrow>
     p \<noteq> '''' \<and> n \<noteq> '''' \<and> safe_path p \<and> safe_path n"
proof -
  have "list_all safe_segment (go_split CHR ''/'' s) \<Longrightarrow> s \<noteq> ''''" for s
    by (auto simp: safe_segment_def)
  then show ?thesis
    by (auto simp: safe_path_segments go_split_app)
qed

lemma safe_path_leaf:
  "CHR ''/'' \<notin> set n \<Longrightarrow> n \<noteq> '''' \<Longrightarrow> safe_path n \<longleftrightarrow> safe_segment n"
  by (simp add: safe_path_segments go_split_free)

lemma split_secret_path_Inr:
  "split_secret_path rest = Inr (path, name) \<longleftrightarrow>
     rest = path @ ''/'' @ name \<and> path \<noteq> '''' \<and> safe_path path \<and> safe_segment name"
  (is "?L \<longleftrightarrow> ?R")
proof
  assume ?L
  then obtain i where "safe_path rest" "last_index CHR ''/'' rest = Some i"
    and pn: "path = take i rest" "name = drop (Suc i) rest"
    by (auto simp: split_secret_path_def split: if_splits option.splits)
  then have "rest = path @ CHR ''/'' # name" "CHR ''/'' \<notin> set name"
    by (auto dest: last_index_SomeD)
  with \<open>safe_path rest\<close> show ?R
    by (auto simp: safe_path_append safe_path_leaf)
next
  assume r: ?R
  then have free: "CHR ''/'' \<notin> set name"
    by (auto simp: safe_segment_def list_all_iff dest: safe_byte_neq)
  moreover have "safe_path rest"
    using r free by (auto simp: safe_path_append safe_path_leaf safe_segment_def)
  ultimately show ?L
    using r by (simp add: split_secret_path_def last_index_append)
qed

lemma split_path_name_join:
  "CHR ''/'' \<notin> set name \<Longrightarrow> split_path_name (path @ ''/'' @ name) = (path, name)"
  by (simp add: split_path_name_def last_index_append)

text \<open>
  On the paths the server accepts, the server's split and the clients' split agree.
\<close>

lemma split_secret_path_client:
  "split_secret_path rest = Inr pn \<Longrightarrow> split_path_name rest = pn"
  by (auto simp: split_secret_path_def split_path_name_def split: if_splits option.splits)

lemma safe_env_from_bytes:
  "safe_env_from i n \<Longrightarrow> c \<in> set n \<Longrightarrow> safe_byte c \<and> c \<noteq> CHR ''-'' \<and> c \<noteq> CHR ''.''"
  by (induction i n rule: safe_env_from.induct) (auto simp: safe_byte_def split: if_splits)

section \<open>Facts about keys\<close>

text \<open>The triples that the listing can recover from a key.\<close>

fun listable :: "string \<times> string \<times> string \<Rightarrow> bool" where
  "listable (path, env, name) \<longleftrightarrow>
     path \<noteq> '''' \<and> env \<noteq> '''' \<and> name \<noteq> '''' \<and> CHR ''/'' \<notin> set env \<and> CHR ''/'' \<notin> set name"

interpretation rel: exact_codec rel_key parse_secret_rel_key listable
proof
  fix x :: "string \<times> string \<times> string"
  obtain p e n where x: "x = (p, e, n)" by (cases x)
  assume "listable x"
  moreover from this have "last_index CHR ''/'' (p @ CHR ''/'' # e @ CHR ''/'' # n)
      = Some (length (p @ CHR ''/'' # e))"
    using last_index_append [of "CHR ''/''" n "p @ CHR ''/'' # e"] by (simp add: x)
  ultimately show "parse_secret_rel_key (rel_key x) = Some x"
    by (simp add: x parse_secret_rel_key_def rel_key_def last_index_append last_index_free)
next
  fix b x
  assume "parse_secret_rel_key b = Some x"
  then obtain i j where i: "last_index CHR ''/'' b = Some i"
    and j: "last_index CHR ''/'' (take i b) = Some j"
    and x: "x = (take j (take i b), drop (Suc j) (take i b), drop (Suc i) b)"
    and ne: "take j (take i b) \<noteq> ''''" "drop (Suc j) (take i b) \<noteq> ''''" "drop (Suc i) b \<noteq> ''''"
    by (auto simp: parse_secret_rel_key_def Let_def simp del: take_take split: option.splits if_splits)
  note si = last_index_SomeD [OF i] and sj = last_index_SomeD [OF j]
  have "rel_key x = take i b @ CHR ''/'' # drop (Suc i) b"
    using sj by (simp add: x rel_key_def del: take_take)
  with si sj ne show "listable x \<and> rel_key x = b"
    by (simp add: x del: take_take)
qed

lemma key_families_disjoint [simp]:
  "secret_key p n e \<noteq> version_key p' n' e'" "version_key p n e \<noteq> secret_key p' n' e'"
  "secret_key p n e \<noteq> mtime_key p' n' e'" "mtime_key p n e \<noteq> secret_key p' n' e'"
  "version_key p n e \<noteq> mtime_key p' n' e'" "mtime_key p n e \<noteq> version_key p' n' e'"
  by (simp_all add: secret_key_def version_key_def mtime_key_def)

lemma same_key_iff:
  "secret_key p n e = secret_key p' n' e' \<longleftrightarrow> rel_key (p, e, n) = rel_key (p', e', n')"
  "version_key p n e = version_key p' n' e' \<longleftrightarrow> rel_key (p, e, n) = rel_key (p', e', n')"
  "mtime_key p n e = mtime_key p' n' e' \<longleftrightarrow> rel_key (p, e, n) = rel_key (p', e', n')"
  by (simp_all add: secret_key_def version_key_def mtime_key_def)

lemma secret_key_inj:
  "listable (p, e, n) \<Longrightarrow> listable (p', e', n') \<Longrightarrow>
     secret_key p n e = secret_key p' n' e' \<Longrightarrow> p = p' \<and> n = n' \<and> e = e'"
  using rel.enc_inj [of "(p, e, n)" "(p', e', n')"] by (simp add: same_key_iff)

end
