(* ===== verification/Store.thy ===== *)
theory Store
  imports Paths "HOL-Library.AList" "HOL-Library.List_Lexorder"
begin

text \<open>
  The storage interface.  ZapDB (a key-value store with snapshot transactions) and the
  upstream \<^verbatim>\<open>store.SecretStore\<close> are third-party packages: the model takes their
  operations as a record of functions on an abstract database state \<^typ>\<open>'d\<close>, and the
  locales below name the documented behaviour that the code relies on, through an
  abstraction \<open>view\<close> of the state as a map from key bytes to value bytes.  Every
  operation may fail; \<open>reliable_store\<close> adds that none does.  Two concrete stores close
  the theory: an association list, and the same list with a schedule of write failures.
\<close>

datatype kms_err =
    ErrKeyNotFound
  | ErrVersionMismatch
  | ErrMalformed string nat
  | ErrOther string

record secret =
  sec_name :: string
  sec_path :: string
  sec_env :: string
  sec_ciphertext :: bytes

text \<open>
  \<^verbatim>\<open>kv_get\<close> is \<^verbatim>\<open>txn.Get\<close> with \<^verbatim>\<open>item.Value\<close>; \<open>kv_set\<close> and
  \<open>kv_delete\<close> give the transaction's new state; \<open>kv_commit base txn\<close> ends
  \<^verbatim>\<open>db.Update\<close>; \<open>kv_keys\<close> is the keys-only iteration over a prefix, in byte order.  The state of a
  transaction is the state it would commit.
\<close>

record 'd store_ops =
  kv_get :: "'d \<Rightarrow> bytes \<Rightarrow> kms_err + bytes"
  kv_set :: "'d \<Rightarrow> bytes \<Rightarrow> bytes \<Rightarrow> kms_err + 'd"
  kv_delete :: "'d \<Rightarrow> bytes \<Rightarrow> kms_err + 'd"
  kv_commit :: "'d \<Rightarrow> 'd \<Rightarrow> kms_err option \<times> 'd"
  kv_keys :: "'d \<Rightarrow> bytes \<Rightarrow> bytes list"
  st_get :: "'d \<Rightarrow> string \<Rightarrow> string \<Rightarrow> string \<Rightarrow> kms_err + secret"
  st_put :: "'d \<Rightarrow> secret \<Rightarrow> kms_err option \<times> 'd"
  st_delete :: "'d \<Rightarrow> string \<Rightarrow> string \<Rightarrow> string \<Rightarrow> kms_err option \<times> 'd"

text \<open>
  What a database, seen as a map of key bytes, says of one record: the value a reader of the
  record can get (\<open>val\<close> reads the ciphertext out of a blob), its version counter
  (\<^const>\<open>None\<close> when malformed) and its modification time.
\<close>

definition stored_value ::
    "(bytes \<Rightarrow> bytes option) \<Rightarrow> (bytes \<Rightarrow> bytes option) \<Rightarrow> string \<Rightarrow> string \<Rightarrow> string \<Rightarrow> bytes option" where
  [go_defs]: "stored_value val m path name env = Option.bind (m (secret_key path name env)) val"

definition stored_version ::
    "(bytes \<Rightarrow> bytes option) \<Rightarrow> string \<Rightarrow> string \<Rightarrow> string \<Rightarrow> int64 option" where
  [go_defs]: "stored_version m path name env =
     (case m (version_key path name env) of None \<Rightarrow> Some 0 | Some b \<Rightarrow> get_u64 b)"

definition stored_mtime ::
    "(bytes \<Rightarrow> bytes option) \<Rightarrow> string \<Rightarrow> string \<Rightarrow> string \<Rightarrow> int64 option" where
  [go_defs]: "stored_mtime m path name env =
     (case m (mtime_key path name env) of None \<Rightarrow> Some 0 | Some b \<Rightarrow> get_u64 b)"

section \<open>What the code relies on\<close>

locale kv_store =
  fixes ops :: "'d store_ops"
    and view :: "'d \<Rightarrow> bytes \<Rightarrow> bytes option"
  assumes get_hit: "kv_get ops d k = Inr v \<Longrightarrow> view d k = Some v"
    and get_miss: "kv_get ops d k = Inl ErrKeyNotFound \<Longrightarrow> view d k = None"
    and set_ok: "kv_set ops d k v = Inr t \<Longrightarrow> view t = (view d)(k \<mapsto> v)"
    and delete_ok: "kv_delete ops d k = Inr t \<Longrightarrow> view t = (view d)(k := None)"
    and delete_miss: "kv_delete ops d k = Inl ErrKeyNotFound \<Longrightarrow> view d k = None"
    and commit_ok: "kv_commit ops d t = (None, d') \<Longrightarrow> view d' = view t"
    and commit_err: "kv_commit ops d t = (Some e, d') \<Longrightarrow> view d' = view d"
    and keys_set: "set (kv_keys ops d p) = {k \<in> dom (view d). prefix p k}"
    and keys_distinct: "distinct (kv_keys ops d p)"
    and keys_sorted: "sorted (kv_keys ops d p)"
begin

text \<open>The iteration is a function of the contents.\<close>

lemma keys_eqI: "dom (view d) = dom (view d') \<Longrightarrow> kv_keys ops d p = kv_keys ops d' p"
  by (rule sorted_distinct_set_unique)
    (simp_all add: keys_sorted keys_distinct keys_set)

end

text \<open>
  The secret store keeps one blob per record in the same database, under the key layout
  that \<^verbatim>\<open>secrets_list.go\<close> states; \<open>val\<close> reads the ciphertext out of a blob.
\<close>

locale secret_store = kv_store +
  fixes val :: "bytes \<Rightarrow> bytes option"
  assumes st_get_ok: "st_get ops d p n e = Inr s \<Longrightarrow>
      \<exists>b. view d (secret_key p n e) = Some b \<and> val b = Some (sec_ciphertext s)"
    and st_put_ok: "st_put ops d s = (None, d') \<Longrightarrow>
      \<exists>b. val b = Some (sec_ciphertext s) \<and>
          view d' = (view d)(secret_key (sec_path s) (sec_name s) (sec_env s) \<mapsto> b)"
    and st_put_err: "st_put ops d s = (Some x, d') \<Longrightarrow> view d' = view d"
    and st_delete_ok: "st_delete ops d p n e = (None, d') \<Longrightarrow>
      view d (secret_key p n e) \<noteq> None \<and> view d' = (view d)(secret_key p n e := None)"
    and st_delete_err: "st_delete ops d p n e = (Some x, d') \<Longrightarrow> view d' = view d"
begin

lemma get_value:
  "st_get ops d p n e = Inr s \<Longrightarrow> stored_value val (view d) p n e = Some (sec_ciphertext s)"
  using st_get_ok by (fastforce simp: stored_value_def)

lemma put_value:
  "st_put ops d s = (None, d') \<Longrightarrow>
     stored_value val (view d') (sec_path s) (sec_name s) (sec_env s) = Some (sec_ciphertext s)"
  using st_put_ok by (fastforce simp: stored_value_def)

lemma put_other:
  "st_put ops d s = (r, d') \<Longrightarrow> k \<noteq> secret_key (sec_path s) (sec_name s) (sec_env s) \<Longrightarrow>
     view d' k = view d k"
  using st_put_ok st_put_err by (cases r) fastforce+

lemma delete_other:
  "st_delete ops d p n e = (r, d') \<Longrightarrow> k \<noteq> secret_key p n e \<Longrightarrow> view d' k = view d k"
  using st_delete_ok st_delete_err by (cases r) fastforce+

end

locale reliable_store = secret_store +
  assumes get_total: "kv_get ops d k = (case view d k of None \<Rightarrow> Inl ErrKeyNotFound | Some v \<Rightarrow> Inr v)"
    and set_total: "\<exists>t. kv_set ops d k v = Inr t"
    and delete_total: "\<exists>t. kv_delete ops d k = Inr t"
    and commit_total: "fst (kv_commit ops d t) = None"
    and st_get_total: "view d (secret_key p n e) = Some b \<Longrightarrow> val b = Some c \<Longrightarrow>
      \<exists>s. st_get ops d p n e = Inr s"
    and st_get_absent: "view d (secret_key p n e) = None \<Longrightarrow> \<exists>x. st_get ops d p n e = Inl x"
    and st_put_total: "fst (st_put ops d s) = None"
    and st_delete_total: "view d (secret_key p n e) \<noteq> None \<Longrightarrow> fst (st_delete ops d p n e) = None"
begin

lemma st_get_iff:
  assumes "stored_value val (view d) p n e = Some c"
  shows "\<exists>s. st_get ops d p n e = Inr s \<and> sec_ciphertext s = c"
proof -
  from assms obtain b where "view d (secret_key p n e) = Some b" "val b = Some c"
    by (auto simp: stored_value_def bind_eq_Some_conv)
  then obtain s where s: "st_get ops d p n e = Inr s"
    using st_get_total by blast
  then show ?thesis using get_value [OF s] assms by simp
qed

end

section \<open>An in-memory store\<close>

type_synonym mem = "(bytes \<times> bytes) list"

definition mem_view :: "mem \<Rightarrow> bytes \<Rightarrow> bytes option" where
  [go_defs]: "mem_view = map_of"

definition mem_get :: "mem \<Rightarrow> bytes \<Rightarrow> kms_err + bytes" where
  [go_defs]: "mem_get d k = (case map_of d k of None \<Rightarrow> Inl ErrKeyNotFound | Some v \<Rightarrow> Inr v)"

definition mem_ops :: "mem store_ops" where
  [go_defs]: "mem_ops = \<lparr>
     kv_get = mem_get,
     kv_set = (\<lambda>d k v. Inr (AList.update k v d)),
     kv_delete = (\<lambda>d k. Inr (AList.delete k d)),
     kv_commit = (\<lambda>d t. (None, t)),
     kv_keys = (\<lambda>d p. sort (remdups (filter (prefix p) (map fst d)))),
     st_get = (\<lambda>d p n e. case map_of d (secret_key p n e) of
         None \<Rightarrow> Inl ErrKeyNotFound
       | Some b \<Rightarrow> Inr \<lparr>sec_name = n, sec_path = p, sec_env = e, sec_ciphertext = b\<rparr>),
     st_put = (\<lambda>d s. (None,
         AList.update (secret_key (sec_path s) (sec_name s) (sec_env s)) (sec_ciphertext s) d)),
     st_delete = (\<lambda>d p n e. case map_of d (secret_key p n e) of
         None \<Rightarrow> (Some ErrKeyNotFound, d)
       | Some b \<Rightarrow> (None, AList.delete (secret_key p n e) d))\<rparr>"

lemmas mem_defs = mem_ops_def mem_view_def mem_get_def

interpretation mem: reliable_store mem_ops mem_view Some
proof
  show "set (kv_keys mem_ops d p) = {k \<in> dom (mem_view d). prefix p k}" for d p
    by (auto simp: mem_defs dom_map_of_conv_image_fst)
qed (auto simp: mem_defs update_conv' delete_conv' split: option.splits)

section \<open>A store whose writes fail on a schedule\<close>

text \<open>Each write consumes one entry; \<^const>\<open>True\<close>, or no entry left, lets it succeed.\<close>

type_synonym flaky = "mem \<times> bool list"

definition flaky_view :: "flaky \<Rightarrow> bytes \<Rightarrow> bytes option" where
  [go_defs]: "flaky_view d = map_of (fst d)"

fun flaky_write :: "flaky \<Rightarrow> mem \<Rightarrow> kms_err option \<times> flaky" where
  "flaky_write (m, []) t = (None, (t, []))"
| "flaky_write (m, ok # sched) t =
     (if ok then (None, (t, sched)) else (Some (ErrOther ''io''), (m, sched)))"

definition flaky_ops :: "flaky store_ops" where
  [go_defs]: "flaky_ops = \<lparr>
     kv_get = (\<lambda>d. kv_get mem_ops (fst d)),
     kv_set = (\<lambda>d k v. Inr (AList.update k v (fst d), snd d)),
     kv_delete = (\<lambda>d k. Inr (AList.delete k (fst d), snd d)),
     kv_commit = (\<lambda>d t. flaky_write d (fst t)),
     kv_keys = (\<lambda>d. kv_keys mem_ops (fst d)),
     st_get = (\<lambda>d. st_get mem_ops (fst d)),
     st_put = (\<lambda>d s. flaky_write d (snd (st_put mem_ops (fst d) s))),
     st_delete = (\<lambda>d p n e. case st_delete mem_ops (fst d) p n e of
         (Some x, _) \<Rightarrow> (Some x, d)
       | (None, t) \<Rightarrow> flaky_write d t)\<rparr>"

lemma flaky_write_view:
  "flaky_write d t = (None, d') \<Longrightarrow> flaky_view d' = map_of t"
  "flaky_write d t = (Some e, d') \<Longrightarrow> flaky_view d' = flaky_view d"
  by (cases d; cases "snd d"; auto simp: flaky_view_def split: if_splits)+

interpretation flaky: secret_store flaky_ops flaky_view Some
proof
  show "set (kv_keys flaky_ops d p) = {k \<in> dom (flaky_view d). prefix p k}" for d p
    by (auto simp: flaky_ops_def flaky_view_def mem_defs dom_map_of_conv_image_fst)
qed (auto simp: flaky_ops_def mem_defs update_conv' delete_conv' flaky_write_view
    split: option.splits, auto simp: flaky_view_def update_conv' delete_conv')

end
