(* ===== verification/Versions.thy ===== *)
theory Versions
  imports Store
begin

text \<open>
  Version counters for replay protection (\<^verbatim>\<open>versioning.go\<close>).  Each secret has a
  64-bit counter in a sibling record; \<^verbatim>\<open>bumpVersion\<close> is the compare-and-set of PATCH
  and, with expected version \<open>-1\<close>, the unconditional increment of POST.  A Go result
  \<open>(v, err)\<close> is a pair, \<^const>\<open>None\<close> for a nil error; the value returned beside a
  non-nil error is kept, since callers ignore some of these errors.  The interface
  \<open>version_register\<close> is what the handlers use of the counter.
\<close>

section \<open>Operations\<close>

text \<open>
  The bodies the transactions of the sibling records share: reading an 8-byte value, with 0
  for an absent record, and deleting one key.
\<close>

definition load_u64 :: "'d store_ops \<Rightarrow> 'd \<Rightarrow> string \<Rightarrow> bytes \<Rightarrow> kms_err + int64" where
  [go_defs]: "load_u64 ops d what key =
     (case kv_get ops d key of
        Inl ErrKeyNotFound \<Rightarrow> Inr 0
      | Inl err \<Rightarrow> Inl err
      | Inr buf \<Rightarrow>
          (case get_u64 buf of
             None \<Rightarrow> Inl (ErrMalformed what (length buf))
           | Some v \<Rightarrow> Inr v))"

definition delete_key :: "'d store_ops \<Rightarrow> 'd \<Rightarrow> bytes \<Rightarrow> kms_err option \<times> 'd" where
  [go_defs]: "delete_key ops d key =
     (case kv_delete ops d key of
        Inl ErrKeyNotFound \<Rightarrow> kv_commit ops d d
      | Inl err \<Rightarrow> (Some err, d)
      | Inr txn \<Rightarrow> kv_commit ops d txn)"

abbreviation load_version ::
    "'d store_ops \<Rightarrow> 'd \<Rightarrow> string \<Rightarrow> string \<Rightarrow> string \<Rightarrow> kms_err + int64" where
  "load_version ops d path name env \<equiv>
     load_u64 ops d ''kms: malformed version record'' (version_key path name env)"

definition read_version ::
    "'d store_ops \<Rightarrow> 'd \<Rightarrow> string \<Rightarrow> string \<Rightarrow> string \<Rightarrow> int64 \<times> kms_err option" where
  [go_defs]: "read_version ops d path name env =
     (case load_version ops d path name env of Inl err \<Rightarrow> (0, Some err) | Inr v \<Rightarrow> (v, None))"

definition bump_version ::
    "'d store_ops \<Rightarrow> 'd \<Rightarrow> string \<Rightarrow> string \<Rightarrow> string \<Rightarrow> int64 \<Rightarrow> int64 \<times> kms_err option \<times> 'd" where
  [go_defs]: "bump_version ops d path name env expected =
     (case load_version ops d path name env of
        Inl err \<Rightarrow> (0, Some err, d)
      | Inr cur \<Rightarrow>
          if 0 \<le> sint expected \<and> expected \<noteq> cur then (0, Some ErrVersionMismatch, d)
          else
            let new_ver = cur + 1 in
            (case kv_set ops d (version_key path name env) (put_u64 new_ver) of
               Inl err \<Rightarrow> (new_ver, Some err, d)
             | Inr txn \<Rightarrow> (new_ver, kv_commit ops d txn)))"

definition delete_version ::
    "'d store_ops \<Rightarrow> 'd \<Rightarrow> string \<Rightarrow> string \<Rightarrow> string \<Rightarrow> kms_err option \<times> 'd" where
  [go_defs]: "delete_version ops d path name env = delete_key ops d (version_key path name env)"

section \<open>The interface the handlers use\<close>

text \<open>
  \<open>rd\<close> gives the current counter, \<^const>\<open>None\<close> when the record is malformed;
  \<open>bump s x\<close> is the increment guarded by the expected version \<open>x\<close>, unguarded when
  \<open>x\<close> is negative as a signed integer.
\<close>

locale version_register =
  fixes rd :: "'s \<Rightarrow> int64 option"
    and bump :: "'s \<Rightarrow> int64 \<Rightarrow> int64 \<times> kms_err option \<times> 's"
  assumes bump_ok: "bump s x = (v, None, s') \<Longrightarrow>
      (\<exists>c. rd s = Some c \<and> v = c + 1 \<and> (0 \<le> sint x \<longrightarrow> x = c)) \<and> rd s' = Some v"
    and bump_err: "bump s x = (v, Some e, s') \<Longrightarrow> rd s' = rd s"
begin

lemma bump_rd: "bump s x = (v, err, s') \<Longrightarrow> rd s' = (if err = None then Some v else rd s)"
  using bump_ok bump_err by (cases err) auto

lemma stale_rejected:
  "rd s = Some c \<Longrightarrow> 0 \<le> sint x \<Longrightarrow> x \<noteq> c \<Longrightarrow> bump s x = (v, err, s') \<Longrightarrow> err \<noteq> None"
  using bump_ok [of s x v s'] by auto

text \<open>A guarded write that succeeded cannot be replayed: its expected version is stale.\<close>

lemma replay_rejected:
  assumes "bump s x = (v, None, s')" "0 \<le> sint x" "bump s' x = (v', err, s'')"
  shows "err \<noteq> None"
proof -
  from bump_ok [OF assms(1)] assms(2) have "rd s' = Some (x + 1)" by auto
  then show ?thesis
    using stale_rejected [OF _ assms(2) _ assms(3)] by simp
qed

text \<open>Any sequence of attempts, successful or not.\<close>

fun attempts :: "'s \<Rightarrow> int64 list \<Rightarrow> 's" where
  "attempts s [] = s"
| "attempts s (x # xs) = attempts (snd (snd (bump s x))) xs"

lemma attempts_foldl: "attempts s xs = foldl (\<lambda>s x. snd (snd (bump s x))) s xs"
  by (induction xs arbitrary: s) simp_all

lemma attempts_counter:
  "rd s = Some c \<Longrightarrow>
     \<exists>k \<le> length xs. rd (attempts s xs) = Some (c + of_nat k)"
proof (induction xs arbitrary: s c)
  case Nil
  then show ?case by simp
next
  case (Cons x xs)
  obtain v err s' where b: "bump s x = (v, err, s')" by (cases "bump s x")
  show ?case
  proof (cases err)
    case None
    with bump_ok [of s x v s'] b Cons.prems have "rd s' = Some (c + 1)" by auto
    with Cons.IH obtain k where "k \<le> length xs" "rd (attempts s' xs) = Some (c + 1 + of_nat k)"
      by blast
    then show ?thesis
      using b by (intro exI [of _ "Suc k"]) (simp add: algebra_simps)
  next
    case (Some e)
    with bump_err [of s x v e s'] b Cons.prems have "rd s' = Some c" by auto
    with Cons.IH obtain k where "k \<le> length xs" "rd (attempts s' xs) = Some (c + of_nat k)"
      by blast
    then show ?thesis
      using b by (intro exI [of _ k]) simp
  qed
qed

text \<open>
  After a guarded write succeeds, the same guard fails again for the next \<open>2 ^ 64 - 1\<close>
  attempts, whatever the other writers do: only wrap-around could make it current again.
\<close>

lemma replay_rejected_later:
  assumes "bump s x = (v, None, s')" "0 \<le> sint x" "length xs < 2 ^ 64 - 1"
    and "bump (attempts s' xs) x = (v', err, s'')"
  shows "err \<noteq> None"
proof -
  from bump_ok [OF assms(1)] assms(2) have "rd s' = Some (x + 1)" by auto
  then obtain k where k: "k \<le> length xs" and r: "rd (attempts s' xs) = Some (x + 1 + of_nat k)"
    using attempts_counter by blast
  have "of_nat (Suc k) \<noteq> (0 :: int64)"
  proof
    assume "of_nat (Suc k) = (0 :: int64)"
    then have "unat (of_nat (Suc k) :: int64) = 0" by simp
    moreover have "unat (of_nat (Suc k) :: int64) = Suc k"
      using k assms(3) by (subst unat_of_nat) (simp add: take_bit_nat_eq_self del: of_nat_Suc)
    ultimately show False by simp
  qed
  then have "x \<noteq> x + 1 + of_nat k" by (simp add: add.assoc)
  then show ?thesis
    using stale_rejected [OF r assms(2) _ assms(4)] by simp
qed

end

section \<open>The counters provide it\<close>

context kv_store
begin

lemma load_u64_Inr:
  "load_u64 ops d w k = Inr v \<Longrightarrow> (case view d k of None \<Rightarrow> Some 0 | Some b \<Rightarrow> get_u64 b) = Some v"
  by (auto simp: load_u64_def dest: get_hit get_miss
      split: sum.splits kms_err.splits option.splits)

lemma load_version_Inr:
  "load_version ops d p n e = Inr v \<Longrightarrow> stored_version (view d) p n e = Some v"
  using load_u64_Inr by (simp add: stored_version_def)

lemma read_version_None:
  "read_version ops d p n e = (v, None) \<Longrightarrow> stored_version (view d) p n e = Some v"
  by (auto simp: read_version_def dest: load_version_Inr split: sum.splits)

lemma bump_version_ok:
  assumes "bump_version ops d p n e x = (v, None, d')"
  shows "\<exists>c. stored_version (view d) p n e = Some c \<and> v = c + 1 \<and> (0 \<le> sint x \<longrightarrow> x = c)"
    and "view d' = (view d)(version_key p n e \<mapsto> put_u64 v)"
  using assms
  by (auto simp: bump_version_def Let_def dest!: load_version_Inr set_ok commit_ok
      split: sum.splits if_splits)

lemma bump_version_err: "bump_version ops d p n e x = (v, Some y, d') \<Longrightarrow> view d' = view d"
  by (auto simp: bump_version_def Let_def dest: commit_err split: sum.splits if_splits)

lemma bump_version_other:
  "bump_version ops d p n e x = (v, r, d') \<Longrightarrow> k \<noteq> version_key p n e \<Longrightarrow> view d' k = view d k"
  by (cases r) (auto dest: bump_version_ok(2) bump_version_err)

lemma delete_key_ok: "delete_key ops d k = (None, d') \<Longrightarrow> view d' = (view d)(k := None)"
  by (auto simp: delete_key_def fun_upd_idem_iff dest!: delete_ok delete_miss commit_ok
      split: sum.splits kms_err.splits)

lemma delete_key_other: "delete_key ops d k = (r, d') \<Longrightarrow> k' \<noteq> k \<Longrightarrow> view d' k' = view d k'"
  by (cases r) (auto simp: delete_key_def dest!: delete_ok delete_miss commit_ok commit_err
      split: sum.splits kms_err.splits)

lemmas delete_version_ok = delete_key_ok [of _ "version_key p n e" for p n e, folded delete_version_def]
  and delete_version_other = delete_key_other [of _ "version_key p n e" for p n e, folded delete_version_def]

end

sublocale kv_store \<subseteq> ver: version_register "\<lambda>d. stored_version (view d) path name env"
    "\<lambda>d. bump_version ops d path name env" for path name env
proof
  fix s x v s'
  assume b: "bump_version ops s path name env x = (v, None, s')"
  from bump_version_ok [OF b]
  show "(\<exists>c. stored_version (view s) path name env = Some c \<and> v = c + 1 \<and> (0 \<le> sint x \<longrightarrow> x = c)) \<and>
        stored_version (view s') path name env = Some v"
    by (auto simp: stored_version_def)
next
  fix s x v e s'
  assume "bump_version ops s path name env x = (v, Some e, s')"
  then show "stored_version (view s') path name env = stored_version (view s) path name env"
    by (auto dest: bump_version_err)
qed

interpretation mem_ver: version_register "\<lambda>d. stored_version (mem_view d) path name env"
    "\<lambda>d. bump_version mem_ops d path name env" for path name env
  by (rule mem.ver.version_register_axioms)

section \<open>On a store without failures\<close>

context reliable_store
begin

lemma load_u64_eq:
  "load_u64 ops d w k =
     (case view d k of
        None \<Rightarrow> Inr 0
      | Some b \<Rightarrow> (case get_u64 b of None \<Rightarrow> Inl (ErrMalformed w (length b)) | Some v \<Rightarrow> Inr v))"
  by (auto simp: load_u64_def get_total split: option.splits)

lemma load_version_total:
  "stored_version (view d) p n e = Some v \<Longrightarrow> load_version ops d p n e = Inr v"
  by (auto simp: stored_version_def load_u64_eq split: option.splits)

lemma read_version_total:
  "stored_version (view d) p n e = Some v \<Longrightarrow> read_version ops d p n e = (v, None)"
  by (simp add: read_version_def load_version_total)

lemma bump_version_total:
  assumes "stored_version (view d) p n e = Some c" "0 \<le> sint x \<longrightarrow> x = c"
  shows "\<exists>d'. bump_version ops d p n e x = (c + 1, None, d')"
proof -
  obtain t where t: "kv_set ops d (version_key p n e) (put_u64 (c + 1)) = Inr t"
    using set_total by blast
  obtain d' where "kv_commit ops d t = (None, d')"
    using commit_total [of d t] by (cases "kv_commit ops d t") auto
  with t assms show ?thesis
    by (auto simp: bump_version_def load_version_total)
qed

lemma bump_version_stale:
  "stored_version (view d) p n e = Some c \<Longrightarrow> 0 \<le> sint x \<Longrightarrow> x \<noteq> c \<Longrightarrow>
     bump_version ops d p n e x = (0, Some ErrVersionMismatch, d)"
  by (simp add: bump_version_def load_version_total)

lemma delete_key_total: "\<exists>d'. delete_key ops d k = (None, d')"
proof -
  obtain t where t: "kv_delete ops d k = Inr t"
    using delete_total by blast
  obtain d' where "kv_commit ops d t = (None, d')"
    using commit_total [of d t] by (cases "kv_commit ops d t") auto
  with t show ?thesis by (simp add: delete_key_def)
qed

end

end
