(* ===== verification/Listing.thy ===== *)
theory Listing
  imports Versions
begin

text \<open>
  Metadata listing and modification times (\<^verbatim>\<open>secrets_list.go\<close>).  The listing scans
  keys only, rebuilds \<open>(path, env, name)\<close> from each key, and adds the version and the
  modification time from the sibling records.  Its specification is a filter over the sorted
  keys cut off at \<open>max_list_rows\<close>; it cannot depend on a secret's value.
\<close>

section \<open>Modification times\<close>

definition write_mtime ::
    "'d store_ops \<Rightarrow> int64 \<Rightarrow> 'd \<Rightarrow> string \<Rightarrow> string \<Rightarrow> string \<Rightarrow> kms_err option \<times> 'd" where
  [go_defs]: "write_mtime ops now d path name env =
     (case kv_set ops d (mtime_key path name env) (put_u64 now) of
        Inl err \<Rightarrow> (Some err, d)
      | Inr txn \<Rightarrow> kv_commit ops d txn)"

definition read_mtime ::
    "'d store_ops \<Rightarrow> 'd \<Rightarrow> string \<Rightarrow> string \<Rightarrow> string \<Rightarrow> int64 \<times> kms_err option" where
  [go_defs]: "read_mtime ops d path name env =
     (case load_u64 ops d ''kms: malformed mtime record'' (mtime_key path name env) of
        Inl err \<Rightarrow> (0, Some err)
      | Inr ns \<Rightarrow> (ns, None))"

definition delete_mtime ::
    "'d store_ops \<Rightarrow> 'd \<Rightarrow> string \<Rightarrow> string \<Rightarrow> string \<Rightarrow> kms_err option \<times> 'd" where
  [go_defs]: "delete_mtime ops d path name env = delete_key ops d (mtime_key path name env)"

section \<open>The listing\<close>

definition max_list_rows :: nat where
  [go_defs]: "max_list_rows = 10000"

record meta_row =
  row_path :: string
  row_name :: string
  row_env :: string
  row_version :: int64
  row_updated :: string

text \<open>
  Phase 1, the loop over the iterator: unparsable keys and other environments are skipped,
  and the loop breaks, marking the result truncated, at the first further match once
  \<open>cap\<close> references are collected.
\<close>

fun list_refs ::
    "nat \<Rightarrow> string \<Rightarrow> bytes list \<Rightarrow> (string \<times> string \<times> string) list \<Rightarrow>
     (string \<times> string \<times> string) list \<times> bool" where
  "list_refs cap env_filter [] refs = (refs, False)"
| "list_refs cap env_filter (key # keys) refs =
     (case parse_secret_rel_key (trim_prefix key ''kms/secrets/'') of
        None \<Rightarrow> list_refs cap env_filter keys refs
      | Some (p, e, n) \<Rightarrow>
          if env_filter \<noteq> '''' \<and> e \<noteq> env_filter then list_refs cap env_filter keys refs
          else if length refs \<ge> cap then (refs, True)
          else list_refs cap env_filter keys (refs @ [(p, e, n)]))"

text \<open>Phase 2: one row per reference; errors of the sibling reads count as 0.\<close>

definition meta_row_of :: "'d store_ops \<Rightarrow> 'd \<Rightarrow> string \<times> string \<times> string \<Rightarrow> meta_row" where
  [go_defs]: "meta_row_of ops d ref =
     (case ref of (p, e, n) \<Rightarrow>
        let ver = fst (read_version ops d p n e); ns = fst (read_mtime ops d p n e) in
        \<lparr>row_path = p, row_name = n, row_env = e, row_version = ver,
         row_updated = (if 0 < sint ns then rfc3339 (nat (sint ns)) else '''')\<rparr>)"

text \<open>The boundary slash keeps \<open>brand/hanzo\<close> from matching \<open>brand/hanzofoo\<close>.\<close>

definition list_prefix :: "string \<Rightarrow> bytes" where
  [go_defs]: "list_prefix list_path = ''kms/secrets/'' @ list_path @ ''/''"

definition list_secret_metadata ::
    "'d store_ops \<Rightarrow> 'd \<Rightarrow> string \<Rightarrow> string \<Rightarrow> meta_row list \<times> bool" where
  [go_defs]: "list_secret_metadata ops d list_path env_filter =
     (let db_prefix = list_prefix list_path;
          (refs, truncated) = list_refs max_list_rows env_filter (kv_keys ops d db_prefix) []
      in (map (meta_row_of ops d) refs, truncated))"

section \<open>Specification of the scan\<close>

definition ref_of :: "string \<Rightarrow> bytes \<Rightarrow> (string \<times> string \<times> string) option" where
  "ref_of env_filter key =
     (case parse_secret_rel_key (trim_prefix key ''kms/secrets/'') of
        None \<Rightarrow> None
      | Some (p, e, n) \<Rightarrow> if env_filter \<noteq> '''' \<and> e \<noteq> env_filter then None else Some (p, e, n))"

lemma list_refs_spec:
  "length refs \<le> cap \<Longrightarrow>
     list_refs cap f keys refs =
       (take cap (refs @ List.map_filter (ref_of f) keys),
        cap < length refs + length (List.map_filter (ref_of f) keys))"
  by (induction keys arbitrary: refs)
    (auto simp: ref_of_def map_filter_simps take_Cons' split: option.splits prod.splits)

lemma ref_of_secret_key:
  "ref_of f (secret_key p n e) = Some (p', e', n') \<longleftrightarrow>
     listable (p', e', n') \<and> rel_key (p', e', n') = rel_key (p, e, n) \<and> (f = '''' \<or> e' = f)"
proof -
  have t: "trim_prefix (secret_key p n e) ''kms/secrets/'' = rel_key (p, e, n)"
    unfolding secret_key_def by (rule trim_prefix_append)
  have "parse_secret_rel_key (rel_key (p, e, n)) = Some (p', e', n') \<longleftrightarrow>
      listable (p', e', n') \<and> rel_key (p', e', n') = rel_key (p, e, n)"
    by (rule rel.dec_eq_Some_iff)
  then show ?thesis
    by (auto simp: ref_of_def t simp del: listable.simps split: option.splits)
qed

lemma ref_of_Some:
  assumes "prefix ''kms/secrets/'' key" "ref_of f key = Some (p, e, n)"
  shows "listable (p, e, n) \<and> key = secret_key p n e \<and> (f = '''' \<or> e = f)"
proof -
  from assms(1) obtain rel where key: "key = ''kms/secrets/'' @ rel"
    by (auto simp: prefix_def)
  have "trim_prefix key ''kms/secrets/'' = rel"
    unfolding key by (rule trim_prefix_append)
  then show ?thesis
    using assms(2)
    by (auto simp: ref_of_def secret_key_def key rel.dec_eq_Some_iff
        simp del: listable.simps split: option.splits if_splits)
qed

lemma map_filter_ref_distinct:
  "distinct keys \<Longrightarrow> \<forall>k\<in>set keys. prefix ''kms/secrets/'' k \<Longrightarrow>
     distinct (List.map_filter (ref_of f) keys)"
proof (induction keys)
  case (Cons k ks)
  have "x \<notin> set (List.map_filter (ref_of f) ks)" if "ref_of f k = Some x" for x
  proof
    assume "x \<in> set (List.map_filter (ref_of f) ks)"
    then obtain k' where k': "k' \<in> set ks" "ref_of f k' = Some x" by (auto simp: set_filter_map)
    obtain p e n where "x = (p, e, n)" by (cases x)
    with that k' Cons.prems(2) have "k = secret_key p n e" "k' = secret_key p n e"
      using ref_of_Some by auto
    with k' Cons.prems(1) show False by simp
  qed
  with Cons show ?case by (auto simp: map_filter_simps split: option.splits)
qed (simp add: map_filter_simps)

text \<open>
  Where a listed record can lie: below the listed path, at it, or (when the environment
  happens to be the listed path's last segment) directly at its parent.
\<close>

lemma listed_location:
  assumes "listable (p, e, n)" "prefix (list_prefix l) (secret_key p n e)"
  shows "p = l \<or> prefix (l @ ''/'') p \<or> l = p @ ''/'' @ e"
proof -
  from assms(2) obtain z where z: "p @ CHR ''/'' # e @ CHR ''/'' # n = l @ CHR ''/'' # z"
    by (auto simp: secret_key_def rel_key_def prefix_def list_prefix_def)
  have last: "a = c \<or> (\<exists>y. a = c @ CHR ''/'' # y)"
    if "a @ CHR ''/'' # b = c @ CHR ''/'' # w" "CHR ''/'' \<notin> set b" for a b c w
    using that by (auto simp: append_eq_append_conv2 Cons_eq_append_conv append_eq_Cons_conv)
  from z assms(1) have "p @ CHR ''/'' # e = l \<or> (\<exists>y. p @ CHR ''/'' # e = l @ CHR ''/'' # y)"
    by (intro last [of _ n _ z]) auto
  then show ?thesis
  proof
    assume "\<exists>y. p @ CHR ''/'' # e = l @ CHR ''/'' # y"
    then obtain y where y: "p @ CHR ''/'' # e = l @ CHR ''/'' # y" ..
    then have "p = l \<or> (\<exists>y. p = l @ CHR ''/'' # y)"
      using assms(1) by (intro last [OF y]) auto
    then show ?thesis by (auto simp: prefix_def)
  qed simp
qed

context kv_store
begin

lemma list_prefix_keys:
  "k \<in> set (kv_keys ops d (list_prefix l)) \<Longrightarrow> prefix ''kms/secrets/'' k"
  by (auto simp: keys_set prefix_def list_prefix_def)

lemma write_mtime_ok:
  "write_mtime ops now d p n e = (None, d') \<Longrightarrow> view d' = (view d)(mtime_key p n e \<mapsto> put_u64 now)"
  by (auto simp: write_mtime_def dest!: set_ok commit_ok split: sum.splits)

lemma write_mtime_other:
  "write_mtime ops now d p n e = (r, d') \<Longrightarrow> k \<noteq> mtime_key p n e \<Longrightarrow> view d' k = view d k"
  by (cases r) (auto simp: write_mtime_def dest!: set_ok commit_ok commit_err split: sum.splits)

lemmas delete_mtime_ok = delete_key_ok [of _ "mtime_key p n e" for p n e, folded delete_mtime_def]
  and delete_mtime_other = delete_key_other [of _ "mtime_key p n e" for p n e, folded delete_mtime_def]

text \<open>The records whose keys the listing sees, and what it returns of them.\<close>

lemma list_refs_set:
  "set (List.map_filter (ref_of f) (kv_keys ops d (list_prefix l))) =
     {(p, e, n). listable (p, e, n) \<and> (f = '''' \<or> e = f) \<and>
        view d (secret_key p n e) \<noteq> None \<and> prefix (list_prefix l) (secret_key p n e)}"
  (is "set (List.map_filter _ ?ks) = ?R")
proof (intro set_eqI iffI)
  fix x
  assume "x \<in> set (List.map_filter (ref_of f) ?ks)"
  then obtain k where k: "k \<in> set ?ks" and r: "ref_of f k = Some x"
    by (auto simp: set_filter_map)
  obtain p e n where x: "x = (p, e, n)" by (cases x)
  from ref_of_Some [OF list_prefix_keys [OF k]] r x k
  show "x \<in> ?R" by (auto simp: keys_set simp del: listable.simps)
next
  fix x
  assume "x \<in> ?R"
  then obtain p e n where x: "x = (p, e, n)" "secret_key p n e \<in> set ?ks"
    and l: "listable (p, e, n)" "f = '''' \<or> e = f"
    by (auto simp: keys_set)
  have "ref_of f (secret_key p n e) = Some x"
    using l by (simp add: x ref_of_secret_key del: listable.simps)
  with x(2) show "x \<in> set (List.map_filter (ref_of f) ?ks)"
    by (auto simp: set_filter_map)
qed

lemma list_secret_metadata_eq:
  "list_secret_metadata ops d l f =
     (let rs = List.map_filter (ref_of f) (kv_keys ops d (list_prefix l))
      in (map (meta_row_of ops d) (take max_list_rows rs), max_list_rows < length rs))"
  by (simp add: list_secret_metadata_def list_refs_spec Let_def)

lemma listed_row:
  assumes "list_secret_metadata ops d l f = (rows, tr)" "r \<in> set rows"
  shows "listable (row_path r, row_env r, row_name r)"
    and "f = '''' \<or> row_env r = f"
    and "view d (secret_key (row_path r) (row_name r) (row_env r)) \<noteq> None"
    and "prefix (list_prefix l) (secret_key (row_path r) (row_name r) (row_env r))"
proof -
  from assms obtain p e n where ref: "r = meta_row_of ops d (p, e, n)"
    and "(p, e, n) \<in> set (List.map_filter (ref_of f) (kv_keys ops d (list_prefix l)))"
    by (auto simp: list_secret_metadata_eq Let_def dest!: in_set_takeD)
  then show "listable (row_path r, row_env r, row_name r)" "f = '''' \<or> row_env r = f"
    "view d (secret_key (row_path r) (row_name r) (row_env r)) \<noteq> None"
    "prefix (list_prefix l) (secret_key (row_path r) (row_name r) (row_env r))"
    unfolding list_refs_set by (simp_all add: meta_row_of_def Let_def del: listable.simps)
qed

lemma list_length:
  assumes "list_secret_metadata ops d l f = (rows, tr)"
  shows "length rows \<le> max_list_rows" and "tr \<Longrightarrow> length rows = max_list_rows"
  using assms by (auto simp: list_secret_metadata_eq Let_def)

lemma list_complete:
  assumes "list_secret_metadata ops d l f = (rows, False)"
    and "listable (p, e, n)" "f = '''' \<or> e = f"
    and "view d (secret_key p n e) \<noteq> None"
    and "prefix (list_prefix l) (secret_key p n e)"
  shows "\<exists>r\<in>set rows. row_path r = p \<and> row_name r = n \<and> row_env r = e"
proof -
  have "(p, e, n) \<in> set (List.map_filter (ref_of f) (kv_keys ops d (list_prefix l)))"
    unfolding list_refs_set using assms by (simp del: listable.simps)
  with assms(1) have "meta_row_of ops d (p, e, n) \<in> set rows"
    by (auto simp: list_secret_metadata_eq Let_def)
  then show ?thesis
    by (rule bexI [rotated]) (simp add: meta_row_of_def Let_def)
qed

lemma list_distinct:
  assumes "list_secret_metadata ops d l f = (rows, tr)"
  shows "distinct (map (\<lambda>r. (row_path r, row_env r, row_name r)) rows)"
proof -
  let ?rs = "List.map_filter (ref_of f) (kv_keys ops d (list_prefix l))"
  have "(\<lambda>r. (row_path r, row_env r, row_name r)) \<circ> meta_row_of ops d = id"
    by (auto simp: meta_row_of_def Let_def)
  moreover have "distinct ?rs"
    by (rule map_filter_ref_distinct) (auto simp: keys_distinct list_prefix_keys)
  ultimately show ?thesis
    using assms by (auto simp: list_secret_metadata_eq Let_def)
qed

end

context reliable_store
begin

lemma write_mtime_total: "\<exists>d'. write_mtime ops now d p n e = (None, d')"
proof -
  obtain t where t: "kv_set ops d (mtime_key p n e) (put_u64 now) = Inr t"
    using set_total by blast
  obtain d' where "kv_commit ops d t = (None, d')"
    using commit_total [of d t] by (cases "kv_commit ops d t") auto
  with t show ?thesis by (simp add: write_mtime_def)
qed

text \<open>
  No value can leak: two databases with the same keys and the same version and time records
  give the same listing, whatever their secrets are.
\<close>

lemma list_independent_of_values:
  assumes "dom (view d) = dom (view d')"
    and "\<And>p n e. view d (version_key p n e) = view d' (version_key p n e)"
    and "\<And>p n e. view d (mtime_key p n e) = view d' (mtime_key p n e)"
  shows "list_secret_metadata ops d l f = list_secret_metadata ops d' l f"
proof -
  have "meta_row_of ops d = meta_row_of ops d'"
    by (auto simp: meta_row_of_def read_version_def read_mtime_def load_u64_eq assms(2,3))
  with keys_eqI [OF assms(1)] show ?thesis
    by (simp add: list_secret_metadata_eq)
qed

end

end
