(* ===== verification/Http.thy ===== *)
theory Http
  imports Prelude
begin

text \<open>
  Requests, responses and JSON values.  A request body is given as the JSON value Go's
  decoder would read first from it, with the number of bytes up to the end of that value, or
  \<^const>\<open>None\<close> when the bytes do not start with a JSON value; this is what
  \<^verbatim>\<open>http.MaxBytesReader\<close> followed by \<^verbatim>\<open>json.NewDecoder(r.Body).Decode\<close>
  observes.  Decoding into a struct follows encoding/json: exact key match before
  case-folded match, later members override, \<^verbatim>\<open>null\<close> leaves a field alone, and a
  type mismatch is remembered while the remaining members are still stored.
\<close>

datatype json =
    JNull
  | JBool bool
  | JInt int
  | JFrac string
  | JStr string
  | JArr "json list"
  | JObj "(string \<times> json) list"

section \<open>Header fields\<close>

type_synonym headers = "(string \<times> string) list"

definition token_byte :: "char \<Rightarrow> bool" where
  [go_defs]: "token_byte c \<longleftrightarrow>
     (CHR ''a'' \<le> c \<and> c \<le> CHR ''z'') \<or> (CHR ''A'' \<le> c \<and> c \<le> CHR ''Z'') \<or>
     (CHR ''0'' \<le> c \<and> c \<le> CHR ''9'') \<or> c \<in> set ''!#$%&*+-.^_|~'' \<or> c = CHR 0x27 \<or> c = CHR 0x60"

definition upper_byte :: "char \<Rightarrow> char" where
  [go_defs]: "upper_byte c =
     (if CHR ''a'' \<le> c \<and> c \<le> CHR ''z'' then char_of (of_char c - 32 :: nat) else c)"

fun canon_from :: "bool \<Rightarrow> string \<Rightarrow> string" where
  "canon_from up [] = []"
| "canon_from up (c # s) = (if up then upper_byte c else lower_byte c) # canon_from (c = CHR ''-'') s"

text \<open>\<^verbatim>\<open>textproto.CanonicalMIMEHeaderKey\<close>; the server stores headers under these keys.\<close>

definition canonical_key :: "string \<Rightarrow> string" where
  [go_defs]: "canonical_key k = (if list_all token_byte k then canon_from True k else k)"

definition header_get :: "headers \<Rightarrow> string \<Rightarrow> string" where
  [go_defs]: "header_get hs k = (case map_of hs (canonical_key k) of None \<Rightarrow> '''' | Some v \<Rightarrow> v)"

definition header_del :: "string \<Rightarrow> headers \<Rightarrow> headers" where
  [go_defs]: "header_del k hs = filter (\<lambda>(k', _). k' \<noteq> canonical_key k) hs"

lemma header_del_set: "set (header_del k hs) = {(k', v) \<in> set hs. k' \<noteq> canonical_key k}"
  by (auto simp: header_del_def)

lemma fold_header_del:
  "fold header_del ks hs = filter (\<lambda>(k', _). k' \<notin> canonical_key ` set ks) hs"
  by (induction ks arbitrary: hs) (auto simp: header_del_def intro: filter_cong)

section \<open>Requests and responses\<close>

text \<open>
  \<open>rq_vals\<close> holds the wildcards of the matched route (\<^verbatim>\<open>r.PathValue\<close>) and
  \<open>rq_query\<close> the decoded query (\<^verbatim>\<open>r.URL.Query()\<close>), both as association lists whose
  first entry counts.
\<close>

record request =
  rq_method :: string
  rq_path :: string
  rq_vals :: "(string \<times> string) list"
  rq_query :: "(string \<times> string) list"
  rq_headers :: headers
  rq_body :: "(nat \<times> json) option"
  rq_remote :: string

definition lookup0 :: "(string \<times> string) list \<Rightarrow> string \<Rightarrow> string" where
  [go_defs]: "lookup0 xs k = (case map_of xs k of None \<Rightarrow> '''' | Some v \<Rightarrow> v)"

abbreviation path_value :: "request \<Rightarrow> string \<Rightarrow> string" where
  "path_value r k \<equiv> lookup0 (rq_vals r) k"

abbreviation query_get :: "request \<Rightarrow> string \<Rightarrow> string" where
  "query_get r k \<equiv> lookup0 (rq_query r) k"

datatype payload = Json json | Text string | File string

record response =
  rs_status :: nat
  rs_headers :: headers
  rs_body :: payload

definition write_json :: "nat \<Rightarrow> json \<Rightarrow> response" where
  [go_defs]: "write_json code v =
     \<lparr>rs_status = code, rs_headers = [(''Content-Type'', ''application/json'')], rs_body = Json v\<rparr>"

lemma write_json_sel [simp]:
  "rs_status (write_json code v) = code" "rs_body (write_json code v) = Json v"
  by (simp_all add: write_json_def)

abbreviation message :: "string \<Rightarrow> json" where
  "message m \<equiv> JObj [(''message'', JStr m)]"

section \<open>Decoding a body\<close>

definition max_body_bytes :: nat where
  [go_defs]: "max_body_bytes = 2 ^ 20"

definition read_json :: "request \<Rightarrow> json option" where
  [go_defs]: "read_json r =
     (case rq_body r of
        None \<Rightarrow> None
      | Some (len, v) \<Rightarrow> if len \<le> max_body_bytes then Some v else None)"

fun fold_name :: "string \<Rightarrow> string" where
  "fold_name [] = []"
| "fold_name (a # s) =
     (if a = CHR 0xE2 \<and> take 2 s = [CHR 0x84, CHR 0xAA] then CHR ''k'' # fold_name (drop 2 s)
      else if a = CHR 0xC5 \<and> take 1 s = [CHR 0xBF] then CHR ''s'' # fold_name (drop 1 s)
      else lower_byte a # fold_name s)"

definition match_field :: "string list \<Rightarrow> string \<Rightarrow> string option" where
  [go_defs]: "match_field names k =
     (if k \<in> set names then Some k else find (\<lambda>f. fold_name f = fold_name k) names)"

text \<open>
  \<open>store field value target\<close> stores one member; the flag is false when the value's type
  does not fit.  Unknown members are ignored.
\<close>

fun decode_members ::
    "string list \<Rightarrow> (string \<Rightarrow> json \<Rightarrow> 'r \<Rightarrow> bool \<times> 'r) \<Rightarrow> (string \<times> json) list \<Rightarrow> 'r \<Rightarrow> bool \<times> 'r" where
  "decode_members names store [] t = (True, t)"
| "decode_members names store ((k, v) # ms) t =
     (case match_field names k of
        None \<Rightarrow> decode_members names store ms t
      | Some f \<Rightarrow>
          (case store f v t of (ok, t') \<Rightarrow>
             (case decode_members names store ms t' of (oks, t'') \<Rightarrow> (ok \<and> oks, t''))))"

definition decode_struct ::
    "string list \<Rightarrow> (string \<Rightarrow> json \<Rightarrow> 'r \<Rightarrow> bool \<times> 'r) \<Rightarrow> json \<Rightarrow> 'r \<Rightarrow> bool \<times> 'r" where
  [go_defs]: "decode_struct names store v t =
     (case v of
        JNull \<Rightarrow> (True, t)
      | JObj ms \<Rightarrow> decode_members names store ms t
      | _ \<Rightarrow> (False, t))"

definition store_str :: "json \<Rightarrow> (string \<Rightarrow> 'r) \<Rightarrow> 'r \<Rightarrow> bool \<times> 'r" where
  [go_defs]: "store_str v put t =
     (case v of JNull \<Rightarrow> (True, t) | JStr s \<Rightarrow> (True, put s) | _ \<Rightarrow> (False, t))"

text \<open>Decoding the body of a request: a missing or oversized body leaves the target empty.\<close>

definition decode_body ::
    "string list \<Rightarrow> (string \<Rightarrow> json \<Rightarrow> 'r \<Rightarrow> bool \<times> 'r) \<Rightarrow> request \<Rightarrow> 'r \<Rightarrow> bool \<times> 'r" where
  [go_defs]: "decode_body names store r t =
     (case read_json r of None \<Rightarrow> (False, t) | Some v \<Rightarrow> decode_struct names store v t)"

lemma decode_body_oversized:
  "rq_body r = Some (len, v) \<Longrightarrow> max_body_bytes < len \<Longrightarrow> decode_body fs st r t = (False, t)"
  by (simp add: decode_body_def read_json_def)

section \<open>Decoding the clients' answers\<close>

definition decode_str :: "json \<Rightarrow> bool \<times> string" where
  [go_defs]: "decode_str v = store_str v (\<lambda>s. s) ''''"

definition store_list :: "(json \<Rightarrow> bool \<times> 'a) \<Rightarrow> json \<Rightarrow> ('a list \<Rightarrow> 'r) \<Rightarrow> 'r \<Rightarrow> bool \<times> 'r" where
  [go_defs]: "store_list dec v put t =
     (case v of
        JNull \<Rightarrow> (True, put [])
      | JArr vs \<Rightarrow> (list_all (\<lambda>v. fst (dec v)) vs, put (map (\<lambda>v. snd (dec v)) vs))
      | _ \<Rightarrow> (False, t))"

definition store_bool :: "json \<Rightarrow> (bool \<Rightarrow> 'r) \<Rightarrow> 'r \<Rightarrow> bool \<times> 'r" where
  [go_defs]: "store_bool v put t =
     (case v of JNull \<Rightarrow> (True, t) | JBool b \<Rightarrow> (True, put b) | _ \<Rightarrow> (False, t))"

definition store_i64 :: "json \<Rightarrow> (int64 \<Rightarrow> 'r) \<Rightarrow> 'r \<Rightarrow> bool \<times> 'r" where
  [go_defs]: "store_i64 v put t =
     (case v of
        JNull \<Rightarrow> (True, t)
      | JInt i \<Rightarrow> if - (2 ^ 63) \<le> i \<and> i < 2 ^ 63 then (True, put (word_of_int i)) else (False, t)
      | _ \<Rightarrow> (False, t))"

definition store_time :: "(string \<Rightarrow> int option) \<Rightarrow> json \<Rightarrow> (int \<Rightarrow> 'r) \<Rightarrow> 'r \<Rightarrow> bool \<times> 'r" where
  [go_defs]: "store_time ptime v put t =
     (case v of
        JNull \<Rightarrow> (True, t)
      | JStr s \<Rightarrow> (case ptime s of None \<Rightarrow> (False, t) | Some ns \<Rightarrow> (True, put ns))
      | _ \<Rightarrow> (False, t))"

text \<open>A one-member response object.\<close>

definition decode_one :: "string \<Rightarrow> (json \<Rightarrow> 'r \<Rightarrow> bool \<times> 'r) \<Rightarrow> 'r \<Rightarrow> json \<Rightarrow> bool \<times> 'r" where
  [go_defs]: "decode_one name store zero v = decode_struct [name] (\<lambda>_. store) v zero"

definition json_strs :: "string list \<Rightarrow> json" where
  [go_defs]: "json_strs ks = JArr (map JStr ks)"

end
