(* ===== verification/Base64.thy ===== *)
theory Base64
  imports Codec
begin

text \<open>
  Base64 as the repository uses it: \<^verbatim>\<open>base64.RawURLEncoding\<close> (URL alphabet, no padding)
  for the names the SDK sends (\<^verbatim>\<open>sdk/go/encoding.go\<close>) and for JWKS numbers, and
  \<^verbatim>\<open>base64.StdEncoding\<close> (padded) for keys read from the environment.  Decoding skips
  CR and LF and ignores trailing bits, as Go's non-strict decoders do.
\<close>

section \<open>Six-bit digits\<close>

definition url_alphabet :: string where
  [go_defs]: "url_alphabet = ''ABCDEFGHIJKLMNOPQRSTUVWXYZabcdefghijklmnopqrstuvwxyz0123456789-_''"

definition std_alphabet :: string where
  [go_defs]: "std_alphabet = ''ABCDEFGHIJKLMNOPQRSTUVWXYZabcdefghijklmnopqrstuvwxyz0123456789+/''"

definition code :: "char \<Rightarrow> nat" where
  [go_defs]: "code c = of_char c"

definition byte :: "nat \<Rightarrow> char" where
  [go_defs]: "byte n = char_of n"

fun sextets :: "bytes \<Rightarrow> nat list" where
  "sextets (a # b # c # s) =
     [code a div 4, 16 * (code a mod 4) + code b div 16, 4 * (code b mod 16) + code c div 64, code c mod 64]
       @ sextets s"
| "sextets [a, b] = [code a div 4, 16 * (code a mod 4) + code b div 16, 4 * (code b mod 16)]"
| "sextets [a] = [code a div 4, 16 * (code a mod 4)]"
| "sextets [] = []"

fun unsextets :: "nat list \<Rightarrow> bytes option" where
  "unsextets (a # b # c # d # s) =
     (case unsextets s of
        None \<Rightarrow> None
      | Some t \<Rightarrow> Some (byte (4 * a + b div 16) # byte (16 * (b mod 16) + c div 4) # byte (64 * (c mod 4) + d) # t))"
| "unsextets [a, b, c] = Some [byte (4 * a + b div 16), byte (16 * (b mod 16) + c div 4)]"
| "unsextets [a, b] = Some [byte (4 * a + b div 16)]"
| "unsextets [a] = None"
| "unsextets [] = Some []"

definition digit_of :: "string \<Rightarrow> char \<Rightarrow> nat option" where
  [go_defs]: "digit_of alphabet c = index_byte c alphabet"

definition digits_of :: "string \<Rightarrow> string \<Rightarrow> nat list option" where
  [go_defs]: "digits_of alphabet s = those (map (digit_of alphabet) s)"

definition drop_newlines :: "string \<Rightarrow> string" where
  [go_defs]: "drop_newlines s = filter (\<lambda>c. c \<noteq> CHR 0x0A \<and> c \<noteq> CHR 0x0D) s"

section \<open>The two encodings\<close>

definition base64_url_encode :: "bytes \<Rightarrow> string" where
  [go_defs]: "base64_url_encode b = map (\<lambda>i. url_alphabet ! i) (sextets b)"

definition base64_url_decode :: "string \<Rightarrow> bytes option" where
  [go_defs]: "base64_url_decode s = Option.bind (digits_of url_alphabet (drop_newlines s)) unsextets"

text \<open>With padding, the last group is full or is completed by exactly the missing pads.\<close>

definition base64_std_decode :: "string \<Rightarrow> bytes option" where
  [go_defs]: "base64_std_decode s =
     (let t = drop_newlines s;
          body = takeWhile (\<lambda>c. c \<noteq> CHR ''='') t; pads = dropWhile (\<lambda>c. c \<noteq> CHR ''='') t;
          m = length body mod 4
      in if m = 0 \<and> pads = '''' \<or> m = 2 \<and> pads = ''=='' \<or> m = 3 \<and> pads = ''=''
         then Option.bind (digits_of std_alphabet body) unsextets else None)"

section \<open>Round trip\<close>

lemma code_byte [simp]: "byte (code c) = c"
  by (simp add: code_def byte_def)

lemma code_less [simp]: "code c < 256"
  by (simp add: code_def)

lemma sextet_bounds:
  fixes x y :: nat
  assumes "x < 256"
  shows "x div 4 < 64" "16 * (y mod 4) + x div 16 < 64" "4 * (y mod 16) + x div 64 < 64"
    "x mod 64 < 64" "4 * (y mod 16) < 64" "16 * (y mod 4) < 64"
proof -
  have "x div 4 < 64" "x div 16 < 16" "x div 64 < 4" using assms by simp_all
  moreover have "y mod 4 < 4" "y mod 16 < 16" "x mod 64 < 64" by simp_all
  ultimately show "x div 4 < 64" "16 * (y mod 4) + x div 16 < 64" "4 * (y mod 16) + x div 64 < 64"
    "x mod 64 < 64" "4 * (y mod 16) < 64" "16 * (y mod 4) < 64"
    by linarith+
qed

text \<open>Putting two neighbouring digits together gives back the byte they share.\<close>

lemma sextet_join:
  fixes x y z :: nat
  assumes "x < 256" "y < 256"
  shows "4 * (z div 4) + (16 * (z mod 4) + x div 16) div 16 = z"
    "16 * ((16 * (z mod 4) + x div 16) mod 16) + (4 * (x mod 16) + y div 64) div 4 = x"
    "64 * ((4 * (x mod 16) + y div 64) mod 4) + y mod 64 = y"
    "16 * ((16 * (z mod 4) + x div 16) mod 16) + 4 * (x mod 16) div 4 = x"
proof -
  have *: "x div 16 < 16" "y div 64 < 4" using assms by simp_all
  then have "(16 * (z mod 4) + x div 16) div 16 = z mod 4" "(16 * (z mod 4) + x div 16) mod 16 = x div 16"
    "(4 * (x mod 16) + y div 64) div 4 = x mod 16" "(4 * (x mod 16) + y div 64) mod 4 = y div 64"
    by simp_all
  then show "4 * (z div 4) + (16 * (z mod 4) + x div 16) div 16 = z"
    "16 * ((16 * (z mod 4) + x div 16) mod 16) + (4 * (x mod 16) + y div 64) div 4 = x"
    "64 * ((4 * (x mod 16) + y div 64) mod 4) + y mod 64 = y"
    "16 * ((16 * (z mod 4) + x div 16) mod 16) + 4 * (x mod 16) div 4 = x"
    by simp_all
qed

lemma sextets_less: "\<forall>i\<in>set (sextets b). i < 64"
  by (induction b rule: sextets.induct) (auto simp: sextet_bounds)

lemma unsextets_sextets: "unsextets (sextets b) = Some b"
proof (induction b rule: sextets.induct)
  case (1 a b c s)
  then show ?case
    by (simp only: sextets.simps append_Cons append_Nil unsextets.simps option.case
        sextet_join [OF code_less code_less] code_byte)
next
  case (2 a b)
  then show ?case
    by (simp only: sextets.simps unsextets.simps sextet_join [OF code_less code_less] code_byte)
next
  case (3 a)
  have "4 * (code a div 4) + 16 * (code a mod 4) div 16 = code a" by simp
  then show ?case by simp
qed simp

lemma index_byte_nth: "distinct s \<Longrightarrow> i < length s \<Longrightarrow> index_byte (s ! i) s = Some i"
  by (induction s arbitrary: i) (auto simp: nth_Cons split: nat.splits)

lemma url_alphabet_facts: "length url_alphabet = 64" "distinct url_alphabet"
  by code_simp+

lemma digits_of_map:
  "length al = 64 \<Longrightarrow> distinct al \<Longrightarrow> \<forall>i\<in>set is. i < 64 \<Longrightarrow>
     digits_of al (map (\<lambda>i. al ! i) is) = Some is"
  unfolding digits_of_def
  by (induction "is") (auto simp: digit_of_def index_byte_nth)

lemma url_alphabet_nth: "i < 64 \<Longrightarrow> url_alphabet ! i \<in> set url_alphabet"
  by (rule nth_mem) (simp add: url_alphabet_facts)

lemma base64_url_encode_chars: "set (base64_url_encode b) \<subseteq> set url_alphabet"
  using sextets_less [of b] by (auto simp: base64_url_encode_def url_alphabet_nth)

lemma drop_newlines_id: "set s \<subseteq> set url_alphabet \<Longrightarrow> drop_newlines s = s"
proof -
  assume s: "set s \<subseteq> set url_alphabet"
  have "CHR 0x0A \<notin> set url_alphabet" "CHR 0x0D \<notin> set url_alphabet" by code_simp+
  with s show ?thesis by (auto simp: drop_newlines_def filter_id_conv)
qed

interpretation url64: codec base64_url_encode base64_url_decode "\<lambda>_. True"
proof
  fix b
  have "digits_of url_alphabet (base64_url_encode b) = Some (sextets b)"
    unfolding base64_url_encode_def
    by (rule digits_of_map) (simp_all add: url_alphabet_facts sextets_less)
  then show "base64_url_decode (base64_url_encode b) = Some b"
    by (simp add: base64_url_decode_def drop_newlines_id base64_url_encode_chars unsextets_sextets)
qed

section \<open>Padded encoding\<close>

text \<open>\<^verbatim>\<open>base64.StdEncoding\<close>, which encoding/json uses for a \<^verbatim>\<open>[]byte\<close> field.\<close>

definition base64_std_encode :: "bytes \<Rightarrow> string" where
  [go_defs]: "base64_std_encode b =
     map (\<lambda>i. std_alphabet ! i) (sextets b) @
     (if length b mod 3 = 1 then ''=='' else if length b mod 3 = 2 then ''='' else '''')"

lemma std_alphabet_facts: "length std_alphabet = 64" "distinct std_alphabet"
  "CHR ''='' \<notin> set std_alphabet" "CHR 0x0A \<notin> set std_alphabet" "CHR 0x0D \<notin> set std_alphabet"
  by code_simp+

lemma length_sextets:
  "length (sextets b) mod 4 = (if length b mod 3 = 0 then 0 else length b mod 3 + 1)"
proof (induction b rule: sextets.induct)
  case (1 a b c s)
  have "length (sextets (a # b # c # s)) mod 4 = length (sextets s) mod 4" by simp
  moreover have "length (a # b # c # s) mod 3 = length s mod 3" by simp
  ultimately show ?case using 1 by presburger
qed simp_all

interpretation std64: codec base64_std_encode base64_std_decode "\<lambda>_. True"
proof
  fix b
  let ?body = "map (\<lambda>i. std_alphabet ! i) (sextets b)"
  let ?pads = "if length b mod 3 = 1 then ''=='' else if length b mod 3 = 2 then ''='' else ''''"
  have chars: "c \<noteq> CHR ''='' \<and> c \<noteq> CHR 0x0A \<and> c \<noteq> CHR 0x0D" if "c \<in> set ?body" for c
  proof -
    from that sextets_less [of b] obtain i where "c = std_alphabet ! i" "i < 64" by auto
    then have "c \<in> set std_alphabet" by (simp add: std_alphabet_facts)
    with std_alphabet_facts show ?thesis by auto
  qed
  have nl: "drop_newlines (?body @ ?pads) = ?body @ ?pads"
    using chars by (auto simp: drop_newlines_def filter_id_conv)
  have tw: "takeWhile (\<lambda>c. c \<noteq> CHR ''='') (?body @ ?pads) = ?body"
    "dropWhile (\<lambda>c. c \<noteq> CHR ''='') (?body @ ?pads) = ?pads"
    using chars by (auto simp: takeWhile_append dropWhile_append)
  have dig: "digits_of std_alphabet ?body = Some (sextets b)"
    by (rule digits_of_map) (simp_all add: std_alphabet_facts sextets_less)
  have "length ?body mod 4 = 0 \<and> ?pads = '''' \<or> length ?body mod 4 = 2 \<and> ?pads = ''=='' \<or>
      length ?body mod 4 = 3 \<and> ?pads = ''=''"
  proof -
    have "length b mod 3 < 3" by simp
    then consider "length b mod 3 = 0" | "length b mod 3 = 1" | "length b mod 3 = 2" by linarith
    then show ?thesis using length_sextets [of b] by cases simp_all
  qed
  then show "base64_std_decode (base64_std_encode b) = Some b"
    unfolding base64_std_decode_def base64_std_encode_def Let_def nl tw
    by (simp only: if_True dig Option.bind.bind_lunit unsextets_sextets)
qed

end
