(* ===== verification/Jwks.thy ===== *)
theory Jwks
  imports Http Base64 "HOL-Library.AList"
begin

text \<open>
  The signing-key cache (\<^verbatim>\<open>jwks.go\<close>): keys fetched from the configured URL are
  trusted for fifteen minutes; a miss or an expired cache refetches; any failure leaves the
  cache as it was and resolves nothing.  The HTTP fetch is a parameter giving, for a time and a
  URL, a transport error or a status with the JSON document: what the provider serves may
  change from one fetch to the next.  Times are nanoseconds since 1970; the two
  critical sections of \<^verbatim>\<open>resolve\<close> read the same clock value here, so the
  double check of the cache coincides with the first one for a single caller.
\<close>

record rsa_key =
  rk_n :: nat
  rk_e :: int

record jwk =
  k_kty :: string
  k_kid :: string
  k_use :: string
  k_n :: string
  k_e :: string

record jwks_cache =
  jc_url :: string
  jc_keys :: "(string \<times> rsa_key) list"
  jc_expiry :: int

type_synonym fetcher = "int \<Rightarrow> string \<Rightarrow> string + nat \<times> json option"

definition jwks_cache_ttl :: int where
  [go_defs]: "jwks_cache_ttl = 15 * 60 * 1000000000"

definition new_jwks_cache :: "string \<Rightarrow> jwks_cache" where
  [go_defs]: "new_jwks_cache url = \<lparr>jc_url = url, jc_keys = [], jc_expiry = zero_time\<rparr>"

section \<open>Reading the document\<close>

definition parse_jwks_rsa_public_key :: "string \<Rightarrow> string \<Rightarrow> rsa_key option" where
  [go_defs]: "parse_jwks_rsa_public_key n_b64 e_b64 =
     (case base64_url_decode n_b64 of
        None \<Rightarrow> None
      | Some n_bytes \<Rightarrow>
          (case base64_url_decode e_b64 of
             None \<Rightarrow> None
           | Some e_bytes \<Rightarrow>
               let n = be_val n_bytes; e = be_val e_bytes in
               if \<not> e < 2 ^ 63 then None else Some \<lparr>rk_n = n, rk_e = int e\<rparr>))"

definition store_jwk :: "string \<Rightarrow> json \<Rightarrow> jwk \<Rightarrow> bool \<times> jwk" where
  [go_defs]: "store_jwk f v k =
     (if f = ''kty'' then store_str v (\<lambda>s. k\<lparr>k_kty := s\<rparr>) k
      else if f = ''kid'' then store_str v (\<lambda>s. k\<lparr>k_kid := s\<rparr>) k
      else if f = ''use'' then store_str v (\<lambda>s. k\<lparr>k_use := s\<rparr>) k
      else if f = ''n'' then store_str v (\<lambda>s. k\<lparr>k_n := s\<rparr>) k
      else store_str v (\<lambda>s. k\<lparr>k_e := s\<rparr>) k)"

definition empty_jwk :: jwk where
  [go_defs]: "empty_jwk = \<lparr>k_kty = '''', k_kid = '''', k_use = '''', k_n = '''', k_e = ''''\<rparr>"

definition decode_jwk :: "json \<Rightarrow> bool \<times> jwk" where
  [go_defs]: "decode_jwk v = decode_struct [''kty'', ''kid'', ''use'', ''n'', ''e''] store_jwk v empty_jwk"

definition store_keys :: "string \<Rightarrow> json \<Rightarrow> jwk list \<Rightarrow> bool \<times> jwk list" where
  [go_defs]: "store_keys f v ks =
     (case v of
        JNull \<Rightarrow> (True, [])
      | JArr vs \<Rightarrow> (list_all (\<lambda>v. fst (decode_jwk v)) vs, map (\<lambda>v. snd (decode_jwk v)) vs)
      | _ \<Rightarrow> (False, ks))"

definition decode_jwks :: "json \<Rightarrow> jwk list option" where
  [go_defs]: "decode_jwks doc =
     (case decode_struct [''keys''] store_keys doc [] of (ok, ks) \<Rightarrow> if ok then Some ks else None)"

text \<open>The loop over the document's keys: unusable entries are skipped, a repeated kid overwrites.\<close>

fun usable_keys :: "jwk list \<Rightarrow> (string \<times> rsa_key) list \<Rightarrow> (string \<times> rsa_key) list" where
  "usable_keys [] out = out"
| "usable_keys (k # ks) out =
     (if k_kty k \<noteq> ''RSA'' then usable_keys ks out
      else if k_use k \<noteq> '''' \<and> k_use k \<noteq> ''sig'' then usable_keys ks out
      else case parse_jwks_rsa_public_key (k_n k) (k_e k) of
             None \<Rightarrow> usable_keys ks out
           | Some pub \<Rightarrow> usable_keys ks (AList.update (k_kid k) pub out))"

section \<open>Refresh and resolve\<close>

definition refresh :: "fetcher \<Rightarrow> int \<Rightarrow> jwks_cache \<Rightarrow> string option \<times> jwks_cache" where
  [go_defs]: "refresh fetch now c =
     (if jc_url c = '''' then (Some ''jwks: IAM_KEYS_URL not configured'', c)
      else case fetch now (jc_url c) of
             Inl err \<Rightarrow> (Some (''jwks: GET '' @ jc_url c @ '': '' @ err), c)
           | Inr (status, body) \<Rightarrow>
               if status \<noteq> 200 then (Some (''jwks: '' @ jc_url c @ '' returned '' @ dec_nat status), c)
               else case Option.bind body decode_jwks of
                      None \<Rightarrow> (Some ''jwks: decode'', c)
                    | Some doc \<Rightarrow>
                        let out = usable_keys doc [] in
                        if out = [] then (Some ''jwks: no usable RSA signing keys'', c)
                        else (None, c\<lparr>jc_keys := out, jc_expiry := now + jwks_cache_ttl\<rparr>))"

definition cached_key :: "int \<Rightarrow> string \<Rightarrow> jwks_cache \<Rightarrow> rsa_key option" where
  [go_defs]: "cached_key now kid c = (if now < jc_expiry c then map_of (jc_keys c) kid else None)"

definition resolve :: "fetcher \<Rightarrow> int \<Rightarrow> string \<Rightarrow> jwks_cache \<Rightarrow> (string + rsa_key) \<times> jwks_cache" where
  [go_defs]: "resolve fetch now kid c =
     (if kid = '''' then (Inl ''jwks: JWT missing kid header'', c)
      else case cached_key now kid c of
             Some k \<Rightarrow> (Inr k, c)
           | None \<Rightarrow>
               (case cached_key now kid c of
                  Some k \<Rightarrow> (Inr k, c)
                | None \<Rightarrow>
                    (case refresh fetch now c of
                       (Some err, c') \<Rightarrow> (Inl err, c')
                     | (None, c') \<Rightarrow>
                         (case map_of (jc_keys c') kid of
                            None \<Rightarrow> (Inl (''jwks: kid '' @ kid @ '' not found in keyset''), c')
                          | Some k \<Rightarrow> (Inr k, c')))))"

section \<open>Facts\<close>

text \<open>What may be in the cache: RSA signature keys of a document the URL served.\<close>

definition key_from :: "jwk list \<Rightarrow> string \<Rightarrow> rsa_key \<Rightarrow> bool" where
  "key_from doc kid pub \<longleftrightarrow>
     (\<exists>k\<in>set doc. k_kid k = kid \<and> k_kty k = ''RSA'' \<and> k_use k \<in> {'''', ''sig''} \<and>
        parse_jwks_rsa_public_key (k_n k) (k_e k) = Some pub)"

lemma usable_keys_from:
  "map_of (usable_keys ks out) kid = Some pub \<Longrightarrow> map_of out kid = Some pub \<or> key_from ks kid pub"
  by (induction ks out rule: usable_keys.induct)
    (auto simp: key_from_def update_conv' split: if_splits option.splits)

lemma refresh_err: "refresh fetch now c = (Some err, c') \<Longrightarrow> c' = c"
  by (auto simp: refresh_def Let_def split: if_splits sum.splits option.splits)

lemma refresh_ok:
  assumes "refresh fetch now c = (None, c')"
  shows "jc_url c' = jc_url c" "jc_expiry c' = now + jwks_cache_ttl" "jc_keys c' \<noteq> []"
    "\<exists>body doc. fetch now (jc_url c) = Inr (200, Some body) \<and> decode_jwks body = Some doc \<and>
       jc_keys c' = usable_keys doc []"
  using assms
  by (auto simp: refresh_def Let_def bind_eq_Some_conv split: if_splits sum.splits option.splits)

lemma refresh_url: "refresh fetch now c = (r, c') \<Longrightarrow> jc_url c' = jc_url c"
  by (cases r) (auto dest: refresh_ok(1) refresh_err)

lemma resolve_url: "jc_url (snd (resolve fetch now kid c)) = jc_url c"
  by (auto simp: resolve_def split: option.split prod.split dest: refresh_url)

lemma resolve_hit:
  "kid \<noteq> '''' \<Longrightarrow> cached_key now kid c = Some k \<Longrightarrow> resolve fetch now kid c = (Inr k, c)"
  by (simp add: resolve_def)

lemma resolve_miss:
  "kid \<noteq> '''' \<Longrightarrow> cached_key now kid c = None \<Longrightarrow>
     resolve fetch now kid c =
       (case refresh fetch now c of
          (Some err, c') \<Rightarrow> (Inl err, c')
        | (None, c') \<Rightarrow>
            (case map_of (jc_keys c') kid of
               None \<Rightarrow> (Inl (''jwks: kid '' @ kid @ '' not found in keyset''), c')
             | Some k \<Rightarrow> (Inr k, c')))"
  by (simp add: resolve_def)

lemma resolve_Inr:
  assumes "resolve fetch now kid c = (Inr k, c')"
  shows "kid \<noteq> '''' \<and> now < jc_expiry c' \<and> map_of (jc_keys c') kid = Some k"
proof (cases "cached_key now kid c")
  case None
  with assms show ?thesis
    by (auto simp: resolve_def jwks_cache_ttl_def dest!: refresh_ok(2)
        split: if_splits option.splits prod.splits)
next
  case (Some k)
  with assms show ?thesis
    by (auto simp: resolve_def cached_key_def split: if_splits)
qed

text \<open>
  The cache invariant over its life: each key came from the document that the cache's URL
  served at the last refresh, one time to live before the expiry, and that refresh is not in
  the future.
\<close>

definition served_at :: "fetcher \<Rightarrow> string \<Rightarrow> int \<Rightarrow> string \<Rightarrow> rsa_key \<Rightarrow> bool" where
  "served_at fetch url t kid pub \<longleftrightarrow>
     (\<exists>body doc. fetch t url = Inr (200, Some body) \<and> decode_jwks body = Some doc \<and> key_from doc kid pub)"

definition cache_inv :: "fetcher \<Rightarrow> int \<Rightarrow> jwks_cache \<Rightarrow> bool" where
  "cache_inv fetch now c \<longleftrightarrow>
     jc_expiry c \<le> now + jwks_cache_ttl \<and>
     (\<forall>kid pub. map_of (jc_keys c) kid = Some pub \<longrightarrow>
        served_at fetch (jc_url c) (jc_expiry c - jwks_cache_ttl) kid pub)"

lemma cache_inv_new: "0 \<le> now \<Longrightarrow> cache_inv fetch now (new_jwks_cache url)"
  by (simp add: cache_inv_def new_jwks_cache_def zero_time_def jwks_cache_ttl_def)

lemma cache_inv_later: "cache_inv fetch now c \<Longrightarrow> now \<le> now' \<Longrightarrow> cache_inv fetch now' c"
  by (auto simp: cache_inv_def)

lemma cache_inv_refresh:
  assumes "cache_inv fetch now c" "refresh fetch now c = (r, c')"
  shows "cache_inv fetch now c'"
proof (cases r)
  case None
  from refresh_ok [OF assms(2) [unfolded None]] show ?thesis
    by (auto simp: cache_inv_def served_at_def dest!: usable_keys_from)
next
  case (Some err)
  with assms show ?thesis by (auto dest: refresh_err)
qed

lemma cache_inv_resolve:
  assumes "cache_inv fetch now c" "resolve fetch now kid c = (r, c')"
  shows "cache_inv fetch now c'"
  using assms cache_inv_refresh [OF assms(1)]
  by (auto simp: resolve_def split: if_splits option.splits prod.splits)

text \<open>A key that resolves was served less than one time to live ago.\<close>

lemma resolved_key_served:
  assumes "cache_inv fetch now c" "map_of (jc_keys c) kid = Some key" "now < jc_expiry c"
  shows "\<exists>t. now - jwks_cache_ttl < t \<and> t \<le> now \<and> served_at fetch (jc_url c) t kid key"
  by (rule exI [of _ "jc_expiry c - jwks_cache_ttl"]) (use assms in \<open>auto simp: cache_inv_def\<close>)

end
