(* ===== verification/Auth.thy ===== *)
theory Auth
  imports Jwks
begin

text \<open>
  Bearer-token verification and authorization (\<^verbatim>\<open>auth.go\<close>, and the authorization part
  of \<^verbatim>\<open>embed.go\<close>).  The JWT library is third-party: its \<^verbatim>\<open>Parser.Parse\<close> is a
  parameter that takes the allowed algorithms, the token text, the clock and the key callback
  (which reads and refreshes the key cache).  The locale \<open>jwt_library\<close> states what its
  documentation promises of a successful parse; \<open>date_of\<close> is its reading of a numeric date,
  in nanoseconds, where it has one (a fraction is read, too, and 0 is no date).
\<close>

section \<open>Claims and configuration\<close>

record jwt_claims =
  cl_iss :: string
  cl_owner :: string
  cl_sub :: string
  cl_roles :: "string list"

definition no_claims :: jwt_claims where
  [go_defs]: "no_claims = \<lparr>cl_iss = '''', cl_owner = '''', cl_sub = '''', cl_roles = []\<rparr>"

record auth_cfg =
  ac_issuer :: string
  ac_audience :: string
  ac_jwks_url :: string

text \<open>The process-wide \<^verbatim>\<open>authConfig\<close>; \<^const>\<open>None\<close> is a nil pointer.\<close>

record auth_state =
  as_issuer :: "string option"
  as_audience :: "string option"
  as_jwks :: "jwks_cache option"

definition load_auth_config :: "environ \<Rightarrow> auth_cfg" where
  [go_defs]: "load_auth_config E =
     \<lparr>ac_issuer = trim_space (E ''IAM_ISSUER''),
      ac_audience = trim_space (E ''IAM_AUDIENCE''),
      ac_jwks_url = trim_space (E ''IAM_KEYS_URL'')\<rparr>"

definition apply_auth_config :: "auth_cfg \<Rightarrow> auth_state" where
  [go_defs]: "apply_auth_config v =
     \<lparr>as_issuer = Some (ac_issuer v), as_audience = Some (ac_audience v),
      as_jwks = (if ac_jwks_url v = '''' then None else Some (new_jwks_cache (ac_jwks_url v)))\<rparr>"

datatype auth_err =
    AuthNoHeader | AuthNotBearer | AuthNoConfig | AuthBadAlg | AuthBadSig | AuthWrongIss
  | AuthWrongAud | AuthExpired | AuthMissingSub | AuthMissingAud | AuthMissingExp | AuthMissingIss

section \<open>The JWT library\<close>

text \<open>A parsed token: the method's name (\<^const>\<open>None\<close> for a nil method), header and claims.\<close>

record jwt_token =
  tok_alg :: "string option"
  tok_header :: "(string \<times> json) list"
  tok_claims :: "(string \<times> json) list option"
  tok_valid :: bool

text \<open>The sentinels an error of the library wraps, and its message.\<close>

datatype jwt_sentinel =
    TokenExpired | TokenNotValidYet | TokenInvalidIssuer | TokenSignatureInvalid
  | SignatureInvalid | TokenUnverifiable | TokenMalformed | TokenInvalidClaims

record parse_err =
  pe_is :: "jwt_sentinel list"
  pe_msg :: string

type_synonym key_func = "jwt_token \<Rightarrow> jwks_cache \<Rightarrow> (string + rsa_key) \<times> jwks_cache"
type_synonym jwt_parser =
  "string list \<Rightarrow> string \<Rightarrow> int \<Rightarrow> key_func \<Rightarrow> jwks_cache \<Rightarrow> (parse_err + jwt_token) \<times> jwks_cache"

text \<open>
  \<open>sig_ok raw alg key\<close>: the signature of the token text verifies under that algorithm and
  key.  A numeric date is a number of seconds, held as a float64: exact for a whole number
  below 2^53.  The parser requires an expiry and allows no leeway.
\<close>

locale jwt_library =
  fixes parse :: jwt_parser
    and sig_ok :: "string \<Rightarrow> string \<Rightarrow> rsa_key \<Rightarrow> bool"
    and date_of :: "json \<Rightarrow> int option"
  assumes parse_sound: "parse allowed raw now kf c = (Inr tok, c') \<Longrightarrow>
      \<exists>alg key tok0. tok_alg tok = Some alg \<and> alg \<in> set allowed \<and>
        tok_alg tok0 = Some alg \<and> tok_header tok0 = tok_header tok \<and>
        kf tok0 c = (Inr key, c') \<and> sig_ok raw alg key"
    and parse_dates: "parse allowed raw now kf c = (Inr tok, c') \<Longrightarrow> tok_claims tok = Some cl \<Longrightarrow>
      (\<exists>v d. map_of cl ''exp'' = Some v \<and> date_of v = Some d \<and> now < d) \<and>
      (\<forall>v d. map_of cl ''nbf'' = Some v \<longrightarrow> date_of v = Some d \<longrightarrow> d \<le> now)"
    and date_exact: "s \<noteq> 0 \<Longrightarrow> \<bar>s\<bar> < 2 ^ 53 \<Longrightarrow> date_of (JInt s) = Some (s * 1000000000)"
    and parse_cache: "parse allowed raw now kf c = (r, c') \<Longrightarrow>
      c' = c \<or> (\<exists>tok. c' = snd (kf tok c))"

section \<open>Verification\<close>

definition bearer_prefix :: string where
  [go_defs]: "bearer_prefix = ''Bearer ''"

definition allowed_algs :: "string list" where
  [go_defs]: "allowed_algs =
     [''RS256'', ''RS384'', ''RS512'', ''ES256'', ''ES384'', ''ES512'', ''PS256'', ''PS384'', ''PS512'', ''EdDSA'']"

text \<open>The callback of \<^verbatim>\<open>parser.Parse\<close>: refuse "none", then look the key up by kid.\<close>

definition key_for :: "fetcher \<Rightarrow> int \<Rightarrow> key_func" where
  [go_defs]: "key_for fetch now tok c =
     (case tok_alg tok of
        None \<Rightarrow> (Inl ''jwt: unsupported signing algorithm'', c)
      | Some alg \<Rightarrow>
          if map lower_byte alg = ''none'' then (Inl ''jwt: unsupported signing algorithm'', c)
          else
            let kid = (case map_of (tok_header tok) ''kid'' of Some (JStr k) \<Rightarrow> k | _ \<Rightarrow> '''')
            in resolve fetch now kid c)"

definition wrap_auth_err :: "parse_err \<Rightarrow> auth_err" where
  [go_defs]: "wrap_auth_err err =
     (let is = set (pe_is err) in
      if TokenExpired \<in> is then AuthExpired
      else if TokenNotValidYet \<in> is then AuthExpired
      else if TokenInvalidIssuer \<in> is then AuthWrongIss
      else if TokenSignatureInvalid \<in> is then AuthBadSig
      else if SignatureInvalid \<in> is then AuthBadSig
      else if TokenUnverifiable \<in> is then AuthBadSig
      else if TokenMalformed \<in> is then AuthBadSig
      else if sublist ''unexpected signing method'' (pe_msg err) \<or>
              sublist ''signing method'' (pe_msg err) \<or> sublist ''alg'' (pe_msg err) then AuthBadAlg
      else if sublist ''jwks:'' (pe_msg err) \<or> sublist ''kid'' (pe_msg err) then AuthBadSig
      else AuthBadSig)"

definition check_issuer :: "string \<Rightarrow> string \<Rightarrow> auth_err option" where
  [go_defs]: "check_issuer got expected =
     (let got = trim_right_byte CHR ''/'' got in
      if list_ex (\<lambda>e. let s = trim_right_byte CHR ''/'' (trim_space e) in s \<noteq> '''' \<and> s = got)
           (go_split CHR '','' expected)
      then None else Some AuthWrongIss)"

text \<open>The set of audiences the configuration wants.\<close>

definition wanted :: "string \<Rightarrow> string list" where
  [go_defs]: "wanted expected = filter (\<lambda>s. s \<noteq> '''') (map trim_space (go_split CHR '','' expected))"

definition check_audience :: "(string \<times> json) list \<Rightarrow> string \<Rightarrow> auth_err option" where
  [go_defs]: "check_audience mc expected =
     (case map_of mc ''aud'' of
        None \<Rightarrow> Some AuthMissingAud
      | Some raw \<Rightarrow>
          let want = wanted expected in
          if want = [] then Some AuthWrongAud
          else case raw of
                 JStr aud \<Rightarrow> if aud \<in> set want then None else Some AuthWrongAud
               | JArr vs \<Rightarrow>
                   if list_ex (\<lambda>v. case v of JStr s \<Rightarrow> s \<in> set want | _ \<Rightarrow> False) vs
                   then None else Some AuthWrongAud
               | _ \<Rightarrow> Some AuthWrongAud)"

text \<open>\<^verbatim>\<open>numericClaim\<close>'s flag; decoded claims hold every JSON number as a float64.\<close>

definition numeric_claim :: "(string \<times> json) list \<Rightarrow> string \<Rightarrow> bool" where
  [go_defs]: "numeric_claim mc k = (case map_of mc k of Some (JInt _) \<Rightarrow> True | Some (JFrac _) \<Rightarrow> True | _ \<Rightarrow> False)"

definition string_claim :: "(string \<times> json) list \<Rightarrow> string \<Rightarrow> string" where
  [go_defs]: "string_claim mc k = (case map_of mc k of Some (JStr s) \<Rightarrow> s | _ \<Rightarrow> '''')"

definition roles_claim :: "(string \<times> json) list \<Rightarrow> string list" where
  [go_defs]: "roles_claim mc =
     (case map_of mc ''roles'' of
        Some (JStr v) \<Rightarrow> filter (\<lambda>s. s \<noteq> '''') (map trim_space (go_split CHR '','' v))
      | Some (JArr vs) \<Rightarrow>
          filter (\<lambda>s. s \<noteq> '''')
            (List.map_filter (\<lambda>v. case v of JStr s \<Rightarrow> Some (trim_space s) | _ \<Rightarrow> None) vs)
      | _ \<Rightarrow> [])"

text \<open>The checks after the parse, on the token's claims.\<close>

definition verify_claims :: "string \<Rightarrow> string option \<Rightarrow> (string \<times> json) list \<Rightarrow> auth_err + jwt_claims" where
  [go_defs]: "verify_claims iss aud mc =
     (let got_iss = string_claim mc ''iss'' in
      if got_iss = '''' then Inl AuthMissingIss
      else case check_issuer got_iss iss of
        Some err \<Rightarrow> Inl err
      | None \<Rightarrow>
          let expected_aud = (case aud of Some a \<Rightarrow> if a \<noteq> '''' then a else ''kms'' | None \<Rightarrow> ''kms'') in
          (case check_audience mc expected_aud of
             Some err \<Rightarrow> Inl err
           | None \<Rightarrow>
               if \<not> numeric_claim mc ''exp'' then Inl AuthMissingExp
               else
                 let sub0 = string_claim mc ''sub'';
                     sub = (if sub0 = '''' then string_claim mc ''id'' else sub0) in
                 if sub = '''' then Inl AuthMissingSub
                 else Inr \<lparr>cl_iss = got_iss, cl_owner = string_claim mc ''owner'',
                           cl_sub = sub, cl_roles = roles_claim mc\<rparr>))"

text \<open>The token text of the header, or why there is none.\<close>

definition bearer_token :: "string \<Rightarrow> auth_err + string" where
  [go_defs]: "bearer_token auth_header =
     (if auth_header = '''' then Inl AuthNoHeader
      else if \<not> prefix bearer_prefix auth_header \<and> \<not> prefix ''bearer '' auth_header then Inl AuthNotBearer
      else
        let tok = trim_space (drop (length bearer_prefix) auth_header) in
        if tok = '''' then Inl AuthNotBearer else Inr tok)"

definition verify_jwt ::
    "jwt_parser \<Rightarrow> fetcher \<Rightarrow> int \<Rightarrow> string \<Rightarrow> auth_state \<Rightarrow> (auth_err + jwt_claims) \<times> auth_state" where
  [go_defs]: "verify_jwt parse fetch now auth_header st =
     (case bearer_token auth_header of
        Inl err \<Rightarrow> (Inl err, st)
      | Inr tok_str \<Rightarrow>
          (case (as_issuer st, as_jwks st) of
             (Some iss, Some cache) \<Rightarrow>
               if iss = '''' then (Inl AuthNoConfig, st)
               else
                 (case parse allowed_algs tok_str now (key_for fetch now) cache of
                    (Inl err, cache') \<Rightarrow> (Inl (wrap_auth_err err), st\<lparr>as_jwks := Some cache'\<rparr>)
                  | (Inr tok, cache') \<Rightarrow>
                      (if \<not> tok_valid tok then Inl AuthBadSig
                       else case tok_claims tok of
                              None \<Rightarrow> Inl AuthBadSig
                            | Some mc \<Rightarrow> verify_claims iss (as_audience st) mc,
                       st\<lparr>as_jwks := Some cache'\<rparr>))
           | _ \<Rightarrow> (Inl AuthNoConfig, st)))"

definition auth_fail_reason :: "auth_err \<Rightarrow> string" where
  [go_defs]: "auth_fail_reason err =
     (case err of
        AuthNoHeader \<Rightarrow> ''no_bearer'' | AuthNotBearer \<Rightarrow> ''no_bearer''
      | AuthNoConfig \<Rightarrow> ''misconfigured''
      | AuthBadAlg \<Rightarrow> ''alg_not_allowed''
      | AuthBadSig \<Rightarrow> ''sig_invalid''
      | AuthExpired \<Rightarrow> ''expired''
      | AuthWrongIss \<Rightarrow> ''wrong_iss'' | AuthMissingIss \<Rightarrow> ''wrong_iss''
      | AuthWrongAud \<Rightarrow> ''wrong_aud'' | AuthMissingAud \<Rightarrow> ''wrong_aud''
      | AuthMissingExp \<Rightarrow> ''missing_exp''
      | AuthMissingSub \<Rightarrow> ''missing_sub'')"

definition peer_ip :: "request \<Rightarrow> string" where
  [go_defs]: "peer_ip r =
     (let xff = header_get (rq_headers r) ''X-Forwarded-For'' in
      if xff \<noteq> '''' then
        (case index_byte CHR '','' xff of
           Some i \<Rightarrow> trim_space (take i xff)
         | None \<Rightarrow> trim_space xff)
      else rq_remote r)"

section \<open>Authorization\<close>

definition is_admin :: "jwt_claims \<Rightarrow> bool" where
  [go_defs]: "is_admin c \<longleftrightarrow>
     list_ex (\<lambda>r. to_lower (trim_space r) \<in> {''superadmin'', ''kms-admin'', ''admin''}) (cl_roles c)"

definition can_act_on_org :: "jwt_claims \<Rightarrow> string \<Rightarrow> bool" where
  [go_defs]: "can_act_on_org c org =
     (if is_admin c then True else cl_owner c \<noteq> '''' \<and> org \<noteq> '''' \<and> cl_owner c = org)"

section \<open>What a verified token guarantees\<close>

lemma check_issuer_None:
  "check_issuer got expected = None \<longleftrightarrow>
     (\<exists>e\<in>set (go_split CHR '','' expected).
        trim_right_byte CHR ''/'' (trim_space e) \<noteq> '''' \<and>
        trim_right_byte CHR ''/'' (trim_space e) = trim_right_byte CHR ''/'' got)"
  by (auto simp: check_issuer_def list_ex_iff Let_def)

lemma string_claim_Some:
  "string_claim mc k \<noteq> '''' \<Longrightarrow> map_of mc k = Some (JStr (string_claim mc k))"
  by (auto simp: string_claim_def split: option.splits json.splits)

lemma check_audience_None:
  assumes "check_audience mc expected = None"
  shows "\<exists>a\<in>set (wanted expected). map_of mc ''aud'' = Some (JStr a) \<or>
           (\<exists>vs. map_of mc ''aud'' = Some (JArr vs) \<and> JStr a \<in> set vs)"
proof -
  from assms obtain raw where raw: "map_of mc ''aud'' = Some raw"
    by (auto simp: check_audience_def split: option.splits)
  show ?thesis
  proof (cases raw)
    case (JStr a)
    with assms raw show ?thesis by (auto simp: check_audience_def Let_def split: if_splits)
  next
    case (JArr vs)
    with assms raw have "list_ex (\<lambda>v. case v of JStr s \<Rightarrow> s \<in> set (wanted expected) | _ \<Rightarrow> False) vs"
      by (auto simp: check_audience_def Let_def split: if_splits)
    then obtain v where v: "v \<in> set vs" "case v of JStr s \<Rightarrow> s \<in> set (wanted expected) | _ \<Rightarrow> False"
      by (auto simp: list_ex_iff)
    then obtain a where "v = JStr a" "a \<in> set (wanted expected)"
      by (auto split: json.split_asm)
    with v raw JArr show ?thesis by blast
  qed (use assms raw in \<open>auto simp: check_audience_def Let_def split: if_splits\<close>)
qed

text \<open>The token is meant for one of the configured audiences, or for \<^verbatim>\<open>kms\<close> when none is configured.\<close>

definition audience_of :: "auth_state \<Rightarrow> string" where
  "audience_of st = (case as_audience st of Some a \<Rightarrow> if a \<noteq> '''' then a else ''kms'' | None \<Rightarrow> ''kms'')"

definition meant_for :: "string \<Rightarrow> (string \<times> json) list \<Rightarrow> bool" where
  "meant_for expected mc \<longleftrightarrow>
     (\<exists>e\<in>set (go_split CHR '','' expected). trim_space e \<noteq> '''' \<and>
        (map_of mc ''aud'' = Some (JStr (trim_space e)) \<or>
         (\<exists>vs. map_of mc ''aud'' = Some (JArr vs) \<and> JStr (trim_space e) \<in> set vs)))"

text \<open>
  The token's issuer is one of the comma-separated configured issuers, up to surrounding
  space and trailing slashes.
\<close>

definition issued_by :: "string \<Rightarrow> string \<Rightarrow> bool" where
  "issued_by expected iss \<longleftrightarrow>
     (\<exists>e\<in>set (go_split CHR '','' expected).
        trim_right_byte CHR ''/'' (trim_space e) \<noteq> '''' \<and>
        trim_right_byte CHR ''/'' iss = trim_right_byte CHR ''/'' (trim_space e))"

lemma check_issuer_issued_by: "check_issuer iss expected = None \<Longrightarrow> issued_by expected iss"
  by (auto simp: check_issuer_None issued_by_def)

lemma check_audience_meant_for: "check_audience mc expected = None \<Longrightarrow> meant_for expected mc"
  by (drule check_audience_None) (auto simp: meant_for_def wanted_def)

lemma verify_claims_Inr:
  assumes "verify_claims iss aud mc = Inr c"
  shows "cl_iss c \<noteq> ''''" "map_of mc ''iss'' = Some (JStr (cl_iss c))"
    "check_issuer (cl_iss c) iss = None"
    "check_audience mc (case aud of Some a \<Rightarrow> if a \<noteq> '''' then a else ''kms'' | None \<Rightarrow> ''kms'') = None"
    "numeric_claim mc ''exp''" "cl_sub c \<noteq> ''''"
    "cl_owner c = string_claim mc ''owner''" "cl_roles c = roles_claim mc"
proof -
  have iss: "string_claim mc ''iss'' \<noteq> ''''"
    using assms by (rule_tac notI) (simp add: verify_claims_def)
  show "check_issuer (cl_iss c) iss = None" "cl_iss c \<noteq> ''''"
    "check_audience mc (case aud of Some a \<Rightarrow> if a \<noteq> '''' then a else ''kms'' | None \<Rightarrow> ''kms'') = None"
    "numeric_claim mc ''exp''" "cl_sub c \<noteq> ''''"
    "cl_owner c = string_claim mc ''owner''" "cl_roles c = roles_claim mc"
    using assms iss unfolding verify_claims_def Let_def
    by (simp_all split: option.split_asm if_split_asm)
       (auto simp: iss)
  have "cl_iss c = string_claim mc ''iss''"
    using assms iss unfolding verify_claims_def Let_def
    by (auto split: option.split_asm if_split_asm)
  with string_claim_Some [OF iss] show "map_of mc ''iss'' = Some (JStr (cl_iss c))" by simp
qed

text \<open>The library read the token \<open>tok\<close> off the text \<open>raw\<close>.\<close>

definition parsed_as :: "jwt_parser \<Rightarrow> string \<Rightarrow> int \<Rightarrow> jwt_token \<Rightarrow> bool" where
  "parsed_as parse raw now tok \<longleftrightarrow> (\<exists>allowed kf c. fst (parse allowed raw now kf c) = Inr tok)"

text \<open>What holds of the token and the caches when verification succeeds.\<close>

definition token_ok ::
    "jwt_parser \<Rightarrow> fetcher \<Rightarrow> int \<Rightarrow> string \<Rightarrow> auth_state \<Rightarrow> auth_state \<Rightarrow> jwt_claims \<Rightarrow> jwt_token \<Rightarrow> bool" where
  "token_ok parse fetch now raw st st' c tok \<longleftrightarrow>
     (\<exists>iss cache cache' mc. as_issuer st = Some iss \<and> iss \<noteq> '''' \<and> as_jwks st = Some cache \<and>
        parse allowed_algs raw now (key_for fetch now) cache = (Inr tok, cache') \<and>
        st' = st\<lparr>as_jwks := Some cache'\<rparr> \<and> tok_valid tok \<and> tok_claims tok = Some mc \<and>
        verify_claims iss (as_audience st) mc = Inr c)"

lemma verify_jwt_Inr:
  assumes "verify_jwt parse fetch now h st = (Inr c, st')"
  obtains raw tok where "bearer_token h = Inr raw" "token_ok parse fetch now raw st st' c tok"
  using assms
  by (auto simp: verify_jwt_def token_ok_def split: sum.splits option.splits if_splits prod.splits)

lemma verify_jwt_frame:
  "verify_jwt parse fetch now h st = (r, st') \<Longrightarrow>
     as_issuer st' = as_issuer st \<and> as_audience st' = as_audience st"
  by (auto simp: verify_jwt_def split: sum.splits option.splits if_splits prod.splits)

lemma key_for_url: "jc_url (snd (key_for fetch now tok c)) = jc_url c"
  by (auto simp: key_for_def Let_def resolve_url split: option.split)

lemma key_for_cache_inv:
  "cache_inv fetch now c \<Longrightarrow> cache_inv fetch now (snd (key_for fetch now tok c))"
  by (auto simp: key_for_def Let_def intro: cache_inv_resolve [OF _ prod.collapse [symmetric]]
      split: option.splits)

context jwt_library
begin

lemma token_signed:
  assumes "token_ok parse fetch now raw st st' c tok"
  shows "\<exists>alg key kid cache. tok_alg tok = Some alg \<and> alg \<in> set allowed_algs \<and> sig_ok raw alg key \<and>
     map_of (tok_header tok) ''kid'' = Some (JStr kid) \<and> as_jwks st' = Some cache \<and>
     map_of (jc_keys cache) kid = Some key \<and> now < jc_expiry cache"
proof -
  from assms obtain cache cache' where
    "parse allowed_algs raw now (key_for fetch now) cache = (Inr tok, cache')"
    and st': "as_jwks st' = Some cache'"
    by (auto simp: token_ok_def)
  from parse_sound [OF this(1)] obtain alg key tok0 where
    a: "tok_alg tok = Some alg" "alg \<in> set allowed_algs" "sig_ok raw alg key"
    and kf: "tok_alg tok0 = Some alg" "tok_header tok0 = tok_header tok"
      "key_for fetch now tok0 cache = (Inr key, cache')"
    by blast
  from kf obtain kid where "(case map_of (tok_header tok) ''kid'' of Some (JStr k) \<Rightarrow> k | _ \<Rightarrow> '''') = kid"
    "resolve fetch now kid cache = (Inr key, cache')"
    by (auto simp: key_for_def Let_def split: if_splits)
  with resolve_Inr [OF this(2)] a st' show ?thesis
    by (fastforce split: option.splits json.splits)
qed

lemma token_dates:
  assumes "token_ok parse fetch now raw st st' c tok" "tok_claims tok = Some mc"
  shows "\<exists>v d. map_of mc ''exp'' = Some v \<and> date_of v = Some d \<and> now < d"
    and "map_of mc ''nbf'' = Some v \<longrightarrow> date_of v = Some d \<longrightarrow> d \<le> now"
  using assms parse_dates by (auto simp: token_ok_def)

lemma verify_jwt_cache_inv:
  assumes "verify_jwt parse fetch now h st = (r, st')" "as_jwks st = Some c" "cache_inv fetch now c"
  shows "\<exists>c'. as_jwks st' = Some c' \<and> cache_inv fetch now c'"
proof -
  have "cache_inv fetch now c'" if "parse al raw now (key_for fetch now) c = (x, c')" for al raw x c'
    using parse_cache [OF that] assms(3) key_for_cache_inv by auto
  with assms show ?thesis
    by (auto simp: verify_jwt_def split: sum.splits option.splits if_splits prod.splits)
qed

text \<open>What an accepted token has behind it.\<close>

lemma verify_jwt_evidence:
  assumes "verify_jwt parse fetch now h st = (Inr c, st')"
    and "as_jwks st = Some cache" "cache_inv fetch now cache"
  shows "\<exists>raw (tok :: jwt_token) alg kid key cache' t mc iss v d.
     bearer_token h = Inr raw \<and> parsed_as parse raw now tok \<and>
     tok_alg tok = Some alg \<and> alg \<in> set allowed_algs \<and> sig_ok raw alg key \<and>
     map_of (tok_header tok) ''kid'' = Some (JStr kid) \<and>
     as_jwks st' = Some cache' \<and> map_of (jc_keys cache') kid = Some key \<and> cache_inv fetch now cache' \<and>
     served_at fetch (jc_url cache') t kid key \<and> now - jwks_cache_ttl < t \<and> t \<le> now \<and>
     tok_claims tok = Some mc \<and> map_of mc ''iss'' = Some (JStr (cl_iss c)) \<and>
     as_issuer st = Some iss \<and> issued_by iss (cl_iss c) \<and>
     meant_for (audience_of st) mc \<and> map_of mc ''exp'' = Some v \<and> date_of v = Some d \<and> now < d \<and>
     cl_sub c \<noteq> '''' \<and> cl_owner c = string_claim mc ''owner'' \<and> cl_roles c = roles_claim mc"
proof -
  from verify_jwt_Inr [OF assms(1)] obtain raw tok where
    raw: "bearer_token h = Inr raw" and ok: "token_ok parse fetch now raw st st' c tok" .
  from ok obtain iss mc where iss: "as_issuer st = Some iss" and mc: "tok_claims tok = Some mc"
    and vc: "verify_claims iss (as_audience st) mc = Inr c" by (auto simp: token_ok_def)
  from ok have p: "parsed_as parse raw now tok" unfolding token_ok_def parsed_as_def by (metis fst_conv)
  from token_signed [OF ok] obtain alg key kid cache' where
    s: "tok_alg tok = Some alg" "alg \<in> set allowed_algs" "sig_ok raw alg key"
      "map_of (tok_header tok) ''kid'' = Some (JStr kid)" "as_jwks st' = Some cache'" "map_of (jc_keys cache') kid = Some key" "now < jc_expiry cache'"
    by blast
  from verify_jwt_cache_inv [OF assms] s(5) have inv: "cache_inv fetch now cache'" by simp
  from resolved_key_served [OF this s(6,7)] obtain t where
    t: "now - jwks_cache_ttl < t" "t \<le> now" "served_at fetch (jc_url cache') t kid key" by blast
  have aud: "meant_for (audience_of st) mc"
    using check_audience_meant_for [OF verify_claims_Inr(4) [OF vc]] by (simp only: audience_of_def)
  have by_iss: "issued_by iss (cl_iss c)" using check_issuer_issued_by [OF verify_claims_Inr(3) [OF vc]] .
  obtain v d where "map_of mc ''exp'' = Some v" "date_of v = Some d" "now < d"
    using token_dates(1) [OF ok mc] by blast
  with raw p s(1-6) inv t mc iss by_iss verify_claims_Inr(2,6,7,8) [OF vc] aud show ?thesis by blast
qed

end

section \<open>A concrete token table\<close>

text \<open>
  An instance of the library's promises: token texts stand for prepared tokens with their
  signers, and the dates are checked against the clock.
\<close>

definition table_date :: "json \<Rightarrow> int option" where
  [go_defs]: "table_date v = (case v of JInt s \<Rightarrow> if s = 0 then None else Some (s * 1000000000) | _ \<Rightarrow> None)"

definition date_ok :: "int \<Rightarrow> (string \<times> json) list \<Rightarrow> bool" where
  [go_defs]: "date_ok now cl \<longleftrightarrow>
     (case Option.bind (map_of cl ''exp'') table_date of Some d \<Rightarrow> now < d | None \<Rightarrow> False) \<and>
     (case Option.bind (map_of cl ''nbf'') table_date of Some d \<Rightarrow> d \<le> now | None \<Rightarrow> True)"

definition table_parse :: "(string \<times> jwt_token \<times> rsa_key) list \<Rightarrow> jwt_parser" where
  [go_defs]: "table_parse tbl allowed raw now kf c =
     (case map_of tbl raw of
        None \<Rightarrow> (Inl \<lparr>pe_is = [TokenMalformed], pe_msg = ''malformed''\<rparr>, c)
      | Some (tok, signer) \<Rightarrow>
          (case tok_alg tok of
             None \<Rightarrow> (Inl \<lparr>pe_is = [TokenUnverifiable], pe_msg = ''no method''\<rparr>, c)
           | Some alg \<Rightarrow>
               if alg \<notin> set allowed then (Inl \<lparr>pe_is = [TokenSignatureInvalid], pe_msg = ''alg''\<rparr>, c)
               else case kf tok c of
                 (Inl err, c') \<Rightarrow> (Inl \<lparr>pe_is = [TokenUnverifiable], pe_msg = err\<rparr>, c')
               | (Inr key, c') \<Rightarrow>
                   if key \<noteq> signer then (Inl \<lparr>pe_is = [TokenSignatureInvalid], pe_msg = ''sig''\<rparr>, c')
                   else if \<not> date_ok now (case tok_claims tok of None \<Rightarrow> [] | Some cl \<Rightarrow> cl)
                   then (Inl \<lparr>pe_is = [TokenExpired], pe_msg = ''exp''\<rparr>, c')
                   else (Inr (tok\<lparr>tok_valid := True\<rparr>), c')))"

definition table_sig :: "(string \<times> jwt_token \<times> rsa_key) list \<Rightarrow> string \<Rightarrow> string \<Rightarrow> rsa_key \<Rightarrow> bool" where
  [go_defs]: "table_sig tbl raw alg key \<longleftrightarrow>
     (case map_of tbl raw of None \<Rightarrow> False | Some (tok, signer) \<Rightarrow> tok_alg tok = Some alg \<and> signer = key)"

interpretation table: jwt_library "table_parse tbl" "table_sig tbl" table_date for tbl
proof
  fix allowed raw now kf c tok c' cl r
  show "\<exists>alg key tok0. tok_alg tok = Some alg \<and> alg \<in> set allowed \<and>
      tok_alg tok0 = Some alg \<and> tok_header tok0 = tok_header tok \<and>
      kf tok0 c = (Inr key, c') \<and> table_sig tbl raw alg key"
    if "table_parse tbl allowed raw now kf c = (Inr tok, c')"
    using that
    by (fastforce simp: table_parse_def table_sig_def split: option.splits if_splits prod.splits sum.splits)
  show "(\<exists>v d. map_of cl ''exp'' = Some v \<and> table_date v = Some d \<and> now < d) \<and>
      (\<forall>v d. map_of cl ''nbf'' = Some v \<longrightarrow> table_date v = Some d \<longrightarrow> d \<le> now)"
    if "table_parse tbl allowed raw now kf c = (Inr tok, c')" "tok_claims tok = Some cl"
    using that
    by (auto simp: table_parse_def date_ok_def bind_eq_Some_conv split: option.splits if_splits prod.splits sum.splits)
  show "table_date (JInt s) = Some (s * 1000000000)" if "s \<noteq> 0" "\<bar>s\<bar> < 2 ^ 53" for s
    using that by (simp add: table_date_def)
  show "c' = c \<or> (\<exists>tok. c' = snd (kf tok c))"
    if "table_parse tbl allowed raw now kf c = (r, c')"
    using that
    by (auto simp: table_parse_def split: option.splits if_splits prod.splits sum.splits) (metis snd_conv)+
qed

section \<open>Facts about authorization\<close>

lemma can_act_on_org_iff:
  "can_act_on_org c org \<longleftrightarrow> is_admin c \<or> (org \<noteq> '''' \<and> cl_owner c = org)"
  by (auto simp: can_act_on_org_def)

text \<open>The owner claim is never a privilege: without an admin role it grants its own org only.\<close>

lemma owner_is_not_admin:
  "cl_roles c = [] \<Longrightarrow> can_act_on_org c org \<longleftrightarrow> org \<noteq> '''' \<and> cl_owner c = org"
  by (simp add: can_act_on_org_iff is_admin_def)

lemma no_claims_powerless: "\<not> is_admin no_claims" "\<not> can_act_on_org no_claims org"
  by (auto simp: no_claims_def is_admin_def can_act_on_org_iff)

end
