(* ===== verification/Config.thy ===== *)
theory Config
  imports Auth Base64
begin

text \<open>
  Configuration at boot (\<^verbatim>\<open>embed.go\<close>, \<^verbatim>\<open>auth.go\<close>): the defaults of
  \<^verbatim>\<open>EmbedConfig\<close>, the two validations that make \<^verbatim>\<open>Embed\<close> refuse to start, the
  verification contract it then installs, and the keys it reads from the environment.
\<close>

section \<open>Defaults\<close>

record embed_config =
  data_dir :: string
  http_addr :: string
  iam_endpoint :: string
  jwks_url :: string
  jwt_key_source :: string
  zap_port :: int64
  node_id :: string
  cfg_env :: string
  expected_issuer :: string
  expected_audience :: string
  mpc_addr :: string
  mpc_vault_id :: string
  audit_db :: string
  skip_listen :: bool

text \<open>The port from the environment: \<^verbatim>\<open>KMS_ZAP_PORT\<close>, else \<^verbatim>\<open>KMS_ZAP\<close> without its colon.\<close>

definition env_zap_port :: "environ \<Rightarrow> int64" where
  [go_defs]: "env_zap_port E =
     (let v = env_or E ''KMS_ZAP_PORT'' (trim_prefix (env_or E ''KMS_ZAP'' '':9999'') '':'');
          p = (if v \<noteq> '''' then (case scan_int v of Some n \<Rightarrow> n | None \<Rightarrow> 0) else 0)
      in if p = 0 then 9999 else p)"

definition or_default :: "string \<Rightarrow> string \<Rightarrow> string" where
  [go_defs]: "or_default v d = (if v = '''' then d else v)"

definition apply_embed_defaults :: "environ \<Rightarrow> embed_config \<Rightarrow> embed_config" where
  [go_defs]: "apply_embed_defaults E cfg = cfg\<lparr>
     data_dir := or_default (data_dir cfg) (env_or E ''KMS_DATA_DIR'' ''/data/hanzo-kms''),
     http_addr := or_default (http_addr cfg) (env_or E ''KMS_LISTEN'' '':8443''),
     node_id := or_default (node_id cfg) (env_or E ''KMS_NODE_ID'' ''hanzo-kms-0''),
     cfg_env := or_default (cfg_env cfg) (env_or E ''KMS_ENV'' ''dev''),
     iam_endpoint := or_default (iam_endpoint cfg) (trim_space (E ''IAM_URL'')),
     expected_issuer := or_default (expected_issuer cfg) (trim_space (E ''IAM_ISSUER'')),
     expected_audience := or_default (expected_audience cfg) (trim_space (E ''IAM_AUDIENCE'')),
     jwks_url := (if jwks_url cfg = '''' \<and> jwt_key_source cfg = '''' then trim_space (E ''IAM_KEYS_URL'')
                  else jwks_url cfg),
     mpc_addr := or_default (mpc_addr cfg) (env_or E ''MPC_ADDR'' ''''),
     mpc_vault_id := or_default (mpc_vault_id cfg) (env_or E ''MPC_VAULT_ID'' ''''),
     audit_db := or_default (audit_db cfg) (env_or E ''KMS_AUDIT_DB'' ''/tmp/kms-aux.db''),
     zap_port := (if zap_port cfg = 0 then env_zap_port E else zap_port cfg)\<rparr>"

section \<open>Validation\<close>

datatype boot_err =
    IamUrlRequired | IamIssuerRequired | IamAudienceRequired | IamKeysUrlRequired
  | AuthIssuerRequired string | AuthAudienceRequired string | AuthKeysUrlRequired string
  | DataDirFailed | DbOpenFailed

definition validate_prod_config_at_boot :: "embed_config \<Rightarrow> boot_err option" where
  [go_defs]: "validate_prod_config_at_boot cfg =
     (if trim_space (iam_endpoint cfg) = '''' then Some IamUrlRequired
      else if trim_space (expected_issuer cfg) = '''' then Some IamIssuerRequired
      else if trim_space (expected_audience cfg) = '''' then Some IamAudienceRequired
      else
        let jwks0 = trim_space (jwks_url cfg);
            jwks = (if jwks0 = '''' then trim_space (jwt_key_source cfg) else jwks0)
        in if jwks = '''' then Some IamKeysUrlRequired else None)"

definition validate_auth_config_at_boot :: "string \<Rightarrow> string \<Rightarrow> string \<Rightarrow> string \<Rightarrow> boot_err option" where
  [go_defs]: "validate_auth_config_at_boot env issuer audience jwks =
     (if issuer = '''' then Some (AuthIssuerRequired env)
      else if audience = '''' then Some (AuthAudienceRequired env)
      else if jwks = '''' then Some (AuthKeysUrlRequired env)
      else None)"

text \<open>The verification contract of \<^verbatim>\<open>Embed\<close>, from the resolved configuration.\<close>

definition embed_auth :: "embed_config \<Rightarrow> auth_cfg" where
  [go_defs]: "embed_auth cfg =
     \<lparr>ac_issuer = expected_issuer cfg, ac_audience = expected_audience cfg,
      ac_jwks_url = or_default (jwt_key_source cfg) (jwks_url cfg)\<rparr>"

text \<open>The first part of \<^verbatim>\<open>Embed\<close>: defaults, both validations, then the live contract.\<close>

definition embed_configure :: "environ \<Rightarrow> embed_config \<Rightarrow> boot_err + embed_config \<times> auth_state" where
  [go_defs]: "embed_configure E cfg0 =
     (let cfg = apply_embed_defaults E cfg0 in
      case validate_prod_config_at_boot cfg of
        Some err \<Rightarrow> Inl err
      | None \<Rightarrow>
          let auth = embed_auth cfg in
          (case validate_auth_config_at_boot (cfg_env cfg) (ac_issuer auth) (ac_audience auth) (ac_jwks_url auth) of
             Some err \<Rightarrow> Inl err
           | None \<Rightarrow> Inr (cfg, apply_auth_config auth)))"

section \<open>Keys from the environment\<close>

definition master_key_from_env :: "environ \<Rightarrow> bytes option" where
  [go_defs]: "master_key_from_env E =
     (let b64 = E ''KMS_ENCRYPTION_KEY_B64'' in
      if b64 = '''' then None
      else case base64_std_decode b64 of
             None \<Rightarrow> None
           | Some key \<Rightarrow> if length key \<noteq> 32 then None else Some key)"

text \<open>
  What \<^verbatim>\<open>startZAPSecretServer\<close> does before it starts a node: \<open>authorizer\<close> is the
  outcome of \<^verbatim>\<open>buildConsensusAuthorizer\<close>, \<^const>\<open>None\<close> inside for "not configured".
  A malformed snapshot is fatal (\<^verbatim>\<open>log.Crit\<close>).
\<close>

datatype 'a zap_outcome = ZapDisabled | ZapFatal | ZapStart bytes 'a

definition zap_boot :: "environ \<Rightarrow> embed_config \<Rightarrow> ('e + 'a option) \<Rightarrow> 'a zap_outcome" where
  [go_defs]: "zap_boot E cfg authorizer =
     (let b64 = env_or E ''KMS_MASTER_KEY_B64'' '''' in
      if b64 = '''' \<or> sint (zap_port cfg) \<le> 0 then ZapDisabled
      else case base64_std_decode b64 of
             None \<Rightarrow> ZapDisabled
           | Some key \<Rightarrow>
               if length key \<noteq> 32 then ZapDisabled
               else case authorizer of
                      Inl _ \<Rightarrow> ZapFatal
                    | Inr None \<Rightarrow> ZapDisabled
                    | Inr (Some a) \<Rightarrow> ZapStart key a)"

section \<open>Facts\<close>

lemma or_default_neq: "d \<noteq> '''' \<Longrightarrow> or_default v d \<noteq> ''''"
  by (simp add: or_default_def)

lemma or_default_idem [simp]: "or_default (or_default v d) d = or_default v d"
  by (simp add: or_default_def)

lemma env_zap_port_neq [simp]: "env_zap_port E \<noteq> 0"
  by (simp add: env_zap_port_def Let_def)

lemma defaults_idem:
  "apply_embed_defaults E (apply_embed_defaults E cfg) = apply_embed_defaults E cfg"
  by (simp add: apply_embed_defaults_def)

lemma trim_space_neq: "trim_space s \<noteq> '''' \<Longrightarrow> s \<noteq> ''''"
  by auto

lemma prod_valid_auth_valid:
  assumes "validate_prod_config_at_boot cfg = None"
  shows "validate_auth_config_at_boot env (expected_issuer cfg) (expected_audience cfg)
           (or_default (jwt_key_source cfg) (jwks_url cfg)) = None"
  using assms
  by (auto simp: validate_prod_config_at_boot_def validate_auth_config_at_boot_def or_default_def Let_def
      split: if_splits)

lemma embed_configure_Inr:
  "embed_configure E cfg0 = Inr (cfg, st) \<longleftrightarrow>
     cfg = apply_embed_defaults E cfg0 \<and> validate_prod_config_at_boot cfg = None \<and>
     st = apply_auth_config (embed_auth cfg)"
  using prod_valid_auth_valid [of "apply_embed_defaults E cfg0"]
  by (auto simp: embed_configure_def Let_def embed_auth_def split: option.splits)

text \<open>Once booted, the live contract is complete.\<close>

lemma configured_auth:
  assumes "embed_configure E cfg0 = Inr (cfg, st)"
  shows "as_issuer st = Some (expected_issuer cfg)" "trim_space (expected_issuer cfg) \<noteq> ''''"
    "as_jwks st = Some (new_jwks_cache (ac_jwks_url (embed_auth cfg)))" "ac_jwks_url (embed_auth cfg) \<noteq> ''''"
proof -
  from assms have st: "st = apply_auth_config (embed_auth cfg)" and v: "validate_prod_config_at_boot cfg = None"
    unfolding embed_configure_Inr by blast+
  show "trim_space (expected_issuer cfg) \<noteq> ''''"
    using v unfolding validate_prod_config_at_boot_def by (auto split: if_splits)
  show url: "ac_jwks_url (embed_auth cfg) \<noteq> ''''"
    using prod_valid_auth_valid [OF v, of "''''"] by (simp add: validate_auth_config_at_boot_def embed_auth_def split: if_splits)
  with st show "as_issuer st = Some (expected_issuer cfg)" "as_jwks st = Some (new_jwks_cache (ac_jwks_url (embed_auth cfg)))"
    by (simp_all add: apply_auth_config_def) (simp add: embed_auth_def)
qed

lemma configured_audience:
  assumes "embed_configure E cfg0 = Inr (cfg, st)"
  shows "expected_audience cfg \<noteq> ''''"
proof -
  from assms have "validate_prod_config_at_boot cfg = None" unfolding embed_configure_Inr by blast
  from prod_valid_auth_valid [OF this, of "''''"] show ?thesis
    by (simp add: validate_auth_config_at_boot_def split: if_splits)
qed

lemma configured_never_unconfigured:
  assumes "as_issuer st = Some iss" "iss \<noteq> ''''" "as_jwks st = Some c"
    and "verify_jwt parse fetch now h st = (r, st')"
  shows "r \<noteq> Inl AuthNoConfig \<and> (\<exists>c'. as_jwks st' = Some c')"
proof -
  have bt: "bearer_token h \<noteq> Inl AuthNoConfig" by (simp add: bearer_token_def Let_def)
  have we: "wrap_auth_err e \<noteq> AuthNoConfig" for e by (simp add: wrap_auth_err_def Let_def)
  have "check_issuer a b \<noteq> Some AuthNoConfig" for a b by (simp add: check_issuer_def Let_def)
  moreover have "check_audience a b \<noteq> Some AuthNoConfig" for a b
    by (auto simp: check_audience_def Let_def split: option.splits json.splits)
  ultimately have vc: "verify_claims a b mc \<noteq> Inl AuthNoConfig" for a b mc
    unfolding verify_claims_def Let_def by (auto split: option.split if_split)
  show ?thesis
    using assms bt we vc
    by (auto simp: verify_jwt_def split: sum.splits prod.splits option.splits if_splits)
qed

lemma master_key_length: "master_key_from_env E = Some k \<Longrightarrow> length k = 32"
  by (auto simp: master_key_from_env_def Let_def split: option.splits if_splits)

lemma zap_boot_fail_closed:
  "zap_boot E cfg auth = ZapStart key a \<Longrightarrow> auth = Inr (Some a) \<and> length key = 32 \<and> 0 < sint (zap_port cfg)"
  by (auto simp: zap_boot_def Let_def split: option.splits if_splits sum.splits)

end
