(* ===== verification/AuditLog.thy ===== *)
theory AuditLog
  imports Prelude
begin

text \<open>
  The audit trail (\<^verbatim>\<open>audit.go\<close>): actor identifiers, the bounded channel of 1024
  entries, the single writer goroutine, its counters and the \<^verbatim>\<open>sync\<close> sentinel.  The
  SQLite database is the list of rows inserted so far; whether an insert succeeds is the
  environment's choice.  A nil \<^verbatim>\<open>*auditor\<close> is \<^const>\<open>None\<close>.  Any interleaving of
  request handlers and writer is a list of \<open>audit_op\<close>s.
\<close>

section \<open>Actor identifiers\<close>

definition sub_byte :: "char \<Rightarrow> bool" where
  [go_defs]: "sub_byte c \<longleftrightarrow>
     (CHR ''a'' \<le> c \<and> c \<le> CHR ''z'') \<or> (CHR ''0'' \<le> c \<and> c \<le> CHR ''9'') \<or>
     c = CHR ''_'' \<or> c = CHR ''-''"

text \<open>The regular expression \<^verbatim>\<open>subPattern\<close>.\<close>

definition sub_prefixes :: "string list" where
  [go_defs]: "sub_prefixes = [''usr'', ''svc'', ''api'', ''admin'', ''sys'', ''u'', ''sa'', ''ap'']"

definition sub_pattern :: "string \<Rightarrow> bool" where
  [go_defs]: "sub_pattern sub \<longleftrightarrow>
     list_ex (\<lambda>p. prefix (p @ ''_'') sub \<and> drop (length p + 1) sub \<noteq> '''' \<and>
                  list_all sub_byte (drop (length p + 1) sub)) sub_prefixes"

definition unverified_tag :: string where
  [go_defs]: "unverified_tag = ''unverified:''"

definition compose_actor_id :: "string \<Rightarrow> string \<Rightarrow> string" where
  [go_defs]: "compose_actor_id iss0 sub0 =
     (let iss1 = trim_space iss0; sub1 = trim_space sub0;
          iss = (if iss1 = '''' then ''unknown-issuer'' else iss1);
          sub = (if sub1 = '''' then ''anonymous'' else sub1)
      in if \<not> sub_pattern sub then unverified_tag @ iss @ '':'' @ sub
         else iss @ '':'' @ sub)"

fun first_role :: "string list \<Rightarrow> string" where
  "first_role [] = ''''"
| "first_role (r # roles) = (let r' = trim_space r in if r' \<noteq> '''' then r' else first_role roles)"

section \<open>The auditor\<close>

record audit_entry =
  ae_ts :: int
  ae_actor_id :: string
  ae_issuer :: string
  ae_subject :: string
  ae_actor_role :: string
  ae_owner :: string
  ae_method :: string
  ae_path :: string
  ae_secret_path :: string
  ae_secret_name :: string
  ae_env :: string
  ae_result :: nat
  ae_version :: int64
  ae_ack :: "nat option"

text \<open>
  \<open>au_rows\<close> is the table, \<open>au_running\<close> says that the writer goroutine is in its
  loop, \<open>au_closed\<close> holds the acknowledgement channels closed so far.
\<close>

record auditor =
  au_ch :: "audit_entry list"
  au_dropped :: "64 word"
  au_written :: "64 word"
  au_rows :: "audit_entry list"
  au_running :: bool
  au_closed :: "nat list"

definition audit_cap :: nat where
  [go_defs]: "audit_cap = 1024"

text \<open>\<^verbatim>\<open>newAuditor\<close>: the flags say whether opening, the schema and the prepare succeed.\<close>

definition new_auditor :: "bool \<Rightarrow> bool \<Rightarrow> bool \<Rightarrow> auditor option" where
  [go_defs]: "new_auditor open_ok schema_ok prepare_ok =
     (if \<not> open_ok then None
      else if \<not> schema_ok then None
      else Some \<lparr>au_ch = [], au_dropped = 0, au_written = 0, au_rows = [],
                 au_running = prepare_ok, au_closed = []\<rparr>)"

definition sync_method :: string where
  [go_defs]: "sync_method = ''__sync__''"

definition close_ack :: "audit_entry \<Rightarrow> auditor \<Rightarrow> auditor" where
  [go_defs]: "close_ack e a =
     (case ae_ack e of None \<Rightarrow> a | Some k \<Rightarrow> a\<lparr>au_closed := au_closed a @ [k]\<rparr>)"

text \<open>The columns the insert stores: everything but the acknowledgement channel.\<close>

definition audit_row :: "audit_entry \<Rightarrow> audit_entry" where
  [go_defs]: "audit_row e = e\<lparr>ae_ack := None\<rparr>"

text \<open>One turn of \<^verbatim>\<open>run\<close>'s loop on a ready entry; \<open>ok\<close> is the insert's outcome.\<close>

definition run_step :: "bool \<Rightarrow> auditor \<Rightarrow> auditor" where
  [go_defs]: "run_step ok a =
     (if \<not> au_running a then a
      else case au_ch a of
        [] \<Rightarrow> a
      | e # q \<Rightarrow>
          let a1 = a\<lparr>au_ch := q\<rparr> in
          if ae_method e = sync_method then close_ack e a1
          else if \<not> ok then a1
          else close_ack e (a1\<lparr>au_rows := au_rows a1 @ [audit_row e], au_written := au_written a1 + 1\<rparr>))"

text \<open>The other case of the \<^verbatim>\<open>select\<close>: the context is cancelled and the writer returns.\<close>

definition run_cancel :: "auditor \<Rightarrow> auditor" where
  [go_defs]: "run_cancel a = a\<lparr>au_running := False\<rparr>"

definition record_entry :: "audit_entry \<Rightarrow> auditor \<Rightarrow> auditor" where
  [go_defs]: "record_entry e a =
     (if length (au_ch a) < audit_cap then a\<lparr>au_ch := au_ch a @ [e]\<rparr>
      else a\<lparr>au_dropped := au_dropped a + 1\<rparr>)"

definition audit_record :: "audit_entry \<Rightarrow> auditor option \<Rightarrow> auditor option" where
  [go_defs]: "audit_record e a = map_option (record_entry e) a"

definition audit_stats :: "auditor option \<Rightarrow> 64 word \<times> 64 word" where
  [go_defs]: "audit_stats a = (case a of None \<Rightarrow> (0, 0) | Some a \<Rightarrow> (au_written a, au_dropped a))"

text \<open>
  The send of \<^verbatim>\<open>sync\<close>: it blocks while the channel is full (\<^const>\<open>None\<close>); the call
  returns once its acknowledgement channel is closed.
\<close>

definition sync_entry :: "nat \<Rightarrow> audit_entry" where
  [go_defs]: "sync_entry k =
     \<lparr>ae_ts = 0, ae_actor_id = sync_method, ae_issuer = '''', ae_subject = '''', ae_actor_role = '''',
      ae_owner = '''', ae_method = sync_method, ae_path = '''', ae_secret_path = '''',
      ae_secret_name = '''', ae_env = '''', ae_result = 0, ae_version = 0, ae_ack = Some k\<rparr>"

definition sync_send :: "nat \<Rightarrow> auditor \<Rightarrow> auditor option" where
  [go_defs]: "sync_send k a =
     (if length (au_ch a) < audit_cap then Some (a\<lparr>au_ch := au_ch a @ [sync_entry k]\<rparr>) else None)"

section \<open>Interleavings\<close>

datatype audit_op = Rec audit_entry | Run bool | Cancel | Sync nat

fun audit_step :: "auditor \<Rightarrow> audit_op \<Rightarrow> auditor" where
  "audit_step a (Rec e) = record_entry e a"
| "audit_step a (Run ok) = run_step ok a"
| "audit_step a Cancel = run_cancel a"
| "audit_step a (Sync k) = (case sync_send k a of None \<Rightarrow> a | Some a' \<Rightarrow> a')"

abbreviation audit_exec :: "auditor \<Rightarrow> audit_op list \<Rightarrow> auditor" where
  "audit_exec \<equiv> foldl audit_step"

text \<open>The entries the handlers recorded, in order.\<close>

definition recorded :: "audit_op list \<Rightarrow> audit_entry list" where
  [go_defs]: "recorded ops = List.map_filter (\<lambda>op. case op of Rec e \<Rightarrow> Some e | _ \<Rightarrow> None) ops"

definition real_entry :: "audit_entry \<Rightarrow> bool" where
  [go_defs]: "real_entry e \<longleftrightarrow> ae_method e \<noteq> sync_method"

section \<open>A bounded queue\<close>

text \<open>
  The contract of a buffered channel with a non-blocking send: a send into a full buffer is
  refused, a receive takes the oldest element.
\<close>

locale bounded_queue =
  fixes items :: "'s \<Rightarrow> 'a list"
    and send :: "'a \<Rightarrow> 's \<Rightarrow> 's"
    and receive :: "'s \<Rightarrow> 's"
    and cap :: nat
  assumes send_room: "length (items s) < cap \<Longrightarrow> items (send x s) = items s @ [x]"
    and send_full: "cap \<le> length (items s) \<Longrightarrow> items (send x s) = items s"
    and receive_items: "items (receive s) = tl (items s)"
begin

text \<open>\<^const>\<open>Some\<close> sends, \<^const>\<open>None\<close> receives.\<close>

fun exec :: "'s \<Rightarrow> 'a option list \<Rightarrow> 's" where
  "exec s [] = s"
| "exec s (Some x # ops) = exec (send x s) ops"
| "exec s (None # ops) = exec (receive s) ops"

lemma bounded: "length (items s) \<le> cap \<Longrightarrow> length (items (exec s ops)) \<le> cap"
proof (induction s ops rule: exec.induct)
  case (2 s x ops)
  then show ?case
    using send_room [of s x] send_full [of s x] by (cases "length (items s) < cap") auto
next
  case (3 s ops)
  then show ?case by (simp add: receive_items)
qed simp

text \<open>What is queued keeps the order in which it was sent.\<close>

lemma in_order:
  "subseq (items (exec s ops)) (items s @ List.map_filter (\<lambda>x. x) ops)"
proof (induction s ops rule: exec.induct)
  case (2 s x ops)
  have "subseq (items (send x s)) (items s @ [x])"
    using send_room [of s x] send_full [of s x]
    by (cases "length (items s) < cap") (auto intro: subseq_rev_drop_many)
  then have "subseq (items (send x s) @ List.map_filter (\<lambda>x. x) ops) (items s @ x # List.map_filter (\<lambda>x. x) ops)"
    by (metis append.assoc append_Cons append_Nil subseq_append)
  with 2 show ?case
    by (auto simp: map_filter_simps intro: subseq_order.trans)
next
  case (3 s ops)
  have "subseq (items (receive s) @ List.map_filter (\<lambda>x. x) ops) (items s @ List.map_filter (\<lambda>x. x) ops)"
    by (cases "items s") (auto simp: receive_items subseq_Cons')
  with 3 show ?case
    by (auto simp: map_filter_simps intro: subseq_order.trans)
qed (simp add: map_filter_simps)

end

lemma close_ack_sel [simp]:
  "au_ch (close_ack e a) = au_ch a" "au_rows (close_ack e a) = au_rows a"
  "au_written (close_ack e a) = au_written a" "au_dropped (close_ack e a) = au_dropped a"
  "au_running (close_ack e a) = au_running a"
  by (simp_all add: close_ack_def split: option.splits)

interpretation channel: bounded_queue au_ch record_entry
    "\<lambda>a. run_step True (a\<lparr>au_running := True\<rparr>)" audit_cap
  by unfold_locales (auto simp: record_entry_def run_step_def Let_def split: list.splits)

section \<open>No entry is altered, reordered or lost unnoticed\<close>

definition audit_ok :: "auditor \<Rightarrow> audit_entry list \<Rightarrow> bool" where
  "audit_ok a es \<longleftrightarrow>
     length (au_ch a) \<le> audit_cap \<and>
     subseq (au_rows a @ map audit_row (filter real_entry (au_ch a))) (map audit_row es) \<and>
     au_written a = of_nat (length (au_rows a))"

lemma run_step_cases:
  obtains (idle) "run_step ok a = a"
  | (sync) e q where "au_ch a = e # q" "\<not> real_entry e" "au_ch (run_step ok a) = q"
      "au_rows (run_step ok a) = au_rows a" "au_written (run_step ok a) = au_written a"
      "au_dropped (run_step ok a) = au_dropped a"
  | (failed) e q where "au_ch a = e # q" "real_entry e" "\<not> ok" "run_step ok a = a\<lparr>au_ch := q\<rparr>"
  | (written) e q where "au_ch a = e # q" "real_entry e" "ok" "au_ch (run_step ok a) = q"
      "au_rows (run_step ok a) = au_rows a @ [audit_row e]"
      "au_written (run_step ok a) = au_written a + 1" "au_dropped (run_step ok a) = au_dropped a"
proof (cases "au_ch a")
  case Nil
  with idle show thesis by (simp add: run_step_def)
next
  case (Cons e q)
  show thesis
  proof (cases "au_running a")
    case True
    consider "\<not> real_entry e" | "real_entry e" "\<not> ok" | "real_entry e" "ok" by blast
    then show thesis
    proof cases
      case 1
      with Cons True show thesis
        by (intro sync [of e q]) (auto simp: run_step_def real_entry_def)
    next
      case 2
      with Cons True show thesis
        by (intro failed [of e q]) (auto simp: run_step_def real_entry_def)
    next
      case 3
      with Cons True show thesis
        by (intro written [of e q]) (auto simp: run_step_def real_entry_def)
    qed
  qed (use idle in \<open>simp add: run_step_def\<close>)
qed

lemma recorded_simps [simp]:
  "recorded [] = []"
  "recorded (Rec e # ops) = e # recorded ops"
  "recorded (Run ok # ops) = recorded ops"
  "recorded (Cancel # ops) = recorded ops"
  "recorded (Sync k # ops) = recorded ops"
  by (simp_all add: recorded_def map_filter_simps)

lemma audit_step_ok:
  assumes "audit_ok a es" "\<forall>e\<in>set (recorded [op]). real_entry e"
  shows "audit_ok (audit_step a op) (es @ recorded [op])"
proof (cases op)
  case (Rec e)
  show ?thesis
  proof (cases "length (au_ch a) < audit_cap")
    case True
    have "subseq ((au_rows a @ map audit_row (filter real_entry (au_ch a))) @ [audit_row e])
            (map audit_row es @ [audit_row e])"
      using assms(1) unfolding audit_ok_def by (intro list_emb_append_mono) auto
    with True Rec assms show ?thesis
      by (auto simp: audit_ok_def record_entry_def)
  next
    case False
    with Rec assms show ?thesis
      by (auto simp: audit_ok_def record_entry_def intro: subseq_rev_drop_many)
  qed
next
  case (Run ok)
  have "audit_ok (run_step ok a) es"
  proof (cases ok a rule: run_step_cases)
    case (failed e q)
    have "subseq (au_rows a @ map audit_row (filter real_entry q))
            (au_rows a @ map audit_row (filter real_entry (au_ch a)))"
      using failed by (auto intro!: list_emb_append_mono list_emb_Cons)
    with failed assms(1) show ?thesis
      by (auto simp: audit_ok_def intro: subseq_order.trans)
  qed (use assms(1) in \<open>auto simp: audit_ok_def\<close>)
  with Run show ?thesis by simp
next
  case Cancel
  with assms show ?thesis by (simp add: audit_ok_def run_cancel_def)
next
  case (Sync k)
  with assms show ?thesis
    by (auto simp: audit_ok_def sync_send_def sync_entry_def real_entry_def sync_method_def)
qed

lemma recorded_append: "recorded (ops @ ops') = recorded ops @ recorded ops'"
  by (induction ops) (auto simp: recorded_def map_filter_simps split: audit_op.splits)

lemma audit_exec_ok:
  assumes "audit_ok a es" "\<forall>e\<in>set (recorded ops). real_entry e"
  shows "audit_ok (audit_exec a ops) (es @ recorded ops)"
  using assms
proof (induction ops rule: rev_induct)
  case (snoc op ops)
  then show ?case
    using audit_step_ok [of "audit_exec a ops" "es @ recorded ops" op]
    by (simp add: recorded_append)
qed simp

text \<open>The balance of the counters, when no insert fails.\<close>

lemma audit_balance:
  assumes "\<forall>e\<in>set (recorded ops). real_entry e" "Run False \<notin> set ops"
  shows "au_written (audit_exec a ops) + au_dropped (audit_exec a ops) +
           of_nat (length (filter real_entry (au_ch (audit_exec a ops)))) =
         au_written a + au_dropped a + of_nat (length (filter real_entry (au_ch a))) +
           of_nat (length (recorded ops))"
  using assms
proof (induction ops rule: rev_induct)
  case (snoc op ops)
  let ?a = "audit_exec a ops"
  have "au_written (audit_step ?a op) + au_dropped (audit_step ?a op) +
          of_nat (length (filter real_entry (au_ch (audit_step ?a op)))) =
        au_written ?a + au_dropped ?a + of_nat (length (filter real_entry (au_ch ?a))) +
          of_nat (length (recorded [op]))"
  proof (cases op)
    case (Run ok)
    with snoc.prems show ?thesis
      by (cases ok ?a rule: run_step_cases) (auto simp: algebra_simps)
  qed (use snoc.prems in
      \<open>auto simp: record_entry_def run_cancel_def sync_send_def sync_entry_def real_entry_def
        sync_method_def recorded_append algebra_simps\<close>)
  with snoc show ?case
    by (simp add: recorded_append algebra_simps)
qed simp

section \<open>What an actor identifier tells\<close>

lemma sub_pattern_bytes: "sub_pattern s \<Longrightarrow> s \<noteq> '''' \<and> list_all sub_byte s"
proof -
  assume "sub_pattern s"
  then obtain p where p: "p \<in> set sub_prefixes" "prefix (p @ ''_'') s" "list_all sub_byte (drop (length p + 1) s)"
    by (auto simp: sub_pattern_def list_ex_iff)
  then obtain t where s: "s = p @ ''_'' @ t" by (auto simp: prefix_def)
  have "list_all (list_all sub_byte) sub_prefixes" by (simp add: sub_prefixes_def sub_byte_def)
  with p s show ?thesis by (auto simp: list_all_iff sub_byte_def)
qed

lemma sub_pattern_anonymous: "\<not> sub_pattern ''anonymous''" "\<not> sub_pattern ''''"
  by (simp_all add: sub_pattern_def sub_prefixes_def)

lemma compose_actor_id_unverified:
  "\<not> sub_pattern (trim_space sub) \<Longrightarrow> prefix unverified_tag (compose_actor_id iss sub)"
  by (auto simp: compose_actor_id_def Let_def sub_pattern_anonymous)

lemma compose_actor_id_verified:
  "sub_pattern (trim_space sub) \<Longrightarrow> trim_space iss \<noteq> '''' \<Longrightarrow>
     compose_actor_id iss sub = trim_space iss @ CHR '':'' # trim_space sub"
  using sub_pattern_bytes by (auto simp: compose_actor_id_def Let_def)

lemma sub_pattern_no_colon: "sub_pattern s \<Longrightarrow> CHR '':'' \<notin> set s"
  using sub_pattern_bytes [of s] by (auto simp: list_all_iff sub_byte_def)

lemma compose_actor_id_inj:
  assumes "sub_pattern (trim_space sub)" "sub_pattern (trim_space sub')"
    and "trim_space iss \<noteq> ''''" "trim_space iss' \<noteq> ''''"
    and "compose_actor_id iss sub = compose_actor_id iss' sub'"
  shows "trim_space iss = trim_space iss' \<and> trim_space sub = trim_space sub'"
proof -
  from assms have eq: "trim_space iss @ CHR '':'' # trim_space sub = trim_space iss' @ CHR '':'' # trim_space sub'"
    by (simp add: compose_actor_id_verified)
  from last_index_append [OF sub_pattern_no_colon [OF assms(1)], of "trim_space iss"]
    last_index_append [OF sub_pattern_no_colon [OF assms(2)], of "trim_space iss'"]
  have "length (trim_space iss) = length (trim_space iss')" by (simp add: eq)
  with eq show ?thesis by simp
qed

end
