(* ===== verification/Handlers.thy ===== *)
theory Handlers
  imports Listing Config AuditLog
begin

text \<open>
  The secret handlers of \<^verbatim>\<open>registerSecretRoutes\<close> (embed.go).  A handler takes the
  third-party operations, the clock, the request and the state of the process, and gives the
  response and the new state.  The clock is read once per request.  A response holds the JSON
  value passed to \<^verbatim>\<open>writeJSON\<close>, with the keys of an object in the encoder's order.
\<close>

section \<open>The state of the process\<close>

record 'd world =
  w_db :: 'd
  w_auth :: auth_state
  w_audit :: "auditor option"

text \<open>The packages the server is linked with.\<close>

record 'd platform =
  pf_ops :: "'d store_ops"
  pf_parse :: jwt_parser
  pf_fetch :: fetcher

type_synonym 'd handler = "request \<Rightarrow> 'd world \<Rightarrow> response \<times> 'd world"

definition error_text :: "kms_err \<Rightarrow> string" where
  [go_defs]: "error_text err =
     (case err of
        ErrKeyNotFound \<Rightarrow> ''Key not found''
      | ErrVersionMismatch \<Rightarrow> ''kms: version mismatch''
      | ErrMalformed what n \<Rightarrow> what @ '' (len='' @ dec_nat n @ '')''
      | ErrOther msg \<Rightarrow> msg)"

definition audit_entry_of ::
    "int \<Rightarrow> jwt_claims \<Rightarrow> request \<Rightarrow> string \<Rightarrow> string \<Rightarrow> string \<Rightarrow> nat \<Rightarrow> int64 \<Rightarrow> audit_entry" where
  [go_defs]: "audit_entry_of now claims r secret_path secret_name env status new_version =
     \<lparr>ae_ts = now, ae_actor_id = compose_actor_id (cl_iss claims) (cl_sub claims),
      ae_issuer = cl_iss claims, ae_subject = cl_sub claims,
      ae_actor_role = first_role (cl_roles claims), ae_owner = cl_owner claims,
      ae_method = rq_method r, ae_path = rq_path r, ae_secret_path = secret_path,
      ae_secret_name = secret_name, ae_env = env, ae_result = status, ae_version = new_version,
      ae_ack = None\<rparr>"

definition record_audit ::
    "int \<Rightarrow> jwt_claims \<Rightarrow> request \<Rightarrow> string \<Rightarrow> string \<Rightarrow> string \<Rightarrow> nat \<Rightarrow> int64 \<Rightarrow> 'd world \<Rightarrow> 'd world" where
  [go_defs]: "record_audit now claims r secret_path secret_name env status new_version w =
     w\<lparr>w_audit := audit_record
         (audit_entry_of now claims r secret_path secret_name env status new_version) (w_audit w)\<rparr>"

text \<open>\<^verbatim>\<open>authorize\<close>: the claims, or the response it has written.\<close>

definition unauthorized :: response where
  [go_defs]: "unauthorized = write_json 401 (message ''unauthorized'')"

definition authorize :: "'d platform \<Rightarrow> int \<Rightarrow> request \<Rightarrow> 'd world \<Rightarrow> (response + jwt_claims) \<times> 'd world" where
  [go_defs]: "authorize pf now r w =
     (case verify_jwt (pf_parse pf) (pf_fetch pf) now (header_get (rq_headers r) ''Authorization'') (w_auth w) of
        (Inl err, st) \<Rightarrow> (Inl unauthorized, w\<lparr>w_auth := st\<rparr>)
      | (Inr claims, st) \<Rightarrow> (Inr claims, w\<lparr>w_auth := st\<rparr>))"

text \<open>The gate with which every secret handler begins, around the rest of the handler.\<close>

definition wrong_org :: response where
  [go_defs]: "wrong_org = write_json 403 (message ''org claim does not match URL'')"

definition org_gate :: "'d platform \<Rightarrow> int \<Rightarrow> (jwt_claims \<Rightarrow> 'd handler) \<Rightarrow> 'd handler" where
  [go_defs]: "org_gate pf now body r w =
     (case authorize pf now r w of
        (Inl resp, w1) \<Rightarrow> (resp, record_audit now no_claims r '''' '''' '''' 401 0 w1)
      | (Inr claims, w1) \<Rightarrow>
          if \<not> can_act_on_org claims (path_value r ''org'')
          then (wrong_org, record_audit now claims r '''' '''' '''' 403 0 w1)
          else body claims r w1)"

section \<open>GET\<close>

definition get_body :: "'d platform \<Rightarrow> int \<Rightarrow> jwt_claims \<Rightarrow> 'd handler" where
  [go_defs]: "get_body pf now claims r w =
     (case split_secret_path (path_value r ''rest'') of
        Inl msg \<Rightarrow> (write_json 400 (message msg), record_audit now claims r '''' '''' '''' 400 0 w)
      | Inr (path, name) \<Rightarrow>
          let env0 = query_get r ''env''; env = (if env0 = '''' then ''default'' else env0) in
          (case st_get (pf_ops pf) (w_db w) path name env of
             Inl err \<Rightarrow>
               (write_json 404 (message ''not found''), record_audit now claims r path name env 404 0 w)
           | Inr sec \<Rightarrow>
               let cur_ver = fst (read_version (pf_ops pf) (w_db w) path name env) in
               (write_json 200
                  (JObj [(''secret'', JObj [(''value'', JStr (sec_ciphertext sec))]),
                         (''version'', JInt (sint cur_ver))]),
                record_audit now claims r path name env 200 0 w)))"

definition get_secret :: "'d platform \<Rightarrow> int \<Rightarrow> 'd handler" where
  [go_defs]: "get_secret pf now = org_gate pf now (get_body pf now)"

section \<open>POST\<close>

record put_req =
  pr_path :: string
  pr_name :: string
  pr_env :: string
  pr_value :: string

definition no_put_req :: put_req where
  [go_defs]: "no_put_req = \<lparr>pr_path = '''', pr_name = '''', pr_env = '''', pr_value = ''''\<rparr>"

definition store_put_field :: "string \<Rightarrow> json \<Rightarrow> put_req \<Rightarrow> bool \<times> put_req" where
  [go_defs]: "store_put_field f v t =
     (if f = ''path'' then store_str v (\<lambda>s. t\<lparr>pr_path := s\<rparr>) t
      else if f = ''name'' then store_str v (\<lambda>s. t\<lparr>pr_name := s\<rparr>) t
      else if f = ''env'' then store_str v (\<lambda>s. t\<lparr>pr_env := s\<rparr>) t
      else store_str v (\<lambda>s. t\<lparr>pr_value := s\<rparr>) t)"

definition em_dash :: string where
  [go_defs]: "em_dash = [CHR 0xE2, CHR 0x80, CHR 0x94]"

definition env_required_msg :: string where
  [go_defs]: "env_required_msg =
     ''env is required '' @ em_dash @ '' set '' @ [CHR 0x22] @ ''env'' @ [CHR 0x22] @
     '' in the request body; there is no default. A silent default would split this write from '' @
     ''the project/env/path record readers resolve.''"

definition put_body :: "'d platform \<Rightarrow> int \<Rightarrow> jwt_claims \<Rightarrow> 'd handler" where
  [go_defs]: "put_body pf now claims r w =
     (case decode_body [''path'', ''name'', ''env'', ''value''] store_put_field r no_put_req of
        (ok, req) \<Rightarrow>
          if \<not> ok \<or> pr_name req = '''' then
            (write_json 400 (message ''name and value required''),
             record_audit now claims r (pr_path req) (pr_name req) (pr_env req) 400 0 w)
          else if \<not> safe_path (pr_path req) \<or> \<not> safe_path (pr_name req) then
            (write_json 400 (message ''invalid path or name''),
             record_audit now claims r (pr_path req) (pr_name req) (pr_env req) 400 0 w)
          else if \<not> env_required (pr_env req) then
            (write_json 400 (message env_required_msg),
             record_audit now claims r (pr_path req) (pr_name req) '''' 400 0 w)
          else
            let sec = \<lparr>sec_name = pr_name req, sec_path = pr_path req, sec_env = pr_env req,
                       sec_ciphertext = pr_value req\<rparr> in
            (case st_put (pf_ops pf) (w_db w) sec of
               (Some err, d1) \<Rightarrow>
                 (write_json 500 (message (error_text err)),
                  record_audit now claims r (pr_path req) (pr_name req) (pr_env req) 500 0 (w\<lparr>w_db := d1\<rparr>))
             | (None, d1) \<Rightarrow>
                 (case bump_version (pf_ops pf) d1 (pr_path req) (pr_name req) (pr_env req) (- 1) of
                    (new_ver, ver_err, d2) \<Rightarrow>
                      (case write_mtime (pf_ops pf) (word_of_int now) d2 (pr_path req) (pr_name req) (pr_env req) of
                         (m_err, d3) \<Rightarrow>
                           (write_json 201 (JObj [(''ok'', JBool True), (''version'', JInt (sint new_ver))]),
                            record_audit now claims r (pr_path req) (pr_name req) (pr_env req) 201 new_ver
                              (w\<lparr>w_db := d3\<rparr>))))))"

definition put_secret :: "'d platform \<Rightarrow> int \<Rightarrow> 'd handler" where
  [go_defs]: "put_secret pf now = org_gate pf now (put_body pf now)"

section \<open>PATCH\<close>

record patch_req =
  qr_value :: string
  qr_version :: "int64 option"
  qr_env :: string

definition no_patch_req :: patch_req where
  [go_defs]: "no_patch_req = \<lparr>qr_value = '''', qr_version = None, qr_env = ''''\<rparr>"

definition store_patch_field :: "string \<Rightarrow> json \<Rightarrow> patch_req \<Rightarrow> bool \<times> patch_req" where
  [go_defs]: "store_patch_field f v t =
     (if f = ''value'' then store_str v (\<lambda>s. t\<lparr>qr_value := s\<rparr>) t
      else if f = ''version'' then
        (case v of
           JNull \<Rightarrow> (True, t\<lparr>qr_version := None\<rparr>)
         | JInt i \<Rightarrow> if - (2 ^ 63) \<le> i \<and> i < 2 ^ 63 then (True, t\<lparr>qr_version := Some (word_of_int i)\<rparr>)
                    else (False, t\<lparr>qr_version := Some 0\<rparr>)
         | _ \<Rightarrow> (False, t\<lparr>qr_version := Some 0\<rparr>))
      else store_str v (\<lambda>s. t\<lparr>qr_env := s\<rparr>) t)"

text \<open>
  The expected version: \<^verbatim>\<open>If-Match\<close>, then the body's version, which must agree.
  \<^const>\<open>Inl\<close> carries the status and message of the refusal.
\<close>

definition expected_version :: "string \<Rightarrow> int64 option \<Rightarrow> (nat \<times> string) + int64" where
  [go_defs]: "expected_version if_match body_version =
     (let h = trim_space if_match;
          from_header =
            (if h \<noteq> '''' then
               (case scan_int (trim_byte CHR 0x22 h) of
                  None \<Rightarrow> Inl (400, ''If-Match must be integer version'')
                | Some v \<Rightarrow> Inr v)
             else Inr (- 1))
      in case from_header of
           Inl err \<Rightarrow> Inl err
         | Inr expected \<Rightarrow>
             (case body_version of
                Some bv \<Rightarrow>
                  if 0 \<le> sint expected \<and> expected \<noteq> bv
                  then Inl (400, ''If-Match and body.version disagree'')
                  else if sint bv < 0 then Inl (428, ''PATCH requires If-Match header or body.version'')
                  else Inr bv
              | None \<Rightarrow>
                  if sint expected < 0 then Inl (428, ''PATCH requires If-Match header or body.version'')
                  else Inr expected))"

text \<open>
  The update proper, in the three transactions the code makes: the existence check, the
  compare-and-set of the version, and the write of the value with its time.
\<close>

definition patch_update ::
    "'d platform \<Rightarrow> int \<Rightarrow> jwt_claims \<Rightarrow> string \<Rightarrow> string \<Rightarrow> string \<Rightarrow> string \<Rightarrow> int64 \<Rightarrow> 'd handler" where
  [go_defs]: "patch_update pf now claims path name env val expected r w =
     (case st_get (pf_ops pf) (w_db w) path name env of
        Inl err \<Rightarrow>
          (write_json 404 (message ''not found''), record_audit now claims r path name env 404 0 w)
      | Inr old \<Rightarrow>
          (case bump_version (pf_ops pf) (w_db w) path name env expected of
             (new_ver, Some ErrVersionMismatch, d1) \<Rightarrow>
               let cur = fst (read_version (pf_ops pf) d1 path name env) in
               (write_json 409 (JObj
                  [(''currentVersion'', JInt (sint cur)), (''expectedVersion'', JInt (sint expected)),
                   (''message'', JStr (''version mismatch '' @ em_dash @ '' replayed or stale update''))]),
                record_audit now claims r path name env 409 cur (w\<lparr>w_db := d1\<rparr>))
           | (new_ver, Some err, d1) \<Rightarrow>
               (write_json 500 (message (error_text err)),
                record_audit now claims r path name env 500 0 (w\<lparr>w_db := d1\<rparr>))
           | (new_ver, None, d1) \<Rightarrow>
               (case st_put (pf_ops pf) d1
                   \<lparr>sec_name = name, sec_path = path, sec_env = env, sec_ciphertext = val\<rparr> of
                  (Some err, d2) \<Rightarrow>
                    (write_json 500 (message (error_text err)),
                     record_audit now claims r path name env 500 0 (w\<lparr>w_db := d2\<rparr>))
                | (None, d2) \<Rightarrow>
                    (case write_mtime (pf_ops pf) (word_of_int now) d2 path name env of
                       (m_err, d3) \<Rightarrow>
                         (write_json 200 (JObj [(''ok'', JBool True), (''version'', JInt (sint new_ver))]),
                          record_audit now claims r path name env 200 new_ver (w\<lparr>w_db := d3\<rparr>))))))"

definition patch_body :: "'d platform \<Rightarrow> int \<Rightarrow> jwt_claims \<Rightarrow> 'd handler" where
  [go_defs]: "patch_body pf now claims r w =
     (case split_secret_path (path_value r ''rest'') of
        Inl msg \<Rightarrow> (write_json 400 (message msg), record_audit now claims r '''' '''' '''' 400 0 w)
      | Inr (path, name) \<Rightarrow>
          (case decode_body [''value'', ''version'', ''env''] store_patch_field r no_patch_req of
             (ok, req) \<Rightarrow>
               if \<not> ok then
                 (write_json 400 (message ''value required''),
                  record_audit now claims r path name (qr_env req) 400 0 w)
               else
                 let env = (if qr_env req = '''' then query_get r ''env'' else qr_env req) in
                 if \<not> env_required env then
                   (write_json 400 (message env_required_msg), record_audit now claims r path name '''' 400 0 w)
                 else
                   (case expected_version (header_get (rq_headers r) ''If-Match'') (qr_version req) of
                      Inl (status, msg) \<Rightarrow>
                        (write_json status (message msg), record_audit now claims r path name env status 0 w)
                    | Inr expected \<Rightarrow> patch_update pf now claims path name env (qr_value req) expected r w)))"

definition patch_secret :: "'d platform \<Rightarrow> int \<Rightarrow> 'd handler" where
  [go_defs]: "patch_secret pf now = org_gate pf now (patch_body pf now)"

section \<open>DELETE\<close>

definition del_body :: "'d platform \<Rightarrow> int \<Rightarrow> jwt_claims \<Rightarrow> 'd handler" where
  [go_defs]: "del_body pf now claims r w =
     (case split_secret_path (path_value r ''rest'') of
        Inl msg \<Rightarrow> (write_json 400 (message msg), record_audit now claims r '''' '''' '''' 400 0 w)
      | Inr (path, name) \<Rightarrow>
          let env0 = query_get r ''env''; env = (if env0 = '''' then ''default'' else env0) in
          (case st_delete (pf_ops pf) (w_db w) path name env of
             (Some err, d1) \<Rightarrow>
               (write_json 404 (message ''not found''),
                record_audit now claims r path name env 404 0 (w\<lparr>w_db := d1\<rparr>))
           | (None, d1) \<Rightarrow>
               let d2 = snd (delete_version (pf_ops pf) d1 path name env);
                   d3 = snd (delete_mtime (pf_ops pf) d2 path name env) in
               (write_json 200 (JObj [(''ok'', JBool True)]),
                record_audit now claims r path name env 200 0 (w\<lparr>w_db := d3\<rparr>))))"

definition del_secret :: "'d platform \<Rightarrow> int \<Rightarrow> 'd handler" where
  [go_defs]: "del_secret pf now = org_gate pf now (del_body pf now)"

section \<open>List\<close>

definition org_root :: "string \<Rightarrow> string" where
  [go_defs]: "org_root org = ''brand/'' @ org"

definition json_row :: "meta_row \<Rightarrow> json" where
  [go_defs]: "json_row row = JObj
     ([(''path'', JStr (row_path row)), (''name'', JStr (row_name row)), (''env'', JStr (row_env row)),
       (''version'', JInt (sint (row_version row)))] @
      (if row_updated row = '''' then [] else [(''updatedTime'', JStr (row_updated row))]))"

text \<open>The scan's root: the org's namespace or a prefix within it; \<^const>\<open>Inl\<close> refuses.\<close>

definition list_path :: "string \<Rightarrow> string \<Rightarrow> (nat \<times> string \<times> string) + string" where
  [go_defs]: "list_path org qp0 =
     (if qp0 = '''' then Inr (org_root org)
      else
        let qp = trim_suffix qp0 ''/'' in
        if qp = '''' \<or> \<not> safe_path qp then Inl (400, ''invalid prefix'', qp)
        else if qp \<noteq> org_root org \<and> \<not> prefix (org_root org @ ''/'') qp
        then Inl (403, ''prefix must be within brand/'' @ org @ ''/'', qp)
        else Inr qp)"

definition list_body :: "'d platform \<Rightarrow> int \<Rightarrow> jwt_claims \<Rightarrow> 'd handler" where
  [go_defs]: "list_body pf now claims r w =
     (if \<not> safe_path (path_value r ''org'') then
        (write_json 400 (message ''invalid org''), record_audit now claims r '''' '''' '''' 400 0 w)
      else case list_path (path_value r ''org'') (query_get r ''prefix'') of
        Inl (status, msg, qp) \<Rightarrow>
          (write_json status (message msg), record_audit now claims r qp '''' '''' status 0 w)
      | Inr lp \<Rightarrow>
          let env_filter = query_get r ''env'' in
          if env_filter \<noteq> '''' \<and> (\<not> safe_path env_filter \<or> sublist ''/'' env_filter) then
            (write_json 400 (message ''invalid env''),
             record_audit now claims r lp '''' env_filter 400 0 w)
          else
            (case list_secret_metadata (pf_ops pf) (w_db w) lp env_filter of
               (rows, truncated) \<Rightarrow>
                 (write_json 200 (JObj
                    ([(''count'', JInt (int (length rows))), (''secrets'', JArr (map json_row rows))] @
                     (if truncated then [(''truncated'', JBool True)] else []))),
                  record_audit now claims r lp '''' env_filter 200 0 w)))"

definition list_secrets :: "'d platform \<Rightarrow> int \<Rightarrow> 'd handler" where
  [go_defs]: "list_secrets pf now = org_gate pf now (list_body pf now)"

end
