(* ===== verification/Gate.thy ===== *)
theory Gate
  imports Handlers
begin

text \<open>
  What all secret handlers share: the gate in front of them (no claims or a foreign org, no
  effect and a constant answer) and the audit row behind them (exactly one per request, with
  the status the client saw).  \<open>tenant_handler\<close> is the contract of a gated handler; it is
  proved once for the gate and interpreted on the five handlers.
\<close>

lemma record_audit_sel [simp]:
  "w_db (record_audit now c r p n e s v w) = w_db w"
  "w_auth (record_audit now c r p n e s v w) = w_auth w"
  by (simp_all add: record_audit_def)

text \<open>The claims a request carries, if its token verifies.\<close>

definition verified_claims :: "'d platform \<Rightarrow> int \<Rightarrow> request \<Rightarrow> 'd world \<Rightarrow> jwt_claims option" where
  [go_defs]: "verified_claims pf now r w =
     (case fst (authorize pf now r w) of Inl _ \<Rightarrow> None | Inr c \<Rightarrow> Some c)"

lemma authorize_frame:
  "authorize pf now r w = (x, w1) \<Longrightarrow> w_db w1 = w_db w \<and> w_audit w1 = w_audit w"
  by (auto simp: authorize_def split: prod.splits sum.splits)

lemma authorize_Inl: "authorize pf now r w = (Inl resp, w1) \<Longrightarrow> resp = unauthorized"
  by (auto simp: authorize_def split: prod.splits sum.splits)

section \<open>The gate\<close>

locale tenant_handler =
  fixes claims_of :: "request \<Rightarrow> 'w \<Rightarrow> jwt_claims option"
    and handle :: "request \<Rightarrow> 'w \<Rightarrow> response \<times> 'w"
    and db :: "'w \<Rightarrow> 'd"
  assumes no_token: "claims_of r w = None \<Longrightarrow> handle r w = (resp, w') \<Longrightarrow>
      resp = unauthorized \<and> db w' = db w"
    and foreign_org: "claims_of r w = Some c \<Longrightarrow> \<not> can_act_on_org c (path_value r ''org'') \<Longrightarrow>
      handle r w = (resp, w') \<Longrightarrow> resp = wrong_org \<and> db w' = db w"
begin

lemma effect_needs_claims:
  assumes "handle r w = (resp, w')" "db w' \<noteq> db w \<or> resp \<notin> {unauthorized, wrong_org}"
  shows "\<exists>c. claims_of r w = Some c \<and> can_act_on_org c (path_value r ''org'')"
proof (cases "claims_of r w")
  case None
  with no_token [OF _ assms(1)] assms(2) show ?thesis by simp
next
  case (Some c)
  with foreign_org [OF _ _ assms(1)] assms(2) show ?thesis by auto
qed

text \<open>A tenant acts on its own org only.\<close>

lemma effect_needs_owner:
  assumes "handle r w = (resp, w')" "db w' \<noteq> db w \<or> resp \<notin> {unauthorized, wrong_org}"
    and "claims_of r w = Some c" "\<not> is_admin c"
  shows "path_value r ''org'' = cl_owner c \<and> cl_owner c \<noteq> ''''"
  using effect_needs_claims [OF assms(1,2)] assms(3,4) by (auto simp: can_act_on_org_def)

text \<open>Requests that the gate refuses, in any number, leave the database alone.\<close>

fun refused :: "request list \<Rightarrow> 'w \<Rightarrow> bool" where
  "refused [] w = True"
| "refused (r # rs) w =
     ((case claims_of r w of None \<Rightarrow> True | Some c \<Rightarrow> \<not> can_act_on_org c (path_value r ''org'')) \<and>
      refused rs (snd (handle r w)))"

lemma refused_no_effect: "refused rs w \<Longrightarrow> db (fold (\<lambda>r w. snd (handle r w)) rs w) = db w"
proof (induction rs arbitrary: w)
  case (Cons r rs)
  obtain resp w' where h: "handle r w = (resp, w')" by (cases "handle r w")
  from Cons.prems no_token [OF _ h] foreign_org [OF _ _ h] have "db w' = db w"
    by (auto split: option.splits)
  with Cons h show ?case by simp
qed simp

end

lemma org_gate_tenant: "tenant_handler (verified_claims pf now) (org_gate pf now body) w_db"
proof
  fix r :: request and w :: "'a world" and resp w' c
  assume h: "org_gate pf now body r w = (resp, w')"
  show "resp = unauthorized \<and> w_db w' = w_db w" if "verified_claims pf now r w = None"
    using that h authorize_frame [of pf now r w] authorize_Inl [of pf now r w]
    by (auto simp: org_gate_def verified_claims_def split: prod.splits sum.splits)
  show "resp = wrong_org \<and> w_db w' = w_db w"
    if "verified_claims pf now r w = Some c" "\<not> can_act_on_org c (path_value r ''org'')"
    using that h authorize_frame [of pf now r w]
    by (auto simp: org_gate_def verified_claims_def split: prod.splits sum.splits)
qed

interpretation get_h: tenant_handler "verified_claims pf now" "get_secret pf now" w_db for pf now
  unfolding get_secret_def by (rule org_gate_tenant)

interpretation put_h: tenant_handler "verified_claims pf now" "put_secret pf now" w_db for pf now
  unfolding put_secret_def by (rule org_gate_tenant)

interpretation patch_h: tenant_handler "verified_claims pf now" "patch_secret pf now" w_db for pf now
  unfolding patch_secret_def by (rule org_gate_tenant)

interpretation del_h: tenant_handler "verified_claims pf now" "del_secret pf now" w_db for pf now
  unfolding del_secret_def by (rule org_gate_tenant)

interpretation list_h: tenant_handler "verified_claims pf now" "list_secrets pf now" w_db for pf now
  unfolding list_secrets_def by (rule org_gate_tenant)

text \<open>Past the gate, a handler is its body.\<close>

lemma org_gate_pass:
  assumes "verified_claims pf now r w = Some c" "can_act_on_org c (path_value r ''org'')"
  obtains w1 where "org_gate pf now body r w = body c r w1" "w_db w1 = w_db w" "w_audit w1 = w_audit w"
proof -
  obtain x w1 where a: "authorize pf now r w = (x, w1)" by (cases "authorize pf now r w")
  with assms(1) have x: "x = Inr c" by (cases x) (auto simp: verified_claims_def)
  show thesis
    using assms(2) authorize_frame [OF a] by (intro that [of w1]) (simp_all add: org_gate_def a x)
qed

lemma org_gate_status:
  assumes "org_gate pf now body r w = (resp, w')" "rs_status resp \<notin> {401, 403}"
  obtains c w1 where "verified_claims pf now r w = Some c" "can_act_on_org c (path_value r ''org'')"
    "body c r w1 = (resp, w')" "w_db w1 = w_db w" "w_audit w1 = w_audit w"
proof -
  have "resp \<notin> {unauthorized, wrong_org}"
    using assms(2) by (auto simp: unauthorized_def wrong_org_def)
  then obtain c where c: "verified_claims pf now r w = Some c" "can_act_on_org c (path_value r ''org'')"
    using tenant_handler.effect_needs_claims [OF org_gate_tenant assms(1)] by blast
  from org_gate_pass [OF c, of body] assms(1) obtain w1 where
    "body c r w1 = (resp, w')" "w_db w1 = w_db w" "w_audit w1 = w_audit w"
    by metis
  with c that show thesis by blast
qed

lemma org_gate_ok:
  assumes "org_gate pf now body r w = (resp, w')" "rs_status resp \<notin> {401, 403}"
  shows "\<exists>c w1. verified_claims pf now r w = Some c \<and> can_act_on_org c (path_value r ''org'') \<and>
    body c r w1 = (resp, w') \<and> w_db w1 = w_db w \<and> w_audit w1 = w_audit w"
  using org_gate_status [OF assms] by metis

section \<open>The audit row\<close>

text \<open>
  \<open>audited\<close>: exactly one entry went to the auditor, from these claims and this request,
  and its result is the status of the response.
\<close>

definition audited ::
    "int \<Rightarrow> jwt_claims \<Rightarrow> request \<Rightarrow> 'd world \<Rightarrow> response \<times> 'd world \<Rightarrow> bool" where
  "audited now c r w out \<longleftrightarrow>
     (\<exists>p n e v. w_audit (snd out) =
        audit_record (audit_entry_of now c r p n e (rs_status (fst out)) v) (w_audit w))"

lemma auditedI:
  "w_audit w = w_audit w1 \<Longrightarrow> rs_status resp = s \<Longrightarrow>
     audited now c r w (resp, record_audit now c r p n e s v w1)"
  by (auto simp: audited_def record_audit_def)

lemma get_body_audited: "audited now c r w (get_body pf now c r w)"
  by (auto simp: get_body_def Let_def intro: auditedI split: sum.split)

lemma put_body_audited: "audited now c r w (put_body pf now c r w)"
  by (auto simp: put_body_def Let_def intro: auditedI split: prod.split option.split)

lemma patch_update_audited: "audited now c r w (patch_update pf now c p n e v x r w)"
  by (auto simp: patch_update_def Let_def intro: auditedI
      split: prod.split option.split sum.split kms_err.split)

lemma patch_body_audited: "audited now c r w (patch_body pf now c r w)"
  by (auto simp: patch_body_def Let_def intro: auditedI patch_update_audited
      split: prod.split option.split sum.split)

lemma del_body_audited: "audited now c r w (del_body pf now c r w)"
  by (auto simp: del_body_def Let_def intro: auditedI split: prod.split option.split sum.split)

lemma list_body_audited: "audited now c r w (list_body pf now c r w)"
  by (auto simp: list_body_def Let_def intro: auditedI split: prod.split sum.split)

lemma org_gate_audited:
  assumes "\<And>c w1. audited now c r w1 (body c r w1)"
  shows "audited now (case verified_claims pf now r w of None \<Rightarrow> no_claims | Some c \<Rightarrow> c) r w
           (org_gate pf now body r w)"
proof -
  obtain x w1 where a: "authorize pf now r w = (x, w1)" by (cases "authorize pf now r w")
  then have w1: "w_audit w1 = w_audit w" using authorize_frame by blast
  have "audited now c r w (body c r w1)" for c
    using assms [of c w1] w1 by (simp add: audited_def)
  with a w1 authorize_Inl [of pf now r w] show ?thesis
    by (auto simp: org_gate_def verified_claims_def unauthorized_def wrong_org_def
        intro!: auditedI split: sum.splits)
qed

lemma handler_audited:
  assumes "h \<in> {get_secret pf now, put_secret pf now, patch_secret pf now, del_secret pf now, list_secrets pf now}"
  shows "audited now (case verified_claims pf now r w of None \<Rightarrow> no_claims | Some c \<Rightarrow> c) r w (h r w)"
proof -
  have "audited now (case verified_claims pf now r w of None \<Rightarrow> no_claims | Some c \<Rightarrow> c) r w (org_gate pf now body r w)"
    if "body \<in> {get_body pf now, put_body pf now, patch_body pf now, del_body pf now, list_body pf now}" for body
    using that get_body_audited put_body_audited patch_body_audited del_body_audited list_body_audited
    by (intro org_gate_audited) auto
  with assms show ?thesis
    by (auto simp: get_secret_def put_secret_def patch_secret_def del_secret_def list_secrets_def)
qed

end
