(* ===== verification/Routes.thy ===== *)
theory Routes
  imports Gate
begin

text \<open>
  The rest of the HTTP surface (embed.go): header hygiene and the method allow-list in front
  of the mux, health, login, the environment and statistics endpoints, the key routes, the
  SPA fallback, and the route table itself.  \<^verbatim>\<open>keys.Manager\<close>, the MPC client and the
  IAM are third-party: \<open>key_platform\<close> and \<open>iam_post\<close> are parameters.
\<close>

section \<open>In front of the mux\<close>

definition identity_headers :: "string list" where
  [go_defs]: "identity_headers =
     [''X-User-Id'', ''X-Org-Id'', ''X-Roles'', ''X-User-Email'',
      ''X-Gateway-Validated'', ''X-Gateway-User-Id'', ''X-Gateway-Org-Id'', ''X-Gateway-User-Email'',
      ''X-Hanzo-User-Id'', ''X-Hanzo-User-Email'', ''X-Hanzo-User-Role'', ''X-Hanzo-User-Roles'',
      ''X-Hanzo-User-IsAdmin'', ''X-Hanzo-Org'', ''X-Hanzo-Org-Id'',
      ''X-IAM-User-Id'', ''X-IAM-Org'', ''X-IAM-Org-Id'', ''X-IAM-Roles'',
      ''X-User-Role'', ''X-User-Roles'', ''X-Tenant-Id'', ''X-Tenant-ID'', ''X-Org'', ''X-Is-Admin'']"

definition strip_identity_headers :: "(request \<Rightarrow> 's \<Rightarrow> response \<times> 's) \<Rightarrow> request \<Rightarrow> 's \<Rightarrow> response \<times> 's" where
  [go_defs]: "strip_identity_headers next r =
     next (r\<lparr>rq_headers := fold header_del identity_headers (rq_headers r)\<rparr>)"

definition method_allowlist :: "(request \<Rightarrow> 's \<Rightarrow> response \<times> 's) \<Rightarrow> request \<Rightarrow> 's \<Rightarrow> response \<times> 's" where
  [go_defs]: "method_allowlist next r w =
     (if rq_method r \<in> {''TRACE'', ''CONNECT'', ''OPTIONS''} then
        (let resp = write_json 405 (message ''method not allowed'') in
         (resp\<lparr>rs_headers := (''Allow'', ''GET, POST, PATCH, DELETE'') # rs_headers resp\<rparr>, w))
      else next r w)"

section \<open>Health and login\<close>

definition health :: "string \<Rightarrow> response" where
  [go_defs]: "health version = write_json 200
     (JObj [(''service'', JStr ''kms''), (''status'', JStr ''ok''), (''version'', JStr version)])"

record login_req =
  lr_client_id :: string
  lr_client_secret :: string

definition store_login_field :: "string \<Rightarrow> json \<Rightarrow> login_req \<Rightarrow> bool \<times> login_req" where
  [go_defs]: "store_login_field f v t =
     (if f = ''clientId'' then store_str v (\<lambda>s. t\<lparr>lr_client_id := s\<rparr>) t
      else store_str v (\<lambda>s. t\<lparr>lr_client_secret := s\<rparr>) t)"

text \<open>
  \<open>iam_post url form\<close>: \<^const>\<open>None\<close> when the IAM is unreachable, else the JSON value of
  its answer, if it is one.
\<close>

type_synonym iam = "string \<Rightarrow> (string \<times> string) list \<Rightarrow> json option option"

definition token_member :: "json option \<Rightarrow> string" where
  [go_defs]: "token_member body =
     (case body of
        Some (JObj ms) \<Rightarrow> (case map_of (rev ms) ''access_token'' of Some (JStr at) \<Rightarrow> at | _ \<Rightarrow> '''')
      | _ \<Rightarrow> '''')"

definition login :: "iam \<Rightarrow> string \<Rightarrow> request \<Rightarrow> response" where
  [go_defs]: "login iam_post endpoint r =
     (case decode_body [''clientId'', ''clientSecret''] store_login_field r
             \<lparr>lr_client_id = '''', lr_client_secret = ''''\<rparr> of
        (ok, req) \<Rightarrow>
          if \<not> ok \<or> lr_client_id req = '''' \<or> lr_client_secret req = '''' then
            write_json 400 (JObj [(''message'', JStr ''clientId and clientSecret required''), (''statusCode'', JInt 400)])
          else
            (case iam_post (endpoint @ ''/v1/iam/oauth/token'')
                    [(''grant_type'', ''client_credentials''), (''client_id'', lr_client_id req),
                     (''client_secret'', lr_client_secret req)] of
               None \<Rightarrow> write_json 502
                 (JObj [(''message'', JStr ''identity provider unreachable''), (''statusCode'', JInt 502)])
             | Some body \<Rightarrow>
                 let at = token_member body in
                 if at = '''' then write_json 401
                   (JObj [(''message'', JStr ''invalid credentials''), (''statusCode'', JInt 401)])
                 else write_json 200
                   (JObj [(''accessToken'', JStr at), (''expiresIn'', JInt 86400), (''tokenType'', JStr ''Bearer'')])))"

section \<open>Admin endpoints of the secret routes\<close>

definition admin_required :: response where
  [go_defs]: "admin_required = write_json 403 (message ''admin role required'')"

definition env_secret :: "'d platform \<Rightarrow> int \<Rightarrow> environ \<Rightarrow> 'd handler" where
  [go_defs]: "env_secret pf now E r w =
     (case authorize pf now r w of
        (Inl resp, w1) \<Rightarrow> (resp, record_audit now no_claims r '''' '''' '''' 401 0 w1)
      | (Inr claims, w1) \<Rightarrow>
          if \<not> is_admin claims then
            (admin_required, record_audit now claims r '''' '''' '''' 403 0 w1)
          else
            let name = path_value r ''name'' in
            if \<not> safe_env_name name then
              (write_json 400 (message ''invalid name''), record_audit now claims r '''' name '''' 400 0 w1)
            else
              let val = E name in
              if val = '''' then
                (write_json 404 (message ''not found''), record_audit now claims r '''' name '''' 404 0 w1)
              else
                (write_json 200 (JObj [(''secret'', JObj [(''secretKey'', JStr name), (''secretValue'', JStr val)])]),
                 record_audit now claims r '''' name '''' 200 0 w1))"

text \<open>\<^verbatim>\<open>adminOnly\<close>, around handlers on any state that contains the process's.\<close>

definition admin_only ::
    "'d platform \<Rightarrow> int \<Rightarrow> (request \<Rightarrow> 'd world \<times> 'm \<Rightarrow> response \<times> 'd world \<times> 'm) \<Rightarrow>
     request \<Rightarrow> 'd world \<times> 'm \<Rightarrow> response \<times> 'd world \<times> 'm" where
  [go_defs]: "admin_only pf now next r s =
     (case authorize pf now r (fst s) of
        (Inl resp, w1) \<Rightarrow> (resp, w1, snd s)
      | (Inr claims, w1) \<Rightarrow>
          if \<not> is_admin claims then (admin_required, w1, snd s)
          else next r (w1, snd s))"

definition audit_stats_body :: "request \<Rightarrow> 'd world \<times> 'm \<Rightarrow> response \<times> 'd world \<times> 'm" where
  [go_defs]: "audit_stats_body r s =
     (case audit_stats (w_audit (fst s)) of
        (written, dropped) \<Rightarrow>
          (write_json 200 (JObj [(''dropped'', JInt (uint dropped)), (''written'', JInt (uint written))]), s))"

section \<open>Key routes\<close>

text \<open>
  The requests of the key manager's package; \<^verbatim>\<open>RotateRequest\<close> is passed on unread.  The
  manager's answers are JSON values.
\<close>

record generate_req =
  gr_validator_id :: string
  gr_threshold :: int
  gr_parties :: int

record sign_req =
  sr_key_type :: string
  sr_message :: bytes

record ('m, 'rot) key_platform =
  km_decode_generate :: "json option \<Rightarrow> bool \<times> generate_req"
  km_decode_sign :: "json option \<Rightarrow> bool \<times> sign_req"
  km_decode_rotate :: "json option \<Rightarrow> bool \<times> 'rot"
  km_generate :: "'m \<Rightarrow> generate_req \<Rightarrow> (string + json) \<times> 'm"
  km_list :: "'m \<Rightarrow> json list option"
  km_get :: "'m \<Rightarrow> string \<Rightarrow> string + json"
  km_sign_bls :: "'m \<Rightarrow> string \<Rightarrow> bytes \<Rightarrow> string + json"
  km_sign_corona :: "'m \<Rightarrow> string \<Rightarrow> bytes \<Rightarrow> string + json"
  km_rotate :: "'m \<Rightarrow> string \<Rightarrow> 'rot \<Rightarrow> (string + json) \<times> 'm"
  km_status :: "'m \<Rightarrow> string + json"

abbreviation error_json :: "string \<Rightarrow> json" where
  "error_json e \<equiv> JObj [(''error'', JStr e)]"

definition key_generate :: "('m, 'rot) key_platform \<Rightarrow> request \<Rightarrow> 'm \<Rightarrow> response \<times> 'm" where
  [go_defs]: "key_generate km r m =
     (case km_decode_generate km (read_json r) of
        (ok, req) \<Rightarrow>
          if \<not> ok then (write_json 400 (error_json ''invalid request body''), m)
          else if gr_validator_id req = '''' then (write_json 400 (error_json ''validator_id is required''), m)
          else if gr_threshold req < 2 \<or> gr_parties req < gr_threshold req then
            (write_json 400 (error_json ''invalid threshold/parties''), m)
          else
            (case km_generate km m req of
               (Inl err, m1) \<Rightarrow>
                 if sublist ''already exists'' err then (write_json 409 (error_json err), m1)
                 else (write_json 500 (error_json err), m1)
             | (Inr ks, m1) \<Rightarrow> (write_json 201 ks, m1)))"

definition key_list :: "('m, 'rot) key_platform \<Rightarrow> request \<Rightarrow> 'm \<Rightarrow> response \<times> 'm" where
  [go_defs]: "key_list km r m =
     (write_json 200 (JArr (case km_list km m of None \<Rightarrow> [] | Some l \<Rightarrow> l)), m)"

definition key_get :: "('m, 'rot) key_platform \<Rightarrow> request \<Rightarrow> 'm \<Rightarrow> response \<times> 'm" where
  [go_defs]: "key_get km r m =
     (case km_get km m (path_value r ''id'') of
        Inl err \<Rightarrow> (write_json 404 (error_json ''not found''), m)
      | Inr ks \<Rightarrow> (write_json 200 ks, m))"

definition key_sign :: "('m, 'rot) key_platform \<Rightarrow> request \<Rightarrow> 'm \<Rightarrow> response \<times> 'm" where
  [go_defs]: "key_sign km r m =
     (let id = path_value r ''id'' in
      case km_decode_sign km (read_json r) of
        (ok, req) \<Rightarrow>
          if \<not> ok \<or> sr_message req = '''' then (write_json 400 (error_json ''invalid request''), m)
          else
            let answer =
              (if sr_key_type req = ''bls'' then Some (km_sign_bls km m id (sr_message req))
               else if sr_key_type req = ''corona'' then Some (km_sign_corona km m id (sr_message req))
               else None) in
            (case answer of
               None \<Rightarrow> (write_json 400 (error_json ''key_type must be bls or corona''), m)
             | Some (Inl err) \<Rightarrow>
                 if sublist ''not found'' err then (write_json 404 (error_json err), m)
                 else (write_json 500 (error_json err), m)
             | Some (Inr resp) \<Rightarrow> (write_json 200 resp, m)))"

definition key_rotate :: "('m, 'rot) key_platform \<Rightarrow> request \<Rightarrow> 'm \<Rightarrow> response \<times> 'm" where
  [go_defs]: "key_rotate km r m =
     (let id = path_value r ''id'' in
      case km_decode_rotate km (read_json r) of
        (ok, req) \<Rightarrow>
          if \<not> ok then (write_json 400 (error_json ''invalid request''), m)
          else
            (case km_rotate km m id req of
               (Inl err, m1) \<Rightarrow> (write_json 500 (error_json err), m1)
             | (Inr ks, m1) \<Rightarrow> (write_json 200 ks, m1)))"

definition kms_status :: "('m, 'rot) key_platform \<Rightarrow> request \<Rightarrow> 'm \<Rightarrow> response \<times> 'm" where
  [go_defs]: "kms_status km r m =
     (case km_status km m of
        Inl err \<Rightarrow> (write_json 200
          (JObj [(''details'', JStr err), (''kms'', JStr ''ok''), (''mpc'', JStr ''unreachable'')]), m)
      | Inr st \<Rightarrow> (write_json 200 (JObj [(''kms'', JStr ''ok''), (''mpc'', st)]), m))"

text \<open>A key handler runs on the manager's part of the state.\<close>

definition on_keys :: "(request \<Rightarrow> 'm \<Rightarrow> response \<times> 'm) \<Rightarrow> request \<Rightarrow> 'd world \<times> 'm \<Rightarrow> response \<times> 'd world \<times> 'm" where
  [go_defs]: "on_keys h r s = (case h r (snd s) of (resp, m) \<Rightarrow> (resp, fst s, m))"

section \<open>The SPA fallback\<close>

text \<open>
  What the catch-all handler does with a path: answers 404, the JSON banner, or hands over to
  \<^verbatim>\<open>http.ServeFile\<close> on the index or to the file server.  \<open>exists f\<close> is
  \<^verbatim>\<open>os.Stat\<close> without error.
\<close>

datatype frontend_answer = FeNotFound | FeBanner | FeServeFile string | FeFileServer

definition frontend_index :: "environ \<Rightarrow> (string \<Rightarrow> bool) \<Rightarrow> string" where
  [go_defs]: "frontend_index E exists =
     (let dir = trim_space (E ''KMS_FRONTEND_DIR'') in
      if dir \<noteq> '''' then (let candidate = dir @ ''/index.html'' in if exists candidate then candidate else '''')
      else '''')"

definition api_path :: "string \<Rightarrow> bool" where
  [go_defs]: "api_path p \<longleftrightarrow> prefix ''/v1/'' p \<or> prefix ''/api/'' p \<or> p = ''/api'' \<or> p = ''/healthz'' \<or> p = ''/health''"

definition frontend :: "environ \<Rightarrow> (string \<Rightarrow> bool) \<Rightarrow> string \<Rightarrow> frontend_answer" where
  [go_defs]: "frontend E exists p =
     (let dir = trim_space (E ''KMS_FRONTEND_DIR''); index_path = frontend_index E exists in
      if index_path = '''' then (if p \<noteq> ''/'' then FeNotFound else FeBanner)
      else if api_path p then FeNotFound
      else
        let clean = trim_prefix p ''/'' in
        if clean = '''' then FeServeFile index_path
        else if \<not> exists (dir @ ''/'' @ clean) then FeServeFile index_path
        else FeFileServer)"

lemma frontend_never_masks_api: "api_path p \<Longrightarrow> frontend E exists p = FeNotFound"
  by (auto simp: frontend_def api_path_def Let_def)

lemma frontend_index_exists: "frontend_index E exists \<noteq> '''' \<Longrightarrow> exists (frontend_index E exists)"
  by (auto simp: frontend_index_def Let_def split: if_splits)

lemma frontend_served_exists:
  "frontend E exists p = FeServeFile f \<Longrightarrow> exists f \<and> f = frontend_index E exists"
  by (auto simp: frontend_def Let_def frontend_index_exists split: if_splits)

end
