(* ===== verification/Mux.thy ===== *)
theory Mux
  imports Routes
begin

text \<open>
  The route table of \<^verbatim>\<open>http.ServeMux\<close> and the whole HTTP server: allow-list, header
  hygiene, dispatch.  A pattern is matched against the decoded segments of a clean request
  path.  Patterns other than the catch-all never match the same request (\<open>routes_exclusive\<close>),
  so the order of the table does not matter.
\<close>

section \<open>Patterns\<close>

datatype seg = Lit string | Wild string | Rest string

fun match_segs :: "seg list \<Rightarrow> string list \<Rightarrow> (string \<times> string) list option" where
  "match_segs [] [] = Some []"
| "match_segs (Lit l # ps) (s # ss) = (if l = s then match_segs ps ss else None)"
| "match_segs (Wild x # ps) (s # ss) =
     (if s = '''' then None else map_option (Cons (x, s)) (match_segs ps ss))"
| "match_segs (Rest x # ps) (s # ss) = Some [(x, go_join CHR ''/'' (s # ss))]"
| "match_segs _ _ = None"

text \<open>A sufficient test that two patterns match no common path.\<close>

fun disjoint_segs :: "seg list \<Rightarrow> seg list \<Rightarrow> bool" where
  "disjoint_segs [] [] = False"
| "disjoint_segs [] (q # qs) = True"
| "disjoint_segs (p # ps) [] = True"
| "disjoint_segs (Rest x # ps) (q # qs) = False"
| "disjoint_segs (p # ps) (Rest x # qs) = False"
| "disjoint_segs (Lit a # ps) (Lit b # qs) = (a \<noteq> b \<or> disjoint_segs ps qs)"
| "disjoint_segs (p # ps) (q # qs) = disjoint_segs ps qs"

lemma disjoint_segs_sound:
  "disjoint_segs p q \<Longrightarrow> match_segs p ss \<noteq> None \<Longrightarrow> match_segs q ss = None"
  by (induction p q arbitrary: ss rule: disjoint_segs.induct; case_tac ss) (auto split: if_splits)

section \<open>The table\<close>

datatype route =
    RHealthz | RHealth | RLogin | RList | RGet | RPut | RPatch | RDelete | REnv | RStats
  | RKeyGenerate | RKeyList | RKeyGet | RKeySign | RKeyRotate | RStatus | RFrontend

definition secrets_pat :: "seg list" where
  [go_defs]: "secrets_pat = [Lit ''v1'', Lit ''kms'', Lit ''orgs'', Wild ''org'', Lit ''secrets'']"

definition base_routes :: "(string \<times> seg list \<times> route) list" where
  [go_defs]: "base_routes =
     [(''GET'', [Lit ''healthz''], RHealthz),
      (''GET'', [Lit ''v1'', Lit ''kms'', Lit ''health''], RHealth),
      (''POST'', [Lit ''v1'', Lit ''kms'', Lit ''auth'', Lit ''login''], RLogin),
      (''GET'', secrets_pat, RList),
      (''GET'', secrets_pat @ [Rest ''rest''], RGet),
      (''POST'', secrets_pat, RPut),
      (''PATCH'', secrets_pat @ [Rest ''rest''], RPatch),
      (''DELETE'', secrets_pat @ [Rest ''rest''], RDelete),
      (''GET'', [Lit ''v1'', Lit ''kms'', Lit ''secrets'', Wild ''name''], REnv),
      (''GET'', [Lit ''v1'', Lit ''kms'', Lit ''audit'', Lit ''stats''], RStats)]"

definition key_routes :: "(string \<times> seg list \<times> route) list" where
  [go_defs]: "key_routes =
     [(''POST'', [Lit ''v1'', Lit ''kms'', Lit ''keys'', Lit ''generate''], RKeyGenerate),
      (''GET'', [Lit ''v1'', Lit ''kms'', Lit ''keys''], RKeyList),
      (''GET'', [Lit ''v1'', Lit ''kms'', Lit ''keys'', Wild ''id''], RKeyGet),
      (''POST'', [Lit ''v1'', Lit ''kms'', Lit ''keys'', Wild ''id'', Lit ''sign''], RKeySign),
      (''POST'', [Lit ''v1'', Lit ''kms'', Lit ''keys'', Wild ''id'', Lit ''rotate''], RKeyRotate),
      (''GET'', [Lit ''v1'', Lit ''kms'', Lit ''status''], RStatus)]"

text \<open>\<open>keys_on\<close>: a vault is configured and the MPC client was created.\<close>

definition route_table :: "bool \<Rightarrow> (string \<times> seg list \<times> route) list" where
  [go_defs]: "route_table keys_on =
     base_routes @ (if keys_on then key_routes else []) @ [(''GET'', [Rest ''''], RFrontend)]"

definition method_fits :: "string \<Rightarrow> string \<Rightarrow> bool" where
  [go_defs]: "method_fits pat m \<longleftrightarrow> m = pat \<or> pat = ''GET'' \<and> m = ''HEAD''"

definition pick_route :: "bool \<Rightarrow> string \<Rightarrow> string list \<Rightarrow> (string \<times> seg list \<times> route) option" where
  [go_defs]: "pick_route keys_on m segs =
     find (\<lambda>(pm, pat, rt). method_fits pm m \<and> match_segs pat segs \<noteq> None) (route_table keys_on)"

section \<open>The server\<close>

record ('d, 'm, 'rot) server =
  sv_pf :: "'d platform"
  sv_km :: "('m, 'rot) key_platform"
  sv_keys_on :: bool
  sv_iam :: iam
  sv_iam_endpoint :: string
  sv_environ :: environ
  sv_exists :: "string \<Rightarrow> bool"
  sv_version :: string

definition on_world :: "'d handler \<Rightarrow> request \<Rightarrow> 'd world \<times> 'm \<Rightarrow> response \<times> 'd world \<times> 'm" where
  [go_defs]: "on_world h r s = (case h r (fst s) of (resp, w) \<Rightarrow> (resp, w, snd s))"

definition not_found_page :: response where
  [go_defs]: "not_found_page = \<lparr>rs_status = 404, rs_headers = [], rs_body = Text ''404 page not found''\<rparr>"

definition frontend_response :: "('d, 'm, 'rot) server \<Rightarrow> string \<Rightarrow> response" where
  [go_defs]: "frontend_response sv p =
     (case frontend (sv_environ sv) (sv_exists sv) p of
        FeNotFound \<Rightarrow> not_found_page
      | FeBanner \<Rightarrow> write_json 200
          (JObj [(''docs'', JStr ''/v1/kms''), (''service'', JStr ''kms''), (''status'', JStr ''ok''),
                 (''version'', JStr (sv_version sv))])
      | FeServeFile f \<Rightarrow> \<lparr>rs_status = 200, rs_headers = [], rs_body = File f\<rparr>
      | FeFileServer \<Rightarrow> \<lparr>rs_status = 200, rs_headers = [],
          rs_body = File (trim_space (sv_environ sv ''KMS_FRONTEND_DIR'') @ p)\<rparr>)"

fun run_route ::
    "('d, 'm, 'rot) server \<Rightarrow> int \<Rightarrow> route \<Rightarrow> request \<Rightarrow> 'd world \<times> 'm \<Rightarrow> response \<times> 'd world \<times> 'm" where
  "run_route sv now RHealthz r s = (health (sv_version sv), s)"
| "run_route sv now RHealth r s = (health (sv_version sv), s)"
| "run_route sv now RLogin r s = (login (sv_iam sv) (sv_iam_endpoint sv) r, s)"
| "run_route sv now RList r s = on_world (list_secrets (sv_pf sv) now) r s"
| "run_route sv now RGet r s = on_world (get_secret (sv_pf sv) now) r s"
| "run_route sv now RPut r s = on_world (put_secret (sv_pf sv) now) r s"
| "run_route sv now RPatch r s = on_world (patch_secret (sv_pf sv) now) r s"
| "run_route sv now RDelete r s = on_world (del_secret (sv_pf sv) now) r s"
| "run_route sv now REnv r s = on_world (env_secret (sv_pf sv) now (sv_environ sv)) r s"
| "run_route sv now RStats r s = admin_only (sv_pf sv) now audit_stats_body r s"
| "run_route sv now RKeyGenerate r s = admin_only (sv_pf sv) now (on_keys (key_generate (sv_km sv))) r s"
| "run_route sv now RKeyList r s = admin_only (sv_pf sv) now (on_keys (key_list (sv_km sv))) r s"
| "run_route sv now RKeyGet r s = admin_only (sv_pf sv) now (on_keys (key_get (sv_km sv))) r s"
| "run_route sv now RKeySign r s = admin_only (sv_pf sv) now (on_keys (key_sign (sv_km sv))) r s"
| "run_route sv now RKeyRotate r s = admin_only (sv_pf sv) now (on_keys (key_rotate (sv_km sv))) r s"
| "run_route sv now RStatus r s = admin_only (sv_pf sv) now (on_keys (kms_status (sv_km sv))) r s"
| "run_route sv now RFrontend r s = (frontend_response sv (rq_path r), s)"

definition mux_serve ::
    "('d, 'm, 'rot) server \<Rightarrow> int \<Rightarrow> string list \<Rightarrow> request \<Rightarrow> 'd world \<times> 'm \<Rightarrow> response \<times> 'd world \<times> 'm" where
  [go_defs]: "mux_serve sv now segs r s =
     (case pick_route (sv_keys_on sv) (rq_method r) segs of
        Some (pm, pat, rt) \<Rightarrow>
          run_route sv now rt (r\<lparr>rq_vals := (case match_segs pat segs of None \<Rightarrow> [] | Some b \<Rightarrow> b)\<rparr>) s
      | None \<Rightarrow>
          if list_ex (\<lambda>(pm, pat, rt). match_segs pat segs \<noteq> None) (route_table (sv_keys_on sv))
          then (\<lparr>rs_status = 405, rs_headers = [], rs_body = Text ''Method Not Allowed''\<rparr>, s)
          else (not_found_page, s))"

definition server_handle ::
    "('d, 'm, 'rot) server \<Rightarrow> int \<Rightarrow> string list \<Rightarrow> request \<Rightarrow> 'd world \<times> 'm \<Rightarrow> response \<times> 'd world \<times> 'm" where
  [go_defs]: "server_handle sv now segs = method_allowlist (strip_identity_headers (mux_serve sv now segs))"

section \<open>Dispatch\<close>

fun exclusive :: "(string \<times> seg list \<times> route) list \<Rightarrow> bool" where
  "exclusive [] = True"
| "exclusive ((m, p, rt) # es) =
     (list_all (\<lambda>(m', p', rt'). m \<noteq> m' \<or> disjoint_segs p p') es \<and> exclusive es)"

lemma exclusive_sound:
  assumes "exclusive es" "i < j" "j < length es" "es ! i = (m, p, rt)" "es ! j = (m, p', rt')"
    and "match_segs p ss \<noteq> None"
  shows "match_segs p' ss = None"
  using assms
proof (induction es arbitrary: i j rule: exclusive.induct)
  case (2 m0 p0 rt0 es)
  show ?case
  proof (cases i)
    case 0
    with 2 obtain j' where "j = Suc j'" "j' < length es" by (cases j) auto
    with 2 0 have "(m, p', rt') \<in> set es" by (metis nth_Cons_Suc nth_mem)
    with 2 0 have "disjoint_segs p p'" by (auto simp: list_all_iff)
    with 2(7) show ?thesis using disjoint_segs_sound by blast
  next
    case (Suc i')
    with 2 show ?thesis by (cases j) auto
  qed
qed simp

lemma routes_exclusive: "exclusive (base_routes @ key_routes)"
  by (simp add: base_routes_def key_routes_def secrets_pat_def)

lemma pick_route_in:
  "pick_route b m segs = Some (pm, pat, rt) \<Longrightarrow>
     (pm, pat, rt) \<in> set (route_table b) \<and> method_fits pm m \<and> match_segs pat segs \<noteq> None"
  by (auto simp: pick_route_def find_Some_iff) (metis nth_mem)

section \<open>Admin gates\<close>

locale admin_handler =
  fixes claims_of :: "request \<Rightarrow> 's \<Rightarrow> jwt_claims option"
    and handle :: "request \<Rightarrow> 's \<Rightarrow> response \<times> 's"
    and eff :: "'s \<Rightarrow> 'e"
  assumes no_token: "claims_of r s = None \<Longrightarrow> handle r s = (resp, s') \<Longrightarrow>
      resp = unauthorized \<and> eff s' = eff s"
    and no_admin: "claims_of r s = Some c \<Longrightarrow> \<not> is_admin c \<Longrightarrow> handle r s = (resp, s') \<Longrightarrow>
      resp = admin_required \<and> eff s' = eff s"
begin

lemma effect_needs_admin:
  assumes "handle r s = (resp, s')" "eff s' \<noteq> eff s \<or> resp \<notin> {unauthorized, admin_required}"
  shows "\<exists>c. claims_of r s = Some c \<and> is_admin c"
proof (cases "claims_of r s")
  case None
  with no_token [OF _ assms(1)] assms(2) show ?thesis by simp
next
  case (Some c)
  with no_admin [OF _ _ assms(1)] assms(2) show ?thesis by auto
qed

end

abbreviation effects :: "'d world \<times> 'm \<Rightarrow> 'd \<times> 'm" where
  "effects s \<equiv> (w_db (fst s), snd s)"

interpretation adm: admin_handler "\<lambda>r s. verified_claims pf now r (fst s)" "admin_only pf now next" effects
  for pf now "next"
proof
  fix r :: request and s s' :: "'a world \<times> 'b" and resp c
  assume h: "admin_only pf now next r s = (resp, s')"
  obtain x w1 where a: "authorize pf now r (fst s) = (x, w1)" by (cases "authorize pf now r (fst s)")
  show "resp = unauthorized \<and> effects s' = effects s" if "verified_claims pf now r (fst s) = None"
    using that h authorize_frame [OF a] authorize_Inl [of pf now r "fst s"] a
    by (cases x) (auto simp: admin_only_def verified_claims_def)
  show "resp = admin_required \<and> effects s' = effects s"
    if "verified_claims pf now r (fst s) = Some c" "\<not> is_admin c"
    using that h authorize_frame [OF a] a
    by (cases x) (auto simp: admin_only_def verified_claims_def)
qed

interpretation env_h: admin_handler "verified_claims pf now" "env_secret pf now E" w_db for pf now E
proof
  fix r :: request and w w' :: "'a world" and resp c
  assume h: "env_secret pf now E r w = (resp, w')"
  obtain x w1 where a: "authorize pf now r w = (x, w1)" by (cases "authorize pf now r w")
  show "resp = unauthorized \<and> w_db w' = w_db w" if "verified_claims pf now r w = None"
    using that h authorize_frame [OF a] authorize_Inl [of pf now r w] a
    by (cases x) (auto simp: env_secret_def verified_claims_def)
  show "resp = admin_required \<and> w_db w' = w_db w"
    if "verified_claims pf now r w = Some c" "\<not> is_admin c"
    using that h authorize_frame [OF a] a
    by (cases x) (auto simp: env_secret_def verified_claims_def)
qed

lemma env_secret_no_effect: "w_db (snd (env_secret pf now E r w)) = w_db w"
proof -
  obtain x w1 where a: "authorize pf now r w = (x, w1)" by (cases "authorize pf now r w")
  then show ?thesis
    using authorize_frame [OF a] by (cases x) (auto simp: env_secret_def Let_def)
qed

section \<open>Identity headers\<close>

lemma identity_keys_free:
  "canonical_key ''Authorization'' \<notin> canonical_key ` set identity_headers"
  "canonical_key ''If-Match'' \<notin> canonical_key ` set identity_headers"
  by code_simp+

lemma header_get_stripped:
  assumes "canonical_key k \<notin> canonical_key ` set ks"
  shows "header_get (fold header_del ks hs) k = header_get hs k"
proof -
  have "map_of (filter (\<lambda>(k', _). k' \<notin> canonical_key ` set ks) hs) (canonical_key k) = map_of hs (canonical_key k)"
    using assms by (induction hs) auto
  then show ?thesis by (simp add: header_get_def fold_header_del)
qed

text \<open>The server's answer and effect do not depend on any identity header of the request.\<close>

lemma server_ignores_identity_headers:
  assumes "filter (\<lambda>(k, _). k \<notin> canonical_key ` set identity_headers) hs =
           filter (\<lambda>(k, _). k \<notin> canonical_key ` set identity_headers) hs'"
  shows "server_handle sv now segs (r\<lparr>rq_headers := hs\<rparr>) s = server_handle sv now segs (r\<lparr>rq_headers := hs'\<rparr>) s"
  using assms by (simp add: server_handle_def method_allowlist_def strip_identity_headers_def fold_header_del)

lemma verified_claims_cong:
  "header_get (rq_headers r) ''Authorization'' = header_get (rq_headers r') ''Authorization'' \<Longrightarrow>
     verified_claims pf now r w = verified_claims pf now r' w"
  by (simp add: verified_claims_def authorize_def)

section \<open>Effects need a token\<close>

lemma on_world_effects:
  "on_world h r s = (resp, s') \<Longrightarrow> \<exists>w. h r (fst s) = (resp, w) \<and> s' = (w, snd s)"
  by (auto simp: on_world_def split: prod.splits)

lemma secret_route_effect:
  assumes "tenant_handler (verified_claims pf now) h w_db"
    and "on_world h r s = (resp, s')" "effects s' \<noteq> effects s"
  shows "\<exists>c. verified_claims pf now r (fst s) = Some c \<and> can_act_on_org c (path_value r ''org'')"
proof -
  from on_world_effects [OF assms(2)] obtain w where w: "h r (fst s) = (resp, w)" "s' = (w, snd s)" by blast
  with assms(3) have "w_db w \<noteq> w_db (fst s)" by simp
  with tenant_handler.effect_needs_claims [OF assms(1) w(1)] show ?thesis by blast
qed

lemma match_secrets_pat:
  assumes "match_segs (secrets_pat @ ps) segs = Some b"
  shows "\<exists>rest. segs = ''v1'' # ''kms'' # ''orgs'' # lookup0 b ''org'' # ''secrets'' # rest"
proof -
  have unfold: "secrets_pat @ ps = Lit ''v1'' # Lit ''kms'' # Lit ''orgs'' # Wild ''org'' # Lit ''secrets'' # ps"
    by (simp add: secrets_pat_def)
  show ?thesis
    using assms unfolding unfold
    by (cases segs; cases "tl segs"; cases "tl (tl segs)"; cases "tl (tl (tl segs))";
        cases "tl (tl (tl (tl segs)))") (auto simp: lookup0_def split: if_splits)
qed

text \<open>Which pattern a route of the table has, for the routes that reach the secret handlers.\<close>

lemma route_table_secret:
  assumes "(pm, pat, rt) \<in> set (route_table b)" "rt \<in> {RList, RGet, RPut, RPatch, RDelete}"
  shows "\<exists>ps. pat = secrets_pat @ ps"
  using assms by (auto simp: route_table_def base_routes_def key_routes_def split: if_splits)

fun secret_op :: "'d platform \<Rightarrow> int \<Rightarrow> route \<Rightarrow> 'd handler option" where
  "secret_op pf now RList = Some (list_secrets pf now)"
| "secret_op pf now RGet = Some (get_secret pf now)"
| "secret_op pf now RPut = Some (put_secret pf now)"
| "secret_op pf now RPatch = Some (patch_secret pf now)"
| "secret_op pf now RDelete = Some (del_secret pf now)"
| "secret_op pf now _ = None"

lemma secret_op_tenant:
  "secret_op pf now rt = Some h \<Longrightarrow> tenant_handler (verified_claims pf now) h w_db"
  using list_h.tenant_handler_axioms get_h.tenant_handler_axioms put_h.tenant_handler_axioms
    patch_h.tenant_handler_axioms del_h.tenant_handler_axioms
  by (cases rt) (auto simp del: not_None_eq)

lemma run_secret_op:
  "secret_op (sv_pf sv) now rt = Some h \<Longrightarrow>
     run_route sv now rt r s = on_world h r s \<and> tenant_handler (verified_claims (sv_pf sv) now) h w_db"
  by (rule conjI [OF _ secret_op_tenant], cases rt) auto

lemma run_route_effect:
  assumes "run_route sv now rt r s = (resp, s')" "effects s' \<noteq> effects s"
  shows "\<exists>c. verified_claims (sv_pf sv) now r (fst s) = Some c \<and>
     (is_admin c \<or> rt \<in> {RList, RGet, RPut, RPatch, RDelete} \<and> can_act_on_org c (path_value r ''org''))"
proof -
  have env: "effects s' = effects s" if "rt = REnv"
    using assms(1) that env_secret_no_effect [of "sv_pf sv" now "sv_environ sv" r "fst s"]
    by (auto dest!: on_world_effects)
  consider "rt \<in> {RHealthz, RHealth, RLogin, RFrontend}" | "rt = REnv"
    | (tenant) h where "rt \<in> {RList, RGet, RPut, RPatch, RDelete}" "on_world h r s = (resp, s')"
        "tenant_handler (verified_claims (sv_pf sv) now) h w_db"
    | (admin) h where "admin_only (sv_pf sv) now h r s = (resp, s')"
  proof (cases "rt \<in> {RList, RGet, RPut, RPatch, RDelete}")
    case True
    then obtain h where "secret_op (sv_pf sv) now rt = Some h" by auto
    with run_secret_op [of sv now rt h r s] assms(1) True that(3) [of h] show thesis by simp
  next
    case False
    with assms(1) that show thesis by (cases rt) auto
  qed
  then show ?thesis
  proof cases
    case 1
    with assms show ?thesis by auto
  next
    case 2
    with env assms(2) show ?thesis by simp
  next
    case tenant
    with secret_route_effect [OF tenant(3,2) assms(2)] show ?thesis by blast
  next
    case admin
    from adm.effect_needs_admin [OF admin] assms(2) show ?thesis by blast
  qed
qed

lemma server_effect:
  assumes "server_handle sv now segs r s = (resp, s')" "effects s' \<noteq> effects s"
  shows "\<exists>c. verified_claims (sv_pf sv) now r (fst s) = Some c \<and>
     (is_admin c \<or> cl_owner c \<noteq> '''' \<and>
        (\<exists>rest. segs = ''v1'' # ''kms'' # ''orgs'' # cl_owner c # ''secrets'' # rest))"
proof -
  let ?r = "r\<lparr>rq_headers := fold header_del identity_headers (rq_headers r)\<rparr>"
  have m: "mux_serve sv now segs ?r s = (resp, s')"
    using assms by (auto simp: server_handle_def method_allowlist_def strip_identity_headers_def Let_def split: if_splits)
  then obtain pm pat rt where pick: "pick_route (sv_keys_on sv) (rq_method r) segs = Some (pm, pat, rt)"
    using assms(2) by (auto simp: mux_serve_def split: option.splits if_splits)
  from pick_route_in [OF pick] obtain b where b: "match_segs pat segs = Some b"
    and tbl: "(pm, pat, rt) \<in> set (route_table (sv_keys_on sv))" by blast
  let ?r' = "?r\<lparr>rq_vals := b\<rparr>"
  from m pick b have run: "run_route sv now rt ?r' s = (resp, s')"
    by (simp add: mux_serve_def)
  have vc: "verified_claims (sv_pf sv) now ?r' (fst s) = verified_claims (sv_pf sv) now r (fst s)"
    by (rule verified_claims_cong) (simp add: header_get_stripped identity_keys_free)
  from run_route_effect [OF run assms(2)] obtain c where
    c: "verified_claims (sv_pf sv) now r (fst s) = Some c"
    and d: "is_admin c \<or> rt \<in> {RList, RGet, RPut, RPatch, RDelete} \<and> can_act_on_org c (path_value ?r' ''org'')"
    using vc by auto
  show ?thesis
  proof (cases "is_admin c")
    case False
    with d have rt: "rt \<in> {RList, RGet, RPut, RPatch, RDelete}"
      and own: "cl_owner c \<noteq> ''''" "lookup0 b ''org'' = cl_owner c"
      by (auto simp: can_act_on_org_def)
    from route_table_secret [OF tbl rt] b obtain ps where "match_segs (secrets_pat @ ps) segs = Some b" by blast
    from match_secrets_pat [OF this] own c show ?thesis by auto
  qed (use c in blast)
qed

end
