(* ===== verification/Consensus.thy ===== *)
theory Consensus
  imports Config
begin

text \<open>
  The consensus authority of the ZAP transport (\<^verbatim>\<open>consensus.go\<close>): the snapshot of
  validators and operators, from a file or from two environment variables, and the authorizer
  built from it.  The node-id parser, Go's duration parser and the authorizer package are
  parameters.  Environment values are taken as valid UTF-8.
\<close>

section \<open>The snapshot\<close>

definition list_sep :: "char \<Rightarrow> bool" where
  [go_defs]: "list_sep c \<longleftrightarrow> c \<in> {CHR 0x0A, CHR '','', CHR '' '', CHR 0x09, CHR 0x0D}"

fun split_fields :: "string \<Rightarrow> string list \<Rightarrow> string \<Rightarrow> string list" where
  "split_fields field out [] = (if field \<noteq> '''' then out @ [field] else out)"
| "split_fields field out (c # s) =
     (if list_sep c then (if field \<noteq> '''' then split_fields '''' (out @ [field]) s else split_fields field out s)
      else split_fields (field @ [c]) out s)"

definition split_consensus_list :: "string \<Rightarrow> string list" where
  [go_defs]: "split_consensus_list raw = (if raw = '''' then [] else split_fields '''' [] raw)"

text \<open>Errors name the source and the entry or the cause.\<close>

datatype snap_err =
    BadNode string string
  | BadFile string
  | EmptyValidators
  | EmptyOperators
  | BadTtl string
  | NoAuthorizer string
  | SelfTest string

fun parse_consensus_node_ids :: "(string \<Rightarrow> 'id option) \<Rightarrow> string \<Rightarrow> string list \<Rightarrow> 'id list \<Rightarrow> snap_err + 'id list" where
  "parse_consensus_node_ids pid src [] out = Inr out"
| "parse_consensus_node_ids pid src (raw # raws) out =
     (let s = trim_space raw in
      if s = '''' then parse_consensus_node_ids pid src raws out
      else case pid s of
             None \<Rightarrow> Inl (BadNode src s)
           | Some i \<Rightarrow> parse_consensus_node_ids pid src raws (out @ [i]))"

text \<open>A snapshot file: absent, unreadable, or its bytes as JSON.\<close>

datatype snap_file = NotExist | Unreadable string | Contents "json option"

record snapshot =
  sn_validators :: "string list"
  sn_operators :: "string list"

definition decode_snapshot :: "json \<Rightarrow> bool \<times> snapshot" where
  [go_defs]: "decode_snapshot v = decode_struct [''validators'', ''operators'']
     (\<lambda>f v t. if f = ''validators'' then store_list decode_str v (\<lambda>l. t\<lparr>sn_validators := l\<rparr>) t
              else store_list decode_str v (\<lambda>l. t\<lparr>sn_operators := l\<rparr>) t) v
     \<lparr>sn_validators = [], sn_operators = []\<rparr>"

definition parse_both ::
    "(string \<Rightarrow> 'id option) \<Rightarrow> string \<Rightarrow> string \<Rightarrow> string list \<Rightarrow> string list \<Rightarrow> snap_err + 'id list \<times> 'id list" where
  [go_defs]: "parse_both pid vsrc osrc vs ops =
     (case parse_consensus_node_ids pid vsrc vs [] of
        Inl e \<Rightarrow> Inl e
      | Inr validators \<Rightarrow>
          (case parse_consensus_node_ids pid osrc ops [] of
             Inl e \<Rightarrow> Inl e
           | Inr operators \<Rightarrow> Inr (validators, operators)))"

definition load_consensus_snapshot ::
    "(string \<Rightarrow> 'id option) \<Rightarrow> environ \<Rightarrow> (string \<Rightarrow> snap_file) \<Rightarrow> snap_err + 'id list \<times> 'id list" where
  [go_defs]: "load_consensus_snapshot pid E read_file =
     (let path = trim_space (E ''KMS_CONSENSUS_FILE'') in
      if path \<noteq> '''' then
        (case read_file path of
           NotExist \<Rightarrow> Inr ([], [])
         | Unreadable e \<Rightarrow> Inl (BadFile e)
         | Contents None \<Rightarrow> Inl (BadFile ''json'')
         | Contents (Some v) \<Rightarrow>
             (case decode_snapshot v of (ok, snap) \<Rightarrow>
                if \<not> ok then Inl (BadFile ''json'')
                else parse_both pid ''KMS_CONSENSUS_FILE validators'' ''KMS_CONSENSUS_FILE operators''
                       (sn_validators snap) (sn_operators snap)))
      else parse_both pid ''KMS_CONSENSUS_VALIDATORS'' ''KMS_CONSENSUS_OPERATORS''
             (split_consensus_list (E ''KMS_CONSENSUS_VALIDATORS''))
             (split_consensus_list (E ''KMS_CONSENSUS_OPERATORS'')))"

section \<open>The authorizer\<close>

definition default_consensus_ttl :: int where
  [go_defs]: "default_consensus_ttl = 30 * 1000000000"

text \<open>\<open>new_az validators operators ttl\<close>, and \<open>probe\<close>, the self-test with the first validator.\<close>

definition build_consensus_authorizer ::
    "(string \<Rightarrow> 'id option) \<Rightarrow> (string \<Rightarrow> int option) \<Rightarrow> ('id list \<Rightarrow> 'id list \<Rightarrow> int \<Rightarrow> string + 'a) \<Rightarrow>
     ('a \<Rightarrow> 'id \<Rightarrow> string option) \<Rightarrow> environ \<Rightarrow> (string \<Rightarrow> snap_file) \<Rightarrow> snap_err + 'a option" where
  [go_defs]: "build_consensus_authorizer pid pdur new_az probe E read_file =
     (case load_consensus_snapshot pid E read_file of
        Inl e \<Rightarrow> Inl e
      | Inr (validators, operators) \<Rightarrow>
          if validators = [] \<and> operators = [] then Inr None
          else if validators = [] then Inl EmptyValidators
          else if operators = [] then Inl EmptyOperators
          else
            let v = trim_space (E ''KMS_CONSENSUS_TTL'') in
            (case (if v \<noteq> '''' then pdur v else Some default_consensus_ttl) of
               None \<Rightarrow> Inl (BadTtl v)
             | Some ttl \<Rightarrow>
                 (case new_az validators operators ttl of
                    Inl e \<Rightarrow> Inl (NoAuthorizer e)
                  | Inr az \<Rightarrow>
                      (case probe az (hd validators) of
                         Some e \<Rightarrow> Inl (SelfTest e)
                       | None \<Rightarrow> Inr (Some az)))))"

section \<open>Facts\<close>

text \<open>The splitting loop is splitting at any separator, without the empty fields.\<close>

definition unify_sep :: "string \<Rightarrow> string" where
  "unify_sep s = map (\<lambda>c. if list_sep c then CHR '','' else c) s"

lemma split_fields_eq:
  assumes "\<forall>c\<in>set field. \<not> list_sep c"
  shows "split_fields field out s = out @ filter (\<lambda>f. f \<noteq> '''') (go_split CHR '','' (field @ unify_sep s))"
  using assms
proof (induction field out s rule: split_fields.induct)
  case (1 field out)
  then have "CHR '','' \<notin> set field" by (auto simp: list_sep_def)
  then show ?case by (simp add: unify_sep_def go_split_free)
next
  case (2 field out c s)
  show ?case
  proof (cases "list_sep c")
    case True
    have "CHR '','' \<notin> set field" using 2(4) by (auto simp: list_sep_def)
    then have "go_split CHR '','' (field @ unify_sep (c # s)) = field # go_split CHR '','' (unify_sep s)"
      using True by (simp add: unify_sep_def go_split_append)
    with 2(1,2) True show ?thesis by (cases "field = ''''") simp_all
  next
    case False
    with 2(3) 2(4) show ?thesis by (simp add: unify_sep_def)
  qed
qed

lemma split_consensus_list_eq:
  "split_consensus_list raw = filter (\<lambda>f. f \<noteq> '''') (go_split CHR '','' (unify_sep raw))"
  using split_fields_eq [of "''''" "[]" raw]
  by (auto simp: split_consensus_list_def unify_sep_def)

lemma split_consensus_list_clean:
  "f \<in> set (split_consensus_list raw) \<Longrightarrow> f \<noteq> '''' \<and> (\<forall>c\<in>set f. \<not> list_sep c)"
proof -
  assume f: "f \<in> set (split_consensus_list raw)"
  then have "f \<noteq> ''''" "f \<in> set (go_split CHR '','' (unify_sep raw))" by (auto simp: split_consensus_list_eq)
  then have "CHR '','' \<notin> set f" "set f \<subseteq> set (unify_sep raw)" using go_split_no_sep go_split_subset by blast+
  moreover have "\<forall>c\<in>set (unify_sep raw). list_sep c \<longrightarrow> c = CHR '',''" by (auto simp: unify_sep_def)
  ultimately show ?thesis using \<open>f \<noteq> ''''\<close> by blast
qed

text \<open>All or nothing: the parsed ids are those of all non-blank entries, in order.\<close>

lemma parse_ids_Inr:
  "parse_consensus_node_ids pid src raws out = Inr xs \<longleftrightarrow>
     (\<exists>ys. those (map pid (filter (\<lambda>s. s \<noteq> '''') (map trim_space raws))) = Some ys \<and> xs = out @ ys)"
  by (induction pid src raws out arbitrary: xs rule: parse_consensus_node_ids.induct)
    (auto simp: Let_def split: option.splits)

lemma those_eq_Some: "those xs = Some ys \<longleftrightarrow> xs = map Some ys"
  by (induction xs arbitrary: ys) (auto split: option.splits)

text \<open>The configured entries: those of the snapshot file, or else of the two lists.\<close>

definition list_entries :: "string \<Rightarrow> string list" where
  "list_entries raw = filter (\<lambda>f. f \<noteq> '''') (go_split CHR '',''
     (map (\<lambda>c. if c \<in> {CHR 0x0A, CHR '','', CHR '' '', CHR 0x09, CHR 0x0D} then CHR '','' else c) raw))"

definition authority_entries :: "environ \<Rightarrow> (string \<Rightarrow> snap_file) \<Rightarrow> string list \<Rightarrow> string list \<Rightarrow> bool" where
  "authority_entries E read_file vs ops \<longleftrightarrow>
     (if trim_space (E ''KMS_CONSENSUS_FILE'') = '''' then
        vs = list_entries (E ''KMS_CONSENSUS_VALIDATORS'') \<and> ops = list_entries (E ''KMS_CONSENSUS_OPERATORS'')
      else \<exists>v. read_file (trim_space (E ''KMS_CONSENSUS_FILE'')) = Contents (Some v) \<and>
        decode_snapshot v = (True, \<lparr>sn_validators = vs, sn_operators = ops\<rparr>))"

text \<open>Every entry that is not blank names a node, and these are all of them, in order.\<close>

definition all_named :: "(string \<Rightarrow> 'id option) \<Rightarrow> string list \<Rightarrow> 'id list \<Rightarrow> bool" where
  "all_named pid entries xs \<longleftrightarrow> map pid (filter (\<lambda>s. s \<noteq> '''') (map trim_space entries)) = map Some xs"

lemma parse_ids_all_named: "parse_consensus_node_ids pid src raws [] = Inr xs \<longleftrightarrow> all_named pid raws xs"
  by (simp add: parse_ids_Inr all_named_def those_eq_Some)

lemma split_list_entries: "split_consensus_list raw = list_entries raw"
  by (simp add: split_consensus_list_eq list_entries_def unify_sep_def list_sep_def)

lemma load_snapshot_Inr:
  assumes "load_consensus_snapshot pid E read_file = Inr (xs, ys)" "xs \<noteq> []"
  shows "\<exists>vs ops. authority_entries E read_file vs ops \<and> all_named pid vs xs \<and> all_named pid ops ys"
proof (cases "trim_space (E ''KMS_CONSENSUS_FILE'') = ''''")
  case True
  with assms(1) show ?thesis
    by (auto simp: load_consensus_snapshot_def parse_both_def Let_def authority_entries_def split_list_entries
        parse_ids_all_named split: sum.splits)
next
  case False
  with assms obtain v where v: "read_file (trim_space (E ''KMS_CONSENSUS_FILE'')) = Contents (Some v)"
    by (auto simp: load_consensus_snapshot_def split: snap_file.splits option.splits)
  obtain ok snap where d: "decode_snapshot v = (ok, snap)" by (cases "decode_snapshot v")
  with False v assms(1) show ?thesis
    by (cases snap) (auto simp: load_consensus_snapshot_def parse_both_def Let_def authority_entries_def
        parse_ids_all_named split: sum.splits if_splits)
qed

lemma build_authorizer_Some:
  assumes "build_consensus_authorizer pid pdur new_az probe E read_file = Inr (Some az)"
  obtains vs ops validators operators ttl where "authority_entries E read_file vs ops"
    "all_named pid vs validators" "all_named pid ops operators" "validators \<noteq> []" "operators \<noteq> []"
    "new_az validators operators ttl = Inr az" "probe az (hd validators) = None"
    "(if trim_space (E ''KMS_CONSENSUS_TTL'') = '''' then ttl = 30 * 1000000000
      else pdur (trim_space (E ''KMS_CONSENSUS_TTL'')) = Some ttl)"
proof -
  from assms obtain validators operators ttl where
    l: "load_consensus_snapshot pid E read_file = Inr (validators, operators)" "validators \<noteq> []" "operators \<noteq> []"
    "new_az validators operators ttl = Inr az" "probe az (hd validators) = None"
    "(if trim_space (E ''KMS_CONSENSUS_TTL'') = '''' then ttl = 30 * 1000000000
      else pdur (trim_space (E ''KMS_CONSENSUS_TTL'')) = Some ttl)"
    by (auto simp: build_consensus_authorizer_def default_consensus_ttl_def Let_def
        split: sum.splits prod.splits if_splits option.splits)
  with load_snapshot_Inr [OF l(1,2)] that show thesis by blast
qed

end
