(* ===== verification/Lifecycle.thy ===== *)
theory Lifecycle
  imports Consensus AuditLog "HOL-Library.Multiset"
begin

text \<open>
  The life of an embedded server (\<^verbatim>\<open>embed.go\<close>, \<^verbatim>\<open>mount.go\<close>): what \<^verbatim>\<open>Embed\<close>
  acquires in which order (a log of its own, beside the handle that it returns), what
  \<^verbatim>\<open>Stop\<close> releases, the process-wide handle of
  \<^verbatim>\<open>Mount\<close> and \<^verbatim>\<open>Shutdown\<close>, and the replicator's configuration.
\<close>

section \<open>Replication\<close>

text \<open>\<open>host_of\<close> is the host that \<^verbatim>\<open>url.Parse\<close> finds, \<^const>\<open>None\<close> for an error.\<close>

definition normalize_s3_endpoint :: "(string \<Rightarrow> string option) \<Rightarrow> string \<Rightarrow> string \<times> bool" where
  [go_defs]: "normalize_s3_endpoint host_of raw =
     (let use_ssl = (\<not> prefix ''http://'' raw) in
      if sublist ''://'' raw then
        (case host_of raw of
           None \<Rightarrow> (raw, use_ssl)
         | Some h \<Rightarrow> if h = '''' then (raw, use_ssl) else (h, use_ssl))
      else (trim_right_byte CHR ''/'' raw, use_ssl))"

record replicator_config =
  rc_endpoint :: string
  rc_bucket :: string
  rc_region :: string
  rc_access :: string
  rc_secret :: string
  rc_ssl :: bool
  rc_path :: string

definition replicator_config_of :: "(string \<Rightarrow> string option) \<Rightarrow> environ \<Rightarrow> string \<Rightarrow> replicator_config option" where
  [go_defs]: "replicator_config_of host_of E node =
     (if E ''REPLICATE_S3_ENDPOINT'' = '''' then None
      else
        case normalize_s3_endpoint host_of (E ''REPLICATE_S3_ENDPOINT'') of (endpoint, use_ssl) \<Rightarrow>
          Some \<lparr>rc_endpoint = endpoint,
            rc_bucket = env_or E ''REPLICATE_S3_BUCKET'' ''hanzo-kms-backups'',
            rc_region = env_or E ''REPLICATE_S3_REGION'' ''us-central1'',
            rc_access = first_non_empty [E ''REPLICATE_S3_ACCESS_KEY_ID'', E ''AWS_ACCESS_KEY_ID'',
              E ''REPLICATE_S3_ACCESS_KEY''],
            rc_secret = first_non_empty [E ''REPLICATE_S3_SECRET_ACCESS_KEY'', E ''AWS_SECRET_ACCESS_KEY'',
              E ''REPLICATE_S3_SECRET_KEY''],
            rc_ssl = use_ssl,
            rc_path = env_or E ''REPLICATE_S3_PATH'' (env_or E ''REPLICATE_PATH'' (''kms/'' @ node))\<rparr>)"

text \<open>\<open>new_ok\<close>: the database library accepts the configuration.  A refusal disables replication.\<close>

definition start_replicator ::
    "(replicator_config \<Rightarrow> bool) \<Rightarrow> (string \<Rightarrow> string option) \<Rightarrow> environ \<Rightarrow> string \<Rightarrow> replicator_config option" where
  [go_defs]: "start_replicator new_ok host_of E node =
     (case replicator_config_of host_of E node of
        None \<Rightarrow> None
      | Some rc \<Rightarrow> if \<not> new_ok rc then None else Some rc)"

section \<open>The handle\<close>

text \<open>
  What \<^verbatim>\<open>Embed\<close> opens or starts: the listener, the ZAP node, the replicator, the audit writer
  (released by cancelling its context) and the database, in the order in which \<^verbatim>\<open>Stop\<close>
  releases them; then the two that no handle refers to, the audit log's SQL database and the
  client of the MPC daemon.
\<close>

datatype resource = Http | Zap | Replicator | Auditor | Database | AuditDb | MpcClient

text \<open>The order of the constructors: what faces the network before what it stands on.\<close>

primrec resource_rank :: "resource \<Rightarrow> nat" where
  "resource_rank Http = 0"
| "resource_rank Zap = 1"
| "resource_rank Replicator = 2"
| "resource_rank Auditor = 3"
| "resource_rank Database = 4"
| "resource_rank AuditDb = 5"
| "resource_rank MpcClient = 6"

lemma resource_rank_inj: "resource_rank r = resource_rank r' \<longleftrightarrow> r = r'"
  by (cases r; cases r') simp_all

instantiation resource :: linorder
begin

definition less_eq_resource :: "resource \<Rightarrow> resource \<Rightarrow> bool" where
  "less_eq_resource r r' \<longleftrightarrow> resource_rank r \<le> resource_rank r'"

definition less_resource :: "resource \<Rightarrow> resource \<Rightarrow> bool" where
  "less_resource r r' \<longleftrightarrow> resource_rank r < resource_rank r'"

instance
  by standard (auto simp: less_eq_resource_def less_resource_def resource_rank_inj)

end

record handle =
  em_http :: bool
  em_zap :: bool
  em_replicator :: bool
  em_audit_cancel :: bool
  em_db :: bool
  em_zap_port :: int64
  em_keys_on :: bool

definition held :: "handle \<Rightarrow> resource list" where
  "held h = (if em_http h then [Http] else []) @ (if em_zap h then [Zap] else []) @
     (if em_replicator h then [Replicator] else []) @ (if em_audit_cancel h then [Auditor] else []) @
     (if em_db h then [Database] else [])"

text \<open>\<open>log\<close> records the releases in their order.  A handle may be nil.\<close>

definition stop :: "handle option \<Rightarrow> resource list \<Rightarrow> handle option \<times> resource list" where
  [go_defs]: "stop e log =
     (case e of
        None \<Rightarrow> (None, log)
      | Some h \<Rightarrow>
          let (h1, l1) = (if em_http h then (h\<lparr>em_http := False\<rparr>, log @ [Http]) else (h, log));
              (h2, l2) = (if em_zap h1 then (h1\<lparr>em_zap := False\<rparr>, l1 @ [Zap]) else (h1, l1));
              (h3, l3) = (if em_replicator h2 then (h2\<lparr>em_replicator := False\<rparr>, l2 @ [Replicator]) else (h2, l2));
              (h4, l4) = (if em_audit_cancel h3 then (h3\<lparr>em_audit_cancel := False\<rparr>, l3 @ [Auditor]) else (h3, l3));
              (h5, l5) = (if em_db h4 then (h4\<lparr>em_db := False\<rparr>, l4 @ [Database]) else (h4, l4))
          in (Some h5, l5))"

definition zap_port_of :: "handle option \<Rightarrow> int64" where
  [go_defs]: "zap_port_of e = (case e of None \<Rightarrow> 0 | Some h \<Rightarrow> if \<not> em_zap h then 0 else em_zap_port h)"

section \<open>Boot\<close>

text \<open>
  How the libraries answer: creating the directory, opening the database, opening the audit
  log's database and creating its tables, creating the replicator, the MPC client and the key store, and starting the ZAP node.
\<close>

record boot_env =
  be_mkdir_ok :: bool
  be_open_ok :: bool
  be_audit_open_ok :: bool
  be_audit_schema_ok :: bool
  be_replicator_ok :: bool
  be_mpc_ok :: bool
  be_key_store_ok :: bool
  be_zap_node_ok :: bool

text \<open>
  Whether the key routes are registered: no vault and no MPC client leave them out, a key
  store that cannot be opened ends the process.  Each step also tells what it acquired.
\<close>

datatype key_setup = KeysOff | KeysFatal | KeysOn

definition register_key_routes :: "boot_env \<Rightarrow> key_setup \<times> resource list" where
  [go_defs]: "register_key_routes be =
     (if \<not> be_mpc_ok be then (KeysOff, [])
      else if \<not> be_key_store_ok be then (KeysFatal, [MpcClient])
      else (KeysOn, [MpcClient]))"

definition setup_keys :: "boot_env \<Rightarrow> embed_config \<Rightarrow> key_setup \<times> resource list" where
  [go_defs]: "setup_keys be cfg = (if mpc_vault_id cfg \<noteq> '''' then register_key_routes be else (KeysOff, []))"

text \<open>\<^verbatim>\<open>newAuditor\<close> closes the database again when its tables cannot be created.\<close>

definition start_auditor :: "boot_env \<Rightarrow> resource list" where
  [go_defs]: "start_auditor be =
     (case new_auditor (be_audit_open_ok be) (be_audit_schema_ok be) True of None \<Rightarrow> [] | Some a \<Rightarrow> [AuditDb])"

definition start_zap_secret_server :: "boot_env \<Rightarrow> ('e + 'a option) \<Rightarrow> environ \<Rightarrow> embed_config \<Rightarrow> 'a zap_outcome" where
  [go_defs]: "start_zap_secret_server be authorizer E cfg =
     (case zap_boot E cfg authorizer of
        ZapStart key az \<Rightarrow> if \<not> be_zap_node_ok be then ZapDisabled else ZapStart key az
      | out \<Rightarrow> out)"

datatype embed_result = Refused boot_err | NoDir | NoDatabase | Fatal | Booted handle auth_state

text \<open>A fatal error ends the process, and with it everything that was acquired.\<close>

definition embed ::
    "(string \<Rightarrow> string option) \<Rightarrow> boot_env \<Rightarrow> (snap_err + 'a option) \<Rightarrow> environ \<Rightarrow> embed_config \<Rightarrow>
     embed_result \<times> resource list" where
  [go_defs]: "embed host_of be authorizer E cfg0 =
     (case embed_configure E cfg0 of
        Inl err \<Rightarrow> (Refused err, [])
      | Inr (cfg, st) \<Rightarrow>
          if \<not> be_mkdir_ok be then (NoDir, [])
          else if \<not> be_open_ok be then (NoDatabase, [])
          else
            let got = [Database];
                repl = start_replicator (\<lambda>rc. be_replicator_ok be) host_of E (node_id cfg);
                got = got @ (case repl of None \<Rightarrow> [] | Some rc \<Rightarrow> [Replicator]);
                got = got @ [Auditor] @ start_auditor be
            in
            (case setup_keys be cfg of
               (KeysFatal, _) \<Rightarrow> (Fatal, [])
             | (keys, got_keys) \<Rightarrow>
                 (case start_zap_secret_server be authorizer E cfg of
                    ZapFatal \<Rightarrow> (Fatal, [])
                  | zap \<Rightarrow>
                      let got = got @ got_keys @ (case zap of ZapStart key az \<Rightarrow> [Zap] | _ \<Rightarrow> []);
                          got = got @ (if \<not> skip_listen cfg then [Http] else [])
                      in
                      (Booted \<lparr>em_http = \<not> skip_listen cfg, em_zap = (zap \<noteq> ZapDisabled), em_replicator = (repl \<noteq> None),
                         em_audit_cancel = True, em_db = True, em_zap_port = zap_port cfg,
                         em_keys_on = (keys = KeysOn)\<rparr> st, got))))"

section \<open>Mounting\<close>

text \<open>
  The process: the mounted handle, the routes attached to the parent, and what its mounts
  acquired and its shutdowns released, each in order.
\<close>

datatype mount_route = HealthRoute | ReadyRoute | KmsPrefix | HealthzPrefix

record process =
  ps_mounted :: "handle option"
  ps_routes :: "mount_route list"
  ps_acquired :: "resource list"
  ps_log :: "resource list"

definition mount_config :: "string \<Rightarrow> embed_config" where
  [go_defs]: "mount_config dir =
     \<lparr>data_dir = trim_right_byte CHR ''/'' dir @ ''/kms'', http_addr = '''', iam_endpoint = '''', jwks_url = '''',
      jwt_key_source = '''', zap_port = 0, node_id = '''', cfg_env = '''', expected_issuer = '''',
      expected_audience = '''', mpc_addr = '''', mpc_vault_id = '''', audit_db = '''', skip_listen = True\<rparr>"

text \<open>\<open>boot\<close> is \<^const>\<open>embed\<close> applied to the process's surroundings.\<close>

definition mount :: "(embed_config \<Rightarrow> embed_result \<times> resource list) \<Rightarrow> string \<Rightarrow> process \<Rightarrow> bool \<times> process" where
  [go_defs]: "mount boot dir p =
     (let p1 = p\<lparr>ps_routes := ps_routes p @ [HealthRoute, ReadyRoute]\<rparr> in
      case boot (mount_config dir) of
        (Booted h st, got) \<Rightarrow>
          (True, p1\<lparr>ps_mounted := Some h, ps_routes := ps_routes p1 @ [KmsPrefix, HealthzPrefix],
             ps_acquired := ps_acquired p1 @ got\<rparr>)
      | (_, got) \<Rightarrow> (False, p1\<lparr>ps_acquired := ps_acquired p1 @ got\<rparr>))"

definition health_status :: "process \<Rightarrow> nat" where
  [go_defs]: "health_status p = 200"

definition readyz_status :: "process \<Rightarrow> nat" where
  [go_defs]: "readyz_status p = (case ps_mounted p of None \<Rightarrow> 503 | Some _ \<Rightarrow> 200)"

definition shutdown :: "process \<Rightarrow> process" where
  [go_defs]: "shutdown p =
     (case ps_mounted p of
        None \<Rightarrow> p
      | Some h \<Rightarrow> (case stop (Some h) (ps_log p) of (_, l) \<Rightarrow> p\<lparr>ps_log := l, ps_mounted := None\<rparr>))"

text \<open>
  The registry entry: \<open>app_ok\<close> tells whether the parent application has the expected type.
\<close>

definition register_kms :: "(embed_config \<Rightarrow> embed_result \<times> resource list) \<Rightarrow> bool \<Rightarrow> string \<Rightarrow> process \<Rightarrow> bool \<times> process" where
  [go_defs]: "register_kms boot app_ok dir p = (if \<not> app_ok then (False, p) else mount boot dir p)"

section \<open>Facts\<close>

lemma stop_releases:
  "stop (Some h) log =
     (Some (h\<lparr>em_http := False, em_zap := False, em_replicator := False, em_audit_cancel := False, em_db := False\<rparr>),
      log @ held h)"
  by (cases "em_http h"; cases "em_zap h"; cases "em_replicator h"; cases "em_audit_cancel h"; cases "em_db h")
    (simp_all add: stop_def held_def)

lemma held_released:
  "held (h\<lparr>em_http := False, em_zap := False, em_replicator := False, em_audit_cancel := False, em_db := False\<rparr>) = []"
  by (simp add: held_def)

lemma stop_idem: "stop e log = (e', log') \<Longrightarrow> stop e' log' = (e', log')"
  by (cases e) (auto simp: stop_releases held_released, simp add: stop_def)

text \<open>One \<^verbatim>\<open>Stop\<close> releases each resource once, the network's before the storage's.\<close>

lemma held_sorted: "sorted_wrt (<) (held h)"
  by (auto simp: held_def less_resource_def)

lemma embed_Booted:
  assumes "embed host_of be authorizer E cfg0 = (Booted h st, got)"
  obtains cfg where "embed_configure E cfg0 = Inr (cfg, st)" "em_http h \<longleftrightarrow> \<not> skip_listen cfg"
    "em_zap h \<Longrightarrow> \<exists>key a. zap_boot E cfg authorizer = ZapStart key a"
    "em_replicator h \<Longrightarrow> E ''REPLICATE_S3_ENDPOINT'' \<noteq> ''''"
    "em_audit_cancel h" "em_db h" "em_zap_port h = zap_port cfg" "em_keys_on h \<Longrightarrow> mpc_vault_id cfg \<noteq> ''''"
  using assms
  by (auto simp: embed_def Let_def start_replicator_def replicator_config_of_def setup_keys_def register_key_routes_def
      start_zap_secret_server_def
      split: sum.splits prod.splits if_splits zap_outcome.splits key_setup.splits option.splits)

lemma mount_failed:
  "mount boot dir p = (False, p') \<Longrightarrow> ps_mounted p' = ps_mounted p \<and> ps_log p' = ps_log p"
  by (auto simp: mount_def Let_def split: embed_result.splits prod.splits)

lemma shutdown_idem: "shutdown (shutdown p) = shutdown p"
  by (auto simp: shutdown_def split: option.splits prod.splits)

text \<open>What is acquired and not referred to by any handle: nothing ever releases these.\<close>

definition never_released :: "resource set" where
  "never_released = {AuditDb, MpcClient}"

lemma embed_accounts:
  assumes "embed host_of be authorizer E cfg0 = (out, got)"
  shows "mset (filter (\<lambda>r. r \<notin> never_released) got) = (case out of Booted h st \<Rightarrow> mset (held h) | _ \<Rightarrow> {#})"
  using assms
  by (auto simp: embed_def Let_def setup_keys_def register_key_routes_def start_auditor_def
      never_released_def held_def start_zap_secret_server_def
      split: sum.splits prod.splits if_splits zap_outcome.splits key_setup.splits option.splits)

text \<open>A life of the process: mounts, each in its own surroundings, and shutdowns in any order.\<close>

record 'a surroundings =
  su_host_of :: "string \<Rightarrow> string option"
  su_boot :: boot_env
  su_authorizer :: "snap_err + 'a option"
  su_environ :: environ

definition embed_in :: "'a surroundings \<Rightarrow> embed_config \<Rightarrow> embed_result \<times> resource list" where
  [go_defs]: "embed_in y = embed (su_host_of y) (su_boot y) (su_authorizer y) (su_environ y)"

datatype 'a life_event = DoMount "'a surroundings" string | DoShutdown

fun life :: "process \<Rightarrow> 'a life_event \<Rightarrow> process" where
  "life p (DoMount y dir) = snd (mount (embed_in y) dir p)"
| "life p DoShutdown = shutdown p"

definition outstanding :: "process \<Rightarrow> resource list" where
  "outstanding p = (case ps_mounted p of None \<Rightarrow> [] | Some h \<Rightarrow> held h)"

definition fresh_process :: process where
  [go_defs]: "fresh_process = \<lparr>ps_mounted = None, ps_routes = [], ps_acquired = [], ps_log = []\<rparr>"

text \<open>A well-behaved parent does not mount again before it has shut down.\<close>

fun well_used :: "process \<Rightarrow> 'a life_event list \<Rightarrow> bool" where
  "well_used p [] \<longleftrightarrow> True"
| "well_used p (ev # evs) \<longleftrightarrow> (ev = DoShutdown \<or> ps_mounted p = None) \<and> well_used (life p ev) evs"

text \<open>
  The two sides of the account: what was acquired and can be released, and what was released
  or is held by the mounted handle.
\<close>

definition releasable :: "process \<Rightarrow> resource multiset" where
  "releasable p = mset (filter (\<lambda>r. r \<notin> never_released) (ps_acquired p))"

definition accounted :: "process \<Rightarrow> resource multiset" where
  "accounted p = mset (ps_log p) + mset (outstanding p)"

lemma life_shutdown:
  "ps_log (shutdown p) = ps_log p @ outstanding p" "outstanding (shutdown p) = []"
  "ps_acquired (shutdown p) = ps_acquired p"
  by (simp_all add: shutdown_def outstanding_def stop_releases split: option.splits)

lemma held_never: "set (held h) \<inter> never_released = {}"
  by (simp add: held_def never_released_def)

lemma outstanding_sorted: "sorted_wrt (<) (outstanding p)" "set (outstanding p) \<inter> never_released = {}"
  by (cases "ps_mounted p"; simp add: outstanding_def held_sorted held_never)+

lemma life_mount:
  fixes y :: "'a surroundings"
  defines "q p dir \<equiv> life p (DoMount y dir)"
  shows "ps_log (q p dir) = ps_log p \<and>
    (ps_mounted (q p dir) = ps_mounted p \<and> releasable (q p dir) = releasable p \<or>
     (\<exists>h. ps_mounted (q p dir) = Some h \<and> releasable (q p dir) = releasable p + mset (held h)))"
proof -
  obtain out got where e: "embed_in y (mount_config dir) = (out, got)" by (cases "embed_in y (mount_config dir)")
  note acc = embed_accounts [OF e [unfolded embed_in_def]]
  show ?thesis
  proof (cases out)
    case (Booted h st)
    with e acc show ?thesis by (simp add: q_def mount_def releasable_def)
  qed (use e acc in \<open>simp_all add: q_def mount_def Let_def releasable_def\<close>)
qed

lemma life_step:
  "\<exists>X. releasable (life p ev) = releasable p + X \<and> accounted (life p ev) \<subseteq># accounted p + X \<and>
     (ev = DoShutdown \<or> ps_mounted p = None \<longrightarrow> accounted (life p ev) = accounted p + X)"
proof (cases ev)
  case (DoMount y dir)
  note life.simps [simp del]
  from life_mount [of p y dir] consider
    (failed) "ps_log (life p ev) = ps_log p" "ps_mounted (life p ev) = ps_mounted p" "releasable (life p ev) = releasable p"
  | (mounted) h where "ps_log (life p ev) = ps_log p" "ps_mounted (life p ev) = Some h"
      "releasable (life p ev) = releasable p + mset (held h)"
    unfolding DoMount by blast
  then show ?thesis
  proof cases
    case failed
    then show ?thesis by (simp add: accounted_def outstanding_def)
  next
    case mounted
    then show ?thesis
      by (intro exI [of _ "mset (held h)"]) (simp add: accounted_def outstanding_def DoMount)
  qed
next
  case DoShutdown
  then show ?thesis by (simp add: accounted_def life_shutdown releasable_def)
qed

lemma life_balance:
  "accounted p \<subseteq># releasable p \<Longrightarrow> accounted (foldl life p evs) \<subseteq># releasable (foldl life p evs)"
proof (induction evs arbitrary: p)
  case (Cons ev evs)
  obtain X where "releasable (life p ev) = releasable p + X" "accounted (life p ev) \<subseteq># accounted p + X"
    using life_step [of p ev] by blast
  with Cons.prems have "accounted (life p ev) \<subseteq># releasable (life p ev)"
    by (metis subset_mset.add_right_mono subset_mset.order_trans)
  from Cons.IH [OF this] show ?case by simp
qed simp

lemma life_balance_exact:
  "well_used p evs \<Longrightarrow> accounted p = releasable p \<Longrightarrow> accounted (foldl life p evs) = releasable (foldl life p evs)"
proof (induction evs arbitrary: p)
  case (Cons ev evs)
  from Cons.prems life_step [of p ev] have "accounted (life p ev) = releasable (life p ev)" by auto
  with Cons.IH [of "life p ev"] Cons.prems show ?case by simp
qed simp

text \<open>Each event appends to the releases, and never one of those two.\<close>

lemma life_releases: "\<exists>rel. ps_log (life p ev) = ps_log p @ rel \<and> set rel \<inter> never_released = {}"
proof (cases ev)
  case (DoMount y dir)
  then show ?thesis using life_mount [of p y dir] by simp
next
  case DoShutdown
  then show ?thesis using outstanding_sorted(2) [of p] by (simp add: life_shutdown)
qed

lemma never_logged: "set (ps_log p) \<inter> never_released = {} \<Longrightarrow> set (ps_log (foldl life p evs)) \<inter> never_released = {}"
proof (induction evs arbitrary: p)
  case (Cons ev evs)
  obtain rel where "ps_log (life p ev) = ps_log p @ rel" "set rel \<inter> never_released = {}"
    using life_releases by blast
  with Cons.prems have "set (ps_log (life p ev)) \<inter> never_released = {}" by auto
  from Cons.IH [OF this] show ?case by simp
qed simp

end
