(* ===== verification/Demo.thy ===== *)
theory Demo
  imports Mux Lifecycle
begin

text \<open>
  A concrete deployment for the witnesses: the in-memory store, a token table with a tenant
  and an administrator, an identity provider that serves one signing key, and request
  builders.
\<close>

definition demo_fetch :: fetcher where
  [go_defs]: "demo_fetch now url = Inr (200, Some (JObj [(''keys'', JArr
     [JObj [(''kty'', JStr ''RSA''), (''kid'', JStr ''k1''), (''n'', JStr ''AQ''), (''e'', JStr ''AQAB'')]])]))"

definition demo_key :: rsa_key where
  [go_defs]: "demo_key = \<lparr>rk_n = 1, rk_e = 65537\<rparr>"

definition demo_token :: "string \<Rightarrow> string \<Rightarrow> json list \<Rightarrow> jwt_token" where
  [go_defs]: "demo_token sub owner roles =
     \<lparr>tok_alg = Some ''RS256'', tok_header = [(''kid'', JStr ''k1'')],
      tok_claims = Some [(''iss'', JStr ''iam''), (''aud'', JStr ''kms''), (''exp'', JInt 9),
        (''sub'', JStr sub), (''owner'', JStr owner), (''roles'', JArr roles)],
      tok_valid = False\<rparr>"

definition demo_table :: "(string \<times> jwt_token \<times> rsa_key) list" where
  [go_defs]: "demo_table =
     [(''acme'', demo_token ''svc_a'' ''acme'' [], demo_key),
      (''root'', demo_token ''usr_r'' ''hanzo'' [JStr ''superadmin''], demo_key)]"

definition demo_pf :: "mem platform" where
  [go_defs]: "demo_pf = \<lparr>pf_ops = mem_ops, pf_parse = table_parse demo_table, pf_fetch = demo_fetch\<rparr>"

definition demo_auth :: auth_state where
  [go_defs]: "demo_auth = \<lparr>as_issuer = Some ''iam'', as_audience = Some ''kms'',
     
     as_jwks = Some \<lparr>jc_url = ''u'', jc_keys = [(''k1'', demo_key)], jc_expiry = 900\<rparr>\<rparr>"

definition demo_world :: "mem world" where
  [go_defs]: "demo_world = \<lparr>w_db = [], w_auth = demo_auth, w_audit = new_auditor True True True\<rparr>"

definition demo_req :: "string \<Rightarrow> string \<Rightarrow> (string \<times> string) list \<Rightarrow> (string \<times> string) list \<Rightarrow> json \<Rightarrow> request" where
  [go_defs]: "demo_req meth tok vals query body =
     \<lparr>rq_method = meth, rq_path = ''/'', rq_vals = vals, rq_query = query,
      rq_headers = [(''Authorization'', ''Bearer '' @ tok), (''If-Match'', ''1'')],
      rq_body = Some (9, body), rq_remote = ''''\<rparr>"

definition demo_put :: request where
  [go_defs]: "demo_put = demo_req ''POST'' ''acme'' [(''org'', ''acme'')] []
     (JObj [(''path'', JStr ''p''), (''name'', JStr ''n''), (''env'', JStr ''prod''), (''value'', JStr ''v1'')])"

definition demo_get :: request where
  [go_defs]: "demo_get = demo_req ''GET'' ''acme'' [(''org'', ''acme''), (''rest'', ''p/n'')] [(''env'', ''prod'')] JNull"

definition demo_patch :: request where
  [go_defs]: "demo_patch = demo_req ''PATCH'' ''acme'' [(''org'', ''acme''), (''rest'', ''p/n'')] []
     (JObj [(''env'', JStr ''prod''), (''value'', JStr ''v2'')])"

definition demo_after_put :: "mem world" where
  [go_defs]: "demo_after_put = snd (put_secret demo_pf 5 demo_put demo_world)"

definition demo_segs :: "string list" where
  [go_defs]: "demo_segs = [''v1'', ''kms'', ''orgs'', ''acme'', ''secrets'']"

definition demo_km :: "(unit, unit) key_platform" where
  [go_defs]: "demo_km = \<lparr>km_decode_generate = (\<lambda>v. (False, \<lparr>gr_validator_id = '''', gr_threshold = 0, gr_parties = 0\<rparr>)),
     km_decode_sign = (\<lambda>v. (False, \<lparr>sr_key_type = '''', sr_message = ''''\<rparr>)),
     km_decode_rotate = (\<lambda>v. (False, ())), km_generate = (\<lambda>m q. (Inl '''', m)), km_list = (\<lambda>m. None),
     km_get = (\<lambda>m i. Inl ''''), km_sign_bls = (\<lambda>m i b. Inl ''''), km_sign_corona = (\<lambda>m i b. Inl ''''),
     km_rotate = (\<lambda>m i q. (Inl '''', m)), km_status = (\<lambda>m. Inl '''')\<rparr>"

definition demo_server :: "(mem, unit, unit) server" where
  [go_defs]: "demo_server = \<lparr>sv_pf = demo_pf, sv_km = demo_km, sv_keys_on = True,
     sv_iam = (\<lambda>url form. None), sv_iam_endpoint = '''', sv_environ = (\<lambda>k. ''''),
     sv_exists = (\<lambda>f. False), sv_version = ''dev''\<rparr>"

definition demo_after_patch :: "mem world" where
  [go_defs]: "demo_after_patch = snd (patch_secret demo_pf 6 demo_patch demo_after_put)"

definition demo_del :: request where
  [go_defs]: "demo_del = demo_req ''DELETE'' ''acme'' [(''org'', ''acme''), (''rest'', ''p/n'')] [(''env'', ''prod'')] JNull"

definition demo_list :: request where
  [go_defs]: "demo_list = demo_req ''GET'' ''acme'' [(''org'', ''acme'')] [] JNull"

text \<open>A boot in surroundings where every library call succeeds.\<close>

definition demo_config :: embed_config where
  "demo_config = \<lparr>data_dir = '''', http_addr = '''', iam_endpoint = '''', jwks_url = '''',
     jwt_key_source = '''', zap_port = 0, node_id = '''', cfg_env = '''', expected_issuer = '''',
     expected_audience = '''', mpc_addr = '''', mpc_vault_id = '''', audit_db = '''', skip_listen = True\<rparr>"

definition demo_environ :: environ where
  "demo_environ k = (if k \<in> {''IAM_URL'', ''IAM_ISSUER'', ''IAM_AUDIENCE'', ''IAM_KEYS_URL''} then ''x'' else '''')"

definition demo_boot_env :: boot_env where
  "demo_boot_env = \<lparr>be_mkdir_ok = True, be_open_ok = True, be_audit_open_ok = True,
     be_audit_schema_ok = True, be_replicator_ok = True, be_mpc_ok = True,
     be_key_store_ok = True, be_zap_node_ok = True\<rparr>"

text \<open>A world that already holds a record in the tenant's namespace.\<close>

definition demo_put_ns :: request where
  [go_defs]: "demo_put_ns = demo_req ''POST'' ''acme'' [(''org'', ''acme'')] []
     (JObj [(''path'', JStr ''brand/acme''), (''name'', JStr ''n''), (''env'', JStr ''prod''), (''value'', JStr ''v1'')])"

definition demo_ns_world :: "mem world" where
  [go_defs]: "demo_ns_world = snd (put_secret demo_pf 5 demo_put_ns demo_world)"

end
