(* ===== verification/Url.thy ===== *)
theory Url
  imports Codec
begin

text \<open>
  \<^verbatim>\<open>url.PathEscape\<close>, \<^verbatim>\<open>url.QueryEscape\<close> and their inverses in Go's
  \<^verbatim>\<open>net/url\<close>, with which the clients build their request paths.  An escaped segment
  contains no slash, question mark or hash, so a slug or a key can neither add a path segment
  nor start a query; and unescaping gives it back.
\<close>

definition alnum :: "char \<Rightarrow> bool" where
  [go_defs]: "alnum c \<longleftrightarrow>
     (CHR ''a'' \<le> c \<and> c \<le> CHR ''z'') \<or> (CHR ''A'' \<le> c \<and> c \<le> CHR ''Z'') \<or>
     (CHR ''0'' \<le> c \<and> c \<le> CHR ''9'')"

definition segment_byte :: "char \<Rightarrow> bool" where
  [go_defs]: "segment_byte c \<longleftrightarrow> alnum c \<or> c \<in> set ''-_.~$&+:=@''"

definition hex_digits :: string where
  [go_defs]: "hex_digits = ''0123456789ABCDEF''"

definition percent :: "char \<Rightarrow> string" where
  [go_defs]: "percent c = [CHR ''%'', hex_digits ! (of_char c div 16), hex_digits ! (of_char c mod 16)]"

definition path_escape :: "string \<Rightarrow> string" where
  [go_defs]: "path_escape s = concat (map (\<lambda>c. if segment_byte c then [c] else percent c) s)"

definition query_escape :: "string \<Rightarrow> string" where
  [go_defs]: "query_escape s = concat (map (\<lambda>c.
     if alnum c \<or> c \<in> set ''-_.~'' then [c] else if c = CHR '' '' then ''+'' else percent c) s)"

definition unhex :: "char \<Rightarrow> nat option" where
  [go_defs]: "unhex c =
     (if CHR ''0'' \<le> c \<and> c \<le> CHR ''9'' then Some (of_char c - 48)
      else if CHR ''a'' \<le> c \<and> c \<le> CHR ''f'' then Some (of_char c - 87)
      else if CHR ''A'' \<le> c \<and> c \<le> CHR ''F'' then Some (of_char c - 55)
      else None)"

fun path_unescape :: "string \<Rightarrow> string option" where
  "path_unescape [] = Some []"
| "path_unescape (c # s) =
     (if c = CHR ''%'' then
        (case s of
           h # l # t \<Rightarrow>
             (case (unhex h, unhex l) of
                (Some a, Some b) \<Rightarrow> map_option (Cons (char_of (16 * a + b))) (path_unescape t)
              | _ \<Rightarrow> None)
         | _ \<Rightarrow> None)
      else map_option (Cons c) (path_unescape s))"

text \<open>In a query, \<open>+\<close> stands for a blank.\<close>

fun query_unescape :: "string \<Rightarrow> string option" where
  "query_unescape [] = Some []"
| "query_unescape (c # s) =
     (if c = CHR ''%'' then
        (case s of
           h # l # t \<Rightarrow>
             (case (unhex h, unhex l) of
                (Some a, Some b) \<Rightarrow> map_option (Cons (char_of (16 * a + b))) (query_unescape t)
              | _ \<Rightarrow> None)
         | _ \<Rightarrow> None)
      else map_option (Cons (if c = CHR ''+'' then CHR '' '' else c)) (query_unescape s))"

lemma unhex_digit: "i < 16 \<Longrightarrow> unhex (hex_digits ! i) = Some i"
proof -
  have "list_all (\<lambda>i. unhex (hex_digits ! i) = Some i) [0..<16]" by code_simp
  then show "i < 16 \<Longrightarrow> ?thesis" by (simp add: list_all_iff)
qed

lemma unescape_percent:
  "path_unescape (percent c @ t) = map_option (Cons c) (path_unescape t)"
proof -
  have "of_char c div 16 < (16 :: nat)" "of_char c mod 16 < (16 :: nat)"
    by (rule less_mult_imp_div_less, simp_all add: nat_of_char_less_256)
  then show ?thesis by (simp add: percent_def unhex_digit)
qed

lemma segment_byte_percent: "segment_byte c \<Longrightarrow> c \<noteq> CHR ''%''"
  by (auto simp: segment_byte_def alnum_def)

interpretation esc: codec path_escape path_unescape "\<lambda>_. True"
proof
  fix s :: string
  show "path_unescape (path_escape s) = Some s"
  proof (induction s)
    case (Cons c s)
    have "path_escape (c # s) = (if segment_byte c then c # path_escape s else percent c @ path_escape s)"
      by (simp add: path_escape_def)
    with Cons show ?case
      by (simp add: unescape_percent segment_byte_percent split: if_split)
  qed (simp add: path_escape_def)
qed

lemma query_unescape_percent:
  "query_unescape (percent c @ t) = map_option (Cons c) (query_unescape t)"
proof -
  have "of_char c div 16 < (16 :: nat)" "of_char c mod 16 < (16 :: nat)"
    by (rule less_mult_imp_div_less, simp_all add: nat_of_char_less_256)
  then show ?thesis by (simp add: percent_def unhex_digit)
qed

interpretation qesc: codec query_escape query_unescape "\<lambda>_. True"
proof
  fix s :: string
  show "query_unescape (query_escape s) = Some s"
  proof (induction s)
    case (Cons c s)
    have "query_escape (c # s) =
        (if alnum c \<or> c \<in> set ''-_.~'' then c # query_escape s
         else if c = CHR '' '' then CHR ''+'' # query_escape s
         else percent c @ query_escape s)"
      by (simp add: query_escape_def)
    moreover have "c \<noteq> CHR ''%'' \<and> c \<noteq> CHR ''+''" if "alnum c \<or> c \<in> set ''-_.~''"
      using that by (auto simp: alnum_def)
    ultimately show ?case
      using Cons by (simp add: query_unescape_percent split: if_split)
  qed (simp add: query_escape_def)
qed

text \<open>No byte with a meaning in a URL survives.\<close>

lemma percent_bytes: "d \<in> set (percent c) \<Longrightarrow> alnum d \<or> d = CHR ''%''"
proof -
  have h: "alnum (hex_digits ! i)" if "i < 16" for i
  proof -
    have "list_all (\<lambda>i. alnum (hex_digits ! i)) [0..<16]" by code_simp
    with that show ?thesis by (simp add: list_all_iff)
  qed
  have "of_char c div 16 < (16 :: nat)" "of_char c mod 16 < (16 :: nat)"
    by (rule less_mult_imp_div_less, simp_all add: nat_of_char_less_256)
  then show "d \<in> set (percent c) \<Longrightarrow> ?thesis" by (auto simp: percent_def h)
qed

lemma path_escape_bytes: "d \<in> set (path_escape s) \<Longrightarrow> segment_byte d \<or> d = CHR ''%''"
  by (auto simp: path_escape_def segment_byte_def dest: percent_bytes split: if_splits)

lemma path_escape_free:
  "CHR ''/'' \<notin> set (path_escape s)" "CHR ''?'' \<notin> set (path_escape s)" "CHR ''#'' \<notin> set (path_escape s)"
proof -
  have "\<not> segment_byte CHR ''/''" "\<not> segment_byte CHR ''?''" "\<not> segment_byte CHR ''#''" by code_simp+
  then show "CHR ''/'' \<notin> set (path_escape s)" "CHR ''?'' \<notin> set (path_escape s)" "CHR ''#'' \<notin> set (path_escape s)"
    using path_escape_bytes by fastforce+
qed

lemma query_escape_free:
  "CHR ''&'' \<notin> set (query_escape s)" "CHR ''='' \<notin> set (query_escape s)"
  "CHR '';'' \<notin> set (query_escape s)" "CHR ''?'' \<notin> set (query_escape s)"
proof -
  have "d \<in> set (query_escape s) \<Longrightarrow> alnum d \<or> d \<in> set ''-_.~%+''" for d
    by (auto simp: query_escape_def dest: percent_bytes split: if_splits)
  moreover have "\<not> alnum CHR ''&''" "\<not> alnum CHR ''=''" "\<not> alnum CHR '';''" "\<not> alnum CHR ''?''" by code_simp+
  ultimately show "CHR ''&'' \<notin> set (query_escape s)" "CHR ''='' \<notin> set (query_escape s)"
    "CHR '';'' \<notin> set (query_escape s)" "CHR ''?'' \<notin> set (query_escape s)"
    by fastforce+
qed

lemma path_escape_plain: "list_all segment_byte s \<Longrightarrow> path_escape s = s"
  by (induction s) (auto simp: path_escape_def)

end
