(* ===== verification/Sdk.thy ===== *)
theory Sdk
  imports Base64 Url Http "HOL-Library.Multiset"
begin

text \<open>
  The zero-knowledge client SDK (\<^verbatim>\<open>sdk/go\<close>): construction, key derivation, sealing,
  the broadcast and quorum loops, and the secret operations.  The MPC nodes are remote
  services: \<open>net\<close> answers one request in a network state.  Goroutines report in some order;
  \<open>ord\<close> is the order in which the nodes' results arrive.  AES-GCM, Argon2id, HKDF, SHA-256
  and hybrid HPKE are the functions of a \<open>crypto\<close> record, the random nonces arguments.  A
  response body is the bytes with the JSON value they are, if they are one.
\<close>

section \<open>Errors, network, client\<close>

datatype sdk_err =
    Invalid string
  | BadFormat string
  | Locked
  | Transport string
  | BadStatus nat string
  | Unmarshal
  | Quorum nat nat int "sdk_err option"
  | Wrap string sdk_err

record body =
  bd_raw :: bytes
  bd_doc :: "json option"

text \<open>\<open>net method url payload state\<close>: a transport error, or status and body.\<close>

type_synonym 's net = "string \<Rightarrow> string \<Rightarrow> json option \<Rightarrow> 's \<Rightarrow> (string + nat \<times> body) \<times> 's"

record sdk_config =
  cf_nodes :: "string list"
  cf_org :: string
  cf_threshold :: int

record sdk_client =
  sc_nodes :: "string list"
  sc_threshold :: int
  sc_org :: string
  sc_cek :: "bytes option"

definition new_client :: "sdk_config \<Rightarrow> sdk_err + sdk_client" where
  [go_defs]: "new_client cfg =
     (if cf_nodes cfg = [] then Inl (Invalid ''kms: at least one node address is required'')
      else if cf_org cfg = '''' then Inl (Invalid ''kms: org slug is required'')
      else if cf_threshold cfg < 1 then Inl (Invalid ''kms: threshold must be at least 1'')
      else if cf_threshold cfg > int (length (cf_nodes cfg)) then
        Inl (Invalid (''kms: threshold '' @ dec_int (cf_threshold cfg) @ '' exceeds node count '' @
          dec_nat (length (cf_nodes cfg))))
      else Inr \<lparr>sc_nodes = cf_nodes cfg, sc_threshold = cf_threshold cfg, sc_org = cf_org cfg, sc_cek = None\<rparr>)"

definition client_ok :: "sdk_client \<Rightarrow> bool" where
  "client_ok c \<longleftrightarrow> sc_nodes c \<noteq> [] \<and> sc_org c \<noteq> '''' \<and> 1 \<le> sc_threshold c \<and>
     sc_threshold c \<le> int (length (sc_nodes c))"

section \<open>Keys and sealing\<close>

text \<open>The library functions; \<open>cr_argon2 passphrase salt time memory threads len\<close>.\<close>

record crypto =
  cr_sha256 :: "bytes \<Rightarrow> bytes"
  cr_argon2 :: "bytes \<Rightarrow> bytes \<Rightarrow> nat \<Rightarrow> nat \<Rightarrow> nat \<Rightarrow> nat \<Rightarrow> bytes"
  cr_hkdf :: "bytes \<Rightarrow> bytes \<Rightarrow> bytes \<Rightarrow> nat \<Rightarrow> string + bytes"
  cr_gcm_seal :: "bytes \<Rightarrow> bytes \<Rightarrow> bytes \<Rightarrow> bytes \<Rightarrow> bytes"
  cr_gcm_open :: "bytes \<Rightarrow> bytes \<Rightarrow> bytes \<Rightarrow> bytes \<Rightarrow> bytes option"
  cr_hpke_seal :: "bytes \<Rightarrow> bytes \<Rightarrow> bytes \<Rightarrow> string + bytes"
  cr_hpke_key :: "bytes \<Rightarrow> string + bytes"
  cr_hpke_open :: "bytes \<Rightarrow> bytes \<Rightarrow> bytes \<Rightarrow> string + bytes"

text \<open>What AEAD promises: opening what was sealed, under the same key, nonce and data.\<close>

definition aead_ok :: "crypto \<Rightarrow> bool" where
  "aead_ok cr \<longleftrightarrow>
     (\<forall>k n p a. length k = 32 \<longrightarrow> length n = 12 \<longrightarrow> cr_gcm_open cr k n (cr_gcm_seal cr k n p a) a = Some p)"

definition cek_size :: nat where
  [go_defs]: "cek_size = 32"

definition gcm_nonce_size :: nat where
  [go_defs]: "gcm_nonce_size = 12"

definition derive_salt :: "crypto \<Rightarrow> string \<Rightarrow> bytes" where
  [go_defs]: "derive_salt cr org_slug = cr_sha256 cr (org_slug @ ''hanzo-kms-cek-v1'')"

definition derive_master_key :: "crypto \<Rightarrow> string \<Rightarrow> string \<Rightarrow> sdk_err + bytes" where
  [go_defs]: "derive_master_key cr passphrase org_slug =
     (if passphrase = '''' then Inl (Invalid ''kms: passphrase must not be empty'')
      else if org_slug = '''' then Inl (Invalid ''kms: org slug must not be empty'')
      else Inr (cr_argon2 cr passphrase (derive_salt cr org_slug) 4 (256 * 1024) 2 cek_size))"

definition derive_cek :: "crypto \<Rightarrow> bytes \<Rightarrow> string \<Rightarrow> sdk_err + bytes" where
  [go_defs]: "derive_cek cr master_key org_slug =
     (if length master_key \<noteq> cek_size then
        Inl (Invalid (''kms: master key must be 32 bytes, got '' @ dec_nat (length master_key)))
      else case cr_hkdf cr master_key org_slug ''cek-aes256gcm'' cek_size of
             Inl err \<Rightarrow> Inl (Wrap ''kms: hkdf derive cek'' (Transport err))
           | Inr cek \<Rightarrow> Inr cek)"

definition wrap_cek_for_member :: "crypto \<Rightarrow> bytes \<Rightarrow> bytes \<Rightarrow> sdk_err + bytes" where
  [go_defs]: "wrap_cek_for_member cr cek pub =
     (if length cek \<noteq> cek_size then Inl (Invalid (''kms: cek must be 32 bytes, got '' @ dec_nat (length cek)))
      else if pub = [] then Inl (Invalid ''kms: member public key must not be empty'')
      else case cr_hpke_seal cr pub ''hanzo-kms-cek'' cek of
             Inl err \<Rightarrow> Inl (Wrap ''kms: wrap cek'' (Transport err))
           | Inr wrapped \<Rightarrow> Inr wrapped)"

definition unwrap_cek :: "crypto \<Rightarrow> bytes \<Rightarrow> bytes \<Rightarrow> sdk_err + bytes" where
  [go_defs]: "unwrap_cek cr wrapped priv =
     (if wrapped = [] then Inl (Invalid ''kms: wrapped cek must not be empty'')
      else if priv = [] then Inl (Invalid ''kms: member private key must not be empty'')
      else case cr_hpke_key cr priv of
             Inl err \<Rightarrow> Inl (Wrap ''kms: parse member private key'' (Transport err))
           | Inr kp \<Rightarrow>
               (case cr_hpke_open cr kp ''hanzo-kms-cek'' wrapped of
                  Inl err \<Rightarrow> Inl (Wrap ''kms: unwrap cek'' (Transport err))
                | Inr cek \<Rightarrow> Inr cek))"

definition check_key :: "bytes \<Rightarrow> sdk_err option" where
  [go_defs]: "check_key key =
     (if length key \<noteq> cek_size then
        Some (Invalid (''kms: aes-256-gcm requires 32-byte key, got '' @ dec_nat (length key)))
      else None)"

text \<open>\<open>rnd\<close> is what \<^verbatim>\<open>rand.Read\<close> gives for the nonce.\<close>

definition seal_aes_gcm :: "crypto \<Rightarrow> bytes option \<Rightarrow> bytes \<Rightarrow> bytes \<Rightarrow> bytes \<Rightarrow> sdk_err + bytes" where
  [go_defs]: "seal_aes_gcm cr rnd key plaintext aad =
     (case check_key key of
        Some err \<Rightarrow> Inl err
      | None \<Rightarrow>
          (case rnd of
             None \<Rightarrow> Inl (Wrap ''kms: generate nonce'' (Transport ''rand''))
           | Some nonce \<Rightarrow> Inr (nonce @ cr_gcm_seal cr key nonce plaintext aad)))"

definition open_aes_gcm :: "crypto \<Rightarrow> bytes \<Rightarrow> bytes \<Rightarrow> bytes \<Rightarrow> sdk_err + bytes" where
  [go_defs]: "open_aes_gcm cr key data aad =
     (case check_key key of
        Some err \<Rightarrow> Inl err
      | None \<Rightarrow>
          if length data < gcm_nonce_size then Inl (Invalid ''kms: ciphertext too short'')
          else
            (case cr_gcm_open cr key (take gcm_nonce_size data) (drop gcm_nonce_size data) aad of
               None \<Rightarrow> Inl (Wrap ''kms: decrypt'' (Transport ''cipher: message authentication failed''))
             | Some p \<Rightarrow> Inr p))"

lemma open_seal:
  assumes "aead_ok cr" "length nonce = 12" "seal_aes_gcm cr (Some nonce) key p aad = Inr box"
  shows "open_aes_gcm cr key box aad = Inr p"
  using assms
  by (auto simp: seal_aes_gcm_def open_aes_gcm_def check_key_def cek_size_def gcm_nonce_size_def aead_ok_def
      split: if_splits)

text \<open>The nonce is a visible prefix: two boxes with different nonces are different.\<close>

lemma seal_nonce_differs:
  assumes "seal_aes_gcm cr (Some n1) key p aad = Inr b1" "seal_aes_gcm cr (Some n2) key p' aad = Inr b2"
    and "length n1 = length n2" "n1 \<noteq> n2"
  shows "b1 \<noteq> b2"
  using assms by (auto simp: seal_aes_gcm_def split: option.splits)

section \<open>One node\<close>

definition post_json :: "'s net \<Rightarrow> string \<Rightarrow> json \<Rightarrow> 's \<Rightarrow> sdk_err option \<times> 's" where
  [go_defs]: "post_json net url v s =
     (case net ''POST'' url (Some v) s of
        (Inl err, s1) \<Rightarrow> (Some (Transport err), s1)
      | (Inr (status, b), s1) \<Rightarrow>
          (if status < 200 \<or> 300 \<le> status then Some (BadStatus status (bd_raw b)) else None, s1))"

definition delete_request :: "'s net \<Rightarrow> string \<Rightarrow> 's \<Rightarrow> sdk_err option \<times> 's" where
  [go_defs]: "delete_request net url s =
     (case net ''DELETE'' url None s of
        (Inl err, s1) \<Rightarrow> (Some (Transport err), s1)
      | (Inr (status, b), s1) \<Rightarrow>
          (if status < 200 \<or> 300 \<le> status then Some (BadStatus status (bd_raw b)) else None, s1))"

definition get_one :: "'s net \<Rightarrow> string \<Rightarrow> 's \<Rightarrow> (sdk_err + body) \<times> 's" where
  [go_defs]: "get_one net url s =
     (case net ''GET'' url None s of
        (Inl err, s1) \<Rightarrow> (Inl (Transport err), s1)
      | (Inr (status, b), s1) \<Rightarrow> (if status \<noteq> 200 then Inl (BadStatus status '''') else Inr b, s1))"

fun each_node :: "(string \<Rightarrow> 's \<Rightarrow> 'r \<times> 's) \<Rightarrow> string list \<Rightarrow> 's \<Rightarrow> 'r list \<times> 's" where
  "each_node f [] s = ([], s)"
| "each_node f (a # as) s =
     (case f a s of (r, s1) \<Rightarrow> (case each_node f as s1 of (rs, s2) \<Rightarrow> (r # rs, s2)))"

section \<open>Quorums\<close>

text \<open>The counting loop: \<^const>\<open>Some\<close> is a failed node.\<close>

fun tally :: "sdk_err option list \<Rightarrow> nat \<Rightarrow> sdk_err option \<Rightarrow> nat \<times> sdk_err option" where
  "tally [] successes last_err = (successes, last_err)"
| "tally (Some err # rs) successes last_err = tally rs successes (Some err)"
| "tally (None # rs) successes last_err = tally rs (Suc successes) last_err"

definition quorum_verdict :: "sdk_client \<Rightarrow> sdk_err option list \<Rightarrow> sdk_err option" where
  [go_defs]: "quorum_verdict c rs =
     (case tally rs 0 None of (successes, last_err) \<Rightarrow>
        if int successes < sc_threshold c
        then Some (Quorum successes (length (sc_nodes c)) (sc_threshold c) last_err) else None)"

definition broadcast_post ::
    "'s net \<Rightarrow> string list \<Rightarrow> sdk_client \<Rightarrow> string \<Rightarrow> json \<Rightarrow> 's \<Rightarrow> sdk_err option \<times> 's" where
  [go_defs]: "broadcast_post net ord c path v s =
     (case each_node (\<lambda>addr s.
         case post_json net (addr @ path) v s of
           (None, s1) \<Rightarrow> (None, s1)
         | (Some err, s1) \<Rightarrow> (Some (Wrap (''node '' @ addr) err), s1)) ord s of
        (rs, s1) \<Rightarrow> (quorum_verdict c rs, s1))"

text \<open>The loop that Delete, RevokeMember, DisableCompliance and RevokeBreakGlass repeat.\<close>

definition broadcast_delete ::
    "'s net \<Rightarrow> string list \<Rightarrow> sdk_client \<Rightarrow> string \<Rightarrow> 's \<Rightarrow> sdk_err option \<times> 's" where
  [go_defs]: "broadcast_delete net ord c path s =
     (case each_node (\<lambda>addr. delete_request net (addr @ path)) ord s of
        (rs, s1) \<Rightarrow> (quorum_verdict c rs, s1))"

fun quorum_loop ::
    "nat \<Rightarrow> int \<Rightarrow> (sdk_err + body) list \<Rightarrow> nat \<Rightarrow> body option \<Rightarrow> sdk_err option \<Rightarrow> sdk_err + body" where
  "quorum_loop n thr [] successes first_body last_err = Inl (Quorum successes n thr last_err)"
| "quorum_loop n thr (Inl err # rs) successes first_body last_err =
     quorum_loop n thr rs successes first_body (Some err)"
| "quorum_loop n thr (Inr b # rs) successes first_body last_err =
     (let first = (case first_body of None \<Rightarrow> b | Some f \<Rightarrow> f) in
      if thr \<le> int (Suc successes) then Inr first
      else quorum_loop n thr rs (Suc successes) (Some first) last_err)"

definition quorum_get :: "'s net \<Rightarrow> string list \<Rightarrow> sdk_client \<Rightarrow> string \<Rightarrow> 's \<Rightarrow> (sdk_err + body) \<times> 's" where
  [go_defs]: "quorum_get net ord c path s =
     (case each_node (\<lambda>addr. get_one net (addr @ path)) ord s of
        (rs, s1) \<Rightarrow> (quorum_loop (length (sc_nodes c)) (sc_threshold c) rs 0 None None, s1))"

section \<open>Lock, unlock, bootstrap, status\<close>

definition unlock_key :: "crypto \<Rightarrow> string \<Rightarrow> string \<Rightarrow> string \<Rightarrow> sdk_err + bytes \<times> bytes" where
  [go_defs]: "unlock_key cr what passphrase org =
     (case derive_master_key cr passphrase org of
        Inl err \<Rightarrow> Inl (Wrap what err)
      | Inr mk \<Rightarrow>
          (case derive_cek cr mk org of
             Inl err \<Rightarrow> Inl (Wrap what err)
           | Inr cek \<Rightarrow> Inr (mk, cek)))"

definition unlock :: "crypto \<Rightarrow> string \<Rightarrow> sdk_client \<Rightarrow> sdk_err option \<times> sdk_client" where
  [go_defs]: "unlock cr passphrase c =
     (case unlock_key cr ''kms: unlock'' passphrase (sc_org c) of
        Inl err \<Rightarrow> (Some err, c)
      | Inr (mk, cek) \<Rightarrow> (None, c\<lparr>sc_cek := Some cek\<rparr>))"

definition bootstrap ::
    "crypto \<Rightarrow> 's net \<Rightarrow> string list \<Rightarrow> string \<Rightarrow> sdk_client \<Rightarrow> 's \<Rightarrow> sdk_err option \<times> sdk_client \<times> 's" where
  [go_defs]: "bootstrap cr net ord passphrase c s =
     (case unlock_key cr ''kms: bootstrap'' passphrase (sc_org c) of
        Inl err \<Rightarrow> (Some err, c, s)
      | Inr (mk, cek) \<Rightarrow>
          (case broadcast_post net ord c ''/v1/zk/init''
             (JObj [(''org_slug'', JStr (sc_org c)), (''threshold'', JInt (sc_threshold c)),
                (''node_count'', JInt (int (length (sc_nodes c)))),
                (''recovery_verification_hash'', JStr (base64_std_encode (cr_sha256 cr mk)))]) s of
             (Some err, s1) \<Rightarrow> (Some (Wrap ''kms: bootstrap'' err), c, s1)
           | (None, s1) \<Rightarrow> (None, c\<lparr>sc_cek := Some cek\<rparr>, s1)))"

definition lock :: "sdk_client \<Rightarrow> sdk_client" where
  [go_defs]: "lock c = c\<lparr>sc_cek := None\<rparr>"

definition is_unlocked :: "sdk_client \<Rightarrow> bool" where
  [go_defs]: "is_unlocked c \<longleftrightarrow> sc_cek c \<noteq> None"

definition get_cek :: "sdk_client \<Rightarrow> sdk_err + bytes" where
  [go_defs]: "get_cek c = (case sc_cek c of None \<Rightarrow> Inl Locked | Some k \<Rightarrow> Inr k)"

record node_status =
  ns_address :: string
  ns_healthy :: bool
  ns_error :: string

definition node_health :: "'s net \<Rightarrow> string \<Rightarrow> 's \<Rightarrow> node_status \<times> 's" where
  [go_defs]: "node_health net node s =
     (case net ''GET'' (node @ ''/v1/zk/health'') None s of
        (Inl err, s1) \<Rightarrow> (\<lparr>ns_address = node, ns_healthy = False, ns_error = err\<rparr>, s1)
      | (Inr (status, b), s1) \<Rightarrow>
          (\<lparr>ns_address = node, ns_healthy = (status = 200),
            ns_error = (if status \<noteq> 200 then ''unexpected status: '' @ dec_nat status else '''')\<rparr>, s1))"

definition sdk_status :: "'s net \<Rightarrow> sdk_client \<Rightarrow> 's \<Rightarrow> node_status list \<times> 's" where
  [go_defs]: "sdk_status net c s = each_node (node_health net) (sc_nodes c) s"

section \<open>Secrets\<close>

record encrypted_secret =
  es_key :: bytes
  es_value :: bytes

definition secret_payload :: "encrypted_secret \<Rightarrow> json" where
  [go_defs]: "secret_payload es = JObj
     [(''key'', JStr (base64_std_encode (es_key es))), (''value'', JStr (base64_std_encode (es_value es)))]"

text \<open>Decoding into a \<^verbatim>\<open>[]byte\<close>: base64 text, an array of byte values, or null.\<close>

definition json_byte :: "json \<Rightarrow> char option" where
  [go_defs]: "json_byte v =
     (case v of
        JInt i \<Rightarrow> if 0 \<le> i \<and> i < 256 then Some (char_of (nat i)) else None
      | JNull \<Rightarrow> Some (char_of (0 :: nat))
      | _ \<Rightarrow> None)"

definition json_bytes :: "json \<Rightarrow> bytes option" where
  [go_defs]: "json_bytes v =
     (case v of
        JNull \<Rightarrow> Some []
      | JStr s \<Rightarrow> base64_std_decode s
      | JArr vs \<Rightarrow> those (map json_byte vs)
      | _ \<Rightarrow> None)"

definition store_bytes :: "json \<Rightarrow> (bytes \<Rightarrow> 'r) \<Rightarrow> 'r \<Rightarrow> bool \<times> 'r" where
  [go_defs]: "store_bytes v put t = (case json_bytes v of None \<Rightarrow> (False, t) | Some b \<Rightarrow> (True, put b))"

definition store_secret_field :: "string \<Rightarrow> json \<Rightarrow> encrypted_secret \<Rightarrow> bool \<times> encrypted_secret" where
  [go_defs]: "store_secret_field f v t =
     (if f = ''key'' then store_bytes v (\<lambda>b. t\<lparr>es_key := b\<rparr>) t
      else store_bytes v (\<lambda>b. t\<lparr>es_value := b\<rparr>) t)"

definition decode_secret :: "json \<Rightarrow> bool \<times> encrypted_secret" where
  [go_defs]: "decode_secret v =
     decode_struct [''key'', ''value''] store_secret_field v \<lparr>es_key = [], es_value = []\<rparr>"

text \<open>\<^verbatim>\<open>json.Unmarshal\<close>: the whole body must be one value of the right type.\<close>

definition unmarshal :: "(json \<Rightarrow> bool \<times> 'r) \<Rightarrow> body \<Rightarrow> 'r option" where
  [go_defs]: "unmarshal dec b =
     (case bd_doc b of
        None \<Rightarrow> None
      | Some v \<Rightarrow> (case dec v of (ok, t) \<Rightarrow> if ok then Some t else None))"

definition secrets_path :: "string \<Rightarrow> string" where
  [go_defs]: "secrets_path org = ''/v1/orgs/'' @ path_escape org @ ''/zk/secrets''"

definition secret_path :: "string \<Rightarrow> bytes \<Rightarrow> string" where
  [go_defs]: "secret_path org enc_key =
     secrets_path org @ ''/'' @ path_escape (base64_url_encode enc_key)"

definition sdk_set ::
    "crypto \<Rightarrow> 's net \<Rightarrow> string list \<Rightarrow> bytes option \<Rightarrow> bytes option \<Rightarrow> sdk_client \<Rightarrow>
     string \<Rightarrow> bytes \<Rightarrow> 's \<Rightarrow> sdk_err option \<times> 's" where
  [go_defs]: "sdk_set cr net ord rnd1 rnd2 c key val s =
     (case get_cek c of
        Inl err \<Rightarrow> (Some err, s)
      | Inr cek \<Rightarrow>
          (case seal_aes_gcm cr rnd1 cek key (sc_org c) of
             Inl err \<Rightarrow> (Some (Wrap ''kms: encrypt key'' err), s)
           | Inr enc_key \<Rightarrow>
               (case seal_aes_gcm cr rnd2 cek val (sc_org c) of
                  Inl err \<Rightarrow> (Some (Wrap ''kms: encrypt value'' err), s)
                | Inr enc_val \<Rightarrow>
                    broadcast_post net ord c (secrets_path (sc_org c))
                      (secret_payload \<lparr>es_key = enc_key, es_value = enc_val\<rparr>) s)))"

definition sdk_get ::
    "crypto \<Rightarrow> 's net \<Rightarrow> string list \<Rightarrow> bytes option \<Rightarrow> sdk_client \<Rightarrow> string \<Rightarrow> 's \<Rightarrow> (sdk_err + bytes) \<times> 's" where
  [go_defs]: "sdk_get cr net ord rnd c key s =
     (case get_cek c of
        Inl err \<Rightarrow> (Inl err, s)
      | Inr cek \<Rightarrow>
          (case seal_aes_gcm cr rnd cek key (sc_org c) of
             Inl err \<Rightarrow> (Inl (Wrap ''kms: encrypt key for lookup'' err), s)
           | Inr enc_key \<Rightarrow>
               (case quorum_get net ord c (secret_path (sc_org c) enc_key) s of
                  (Inl err, s1) \<Rightarrow> (Inl (Wrap ''kms: get secret'' err), s1)
                | (Inr b, s1) \<Rightarrow>
                    (case unmarshal decode_secret b of
                       None \<Rightarrow> (Inl (Wrap ''kms: unmarshal secret response'' Unmarshal), s1)
                     | Some es \<Rightarrow>
                         (case open_aes_gcm cr cek (es_value es) (sc_org c) of
                            Inl err \<Rightarrow> (Inl (Wrap ''kms: decrypt value'' err), s1)
                          | Inr p \<Rightarrow> (Inr p, s1))))))"

definition sdk_delete ::
    "crypto \<Rightarrow> 's net \<Rightarrow> string list \<Rightarrow> bytes option \<Rightarrow> sdk_client \<Rightarrow> string \<Rightarrow> 's \<Rightarrow> sdk_err option \<times> 's" where
  [go_defs]: "sdk_delete cr net ord rnd c key s =
     (case get_cek c of
        Inl err \<Rightarrow> (Some err, s)
      | Inr cek \<Rightarrow>
          (case seal_aes_gcm cr rnd cek key (sc_org c) of
             Inl err \<Rightarrow> (Some (Wrap ''kms: encrypt key for delete'' err), s)
           | Inr enc_key \<Rightarrow>
               (case broadcast_delete net ord c (secret_path (sc_org c) enc_key) s of
                  (Some err, s1) \<Rightarrow> (Some (Wrap ''kms: delete'' err), s1)
                | (None, s1) \<Rightarrow> (None, s1))))"

definition store_list_field :: "string \<Rightarrow> json \<Rightarrow> encrypted_secret list \<Rightarrow> bool \<times> encrypted_secret list" where
  [go_defs]: "store_list_field f v t =
     (case v of
        JNull \<Rightarrow> (True, [])
      | JArr vs \<Rightarrow> (list_all (\<lambda>v. fst (decode_secret v)) vs, map (\<lambda>v. snd (decode_secret v)) vs)
      | _ \<Rightarrow> (False, t))"

definition decode_secret_list :: "json \<Rightarrow> bool \<times> encrypted_secret list" where
  [go_defs]: "decode_secret_list v = decode_struct [''secrets''] store_list_field v []"

fun open_names :: "crypto \<Rightarrow> bytes \<Rightarrow> string \<Rightarrow> encrypted_secret list \<Rightarrow> string list \<Rightarrow> sdk_err + string list" where
  "open_names cr cek org [] names = Inr names"
| "open_names cr cek org (es # rest) names =
     (case open_aes_gcm cr cek (es_key es) org of
        Inl err \<Rightarrow> Inl (Wrap ''kms: decrypt secret name'' err)
      | Inr name \<Rightarrow> open_names cr cek org rest (names @ [name]))"

definition sdk_list ::
    "crypto \<Rightarrow> 's net \<Rightarrow> string list \<Rightarrow> sdk_client \<Rightarrow> 's \<Rightarrow> (sdk_err + string list) \<times> 's" where
  [go_defs]: "sdk_list cr net ord c s =
     (case get_cek c of
        Inl err \<Rightarrow> (Inl err, s)
      | Inr cek \<Rightarrow>
          (case quorum_get net ord c (secrets_path (sc_org c)) s of
             (Inl err, s1) \<Rightarrow> (Inl (Wrap ''kms: list secrets'' err), s1)
           | (Inr b, s1) \<Rightarrow>
               (case unmarshal decode_secret_list b of
                  None \<Rightarrow> (Inl (Wrap ''kms: unmarshal list response'' Unmarshal), s1)
                | Some ess \<Rightarrow> (open_names cr cek (sc_org c) ess [], s1))))"

end
