(* ===== verification/SdkFacts.thy ===== *)
theory SdkFacts
  imports Sdk
begin

text \<open>
  Facts of the client SDK: what a quorum means, independently of the order in which nodes
  answer; the round trip through sealing, payload and opening; locked clients; and the shape
  of request paths.
\<close>

section \<open>Counting\<close>

definition successes :: "sdk_err option list \<Rightarrow> nat" where
  "successes rs = length (filter (\<lambda>r. r = None) rs)"

definition answers :: "(sdk_err + body) list \<Rightarrow> body list" where
  "answers rs = List.map_filter (\<lambda>r. case r of Inl _ \<Rightarrow> None | Inr b \<Rightarrow> Some b) rs"

lemma answers_simps [simp]:
  "answers [] = []" "answers (Inl e # rs) = answers rs" "answers (Inr b # rs) = b # answers rs"
  by (simp_all add: answers_def map_filter_simps)

lemma tally_count: "fst (tally rs n l) = n + successes rs"
  by (induction rs n l rule: tally.induct) (auto simp: successes_def)

lemma tally_last: "snd (tally rs n l) = None \<longleftrightarrow> l = None \<and> (\<forall>r\<in>set rs. r = None)"
  by (induction rs n l rule: tally.induct) auto

lemma tally_last_in: "snd (tally rs n l) = Some e \<Longrightarrow> l = Some e \<or> Some e \<in> set rs"
  by (induction rs n l rule: tally.induct) auto

lemma quorum_verdict_None: "quorum_verdict c rs = None \<longleftrightarrow> sc_threshold c \<le> int (successes rs)"
  using tally_count [of rs 0 None] by (auto simp: quorum_verdict_def split: prod.splits)

lemma successes_mset: "mset rs = mset rs' \<Longrightarrow> successes rs = successes rs'"
  unfolding successes_def by (metis mset_filter size_mset)

lemma successes_le: "successes rs \<le> length rs"
  by (simp add: successes_def)

lemma successes_all: "successes rs = length rs \<longleftrightarrow> (\<forall>r\<in>set rs. r = None)"
proof (induction rs)
  case (Cons r rs)
  then show ?case
    using length_filter_le [of "\<lambda>r. r = None" rs]
    by (cases r) (auto simp: successes_def simp del: length_filter_le)
qed (simp add: successes_def)

text \<open>A failed quorum of all nodes always reports a node's error.\<close>

lemma quorum_verdict_reports:
  assumes "client_ok c" "length rs = length (sc_nodes c)" "quorum_verdict c rs = Some err"
  shows "\<exists>e. err = Quorum (successes rs) (length (sc_nodes c)) (sc_threshold c) (Some e) \<and> Some e \<in> set rs"
proof -
  obtain k l where t: "tally rs 0 None = (k, l)" by (cases "tally rs 0 None")
  with assms(3) have lt: "int k < sc_threshold c"
    and err: "err = Quorum k (length (sc_nodes c)) (sc_threshold c) l"
    by (auto simp: quorum_verdict_def split: if_splits)
  from t tally_count [of rs 0 None] have k: "k = successes rs" by simp
  with lt assms(1,2) have "successes rs \<noteq> length rs" by (auto simp: client_ok_def)
  then have "\<exists>r\<in>set rs. r \<noteq> None" by (simp add: successes_all)
  with t tally_last [of rs 0 None] obtain e where "l = Some e" by (cases l) auto
  with t tally_last_in [of rs 0 None e] k err show ?thesis by auto
qed

lemma quorum_loop_spec:
  assumes "int k < thr" "first = None \<longleftrightarrow> k = 0"
  shows "(\<exists>b. quorum_loop n thr rs k first l = Inr b) \<longleftrightarrow> thr \<le> int (k + length (answers rs))"
    and "quorum_loop n thr rs k first l = Inr b \<Longrightarrow>
      b = (case first of Some f \<Rightarrow> f | None \<Rightarrow> hd (answers rs))"
  using assms
proof (induction n thr rs k first l rule: quorum_loop.induct)
  case (3 n thr b' rs k first l)
  case 1
  with 3 show ?case by (cases "thr \<le> int (Suc k)") (auto simp: Let_def)
next
  case (3 n thr b' rs k first l)
  case 2
  show ?case
  proof (cases "thr \<le> int (Suc k)")
    case False
    with 2 3(2) [OF refl] show ?thesis by (auto simp: Let_def split: option.splits)
  qed (use 2 in \<open>auto simp: Let_def split: option.splits\<close>)
qed auto

section \<open>Quorums intersect\<close>

lemma card_successes:
  assumes "distinct ns" "length rs = length ns"
  shows "card {a \<in> set ns. \<exists>i<length ns. ns ! i = a \<and> P (rs ! i)} = length (filter P rs)"
proof -
  have "{a \<in> set ns. \<exists>i<length ns. ns ! i = a \<and> P (rs ! i)} = (!) ns ` {i. i < length rs \<and> P (rs ! i)}"
    using assms by (auto simp: in_set_conv_nth nth_eq_iff_index_eq)
  moreover have "inj_on ((!) ns) {i. i < length rs \<and> P (rs ! i)}"
    using assms by (intro inj_onI) (auto simp: nth_eq_iff_index_eq)
  ultimately show ?thesis
    by (simp add: card_image length_filter_conv_card)
qed

lemma majorities_meet:
  assumes "finite N" "A \<subseteq> N" "B \<subseteq> N" "card N < card A + card B"
  shows "A \<inter> B \<noteq> {}"
proof
  assume "A \<inter> B = {}"
  moreover have "finite A" "finite B" using assms(1-3) finite_subset by auto
  ultimately have "card (A \<union> B) = card A + card B" by (simp add: card_Un_disjoint)
  moreover have "card (A \<union> B) \<le> card N" using assms(1-3) by (intro card_mono) auto
  ultimately show False using assms(4) by simp
qed

section \<open>Payloads\<close>

interpretation payload: codec secret_payload
    "\<lambda>v. case decode_secret v of (ok, t) \<Rightarrow> if ok then Some t else None" "\<lambda>_. True"
proof
  fix es :: encrypted_secret
  have d: "json_bytes (JStr (base64_std_encode b)) = Some b" for b
    using std64.dec_enc [of b] by (simp add: json_bytes_def)
  have "decode_secret (secret_payload es) = (True, es)"
    by (simp add: decode_secret_def secret_payload_def decode_struct_def match_field_def
        store_secret_field_def store_bytes_def d)
  then show "(case decode_secret (secret_payload es) of (ok, t) \<Rightarrow> if ok then Some t else None) = Some es"
    by simp
qed

lemma unmarshal_payload:
  "bd_doc b = Some (secret_payload es) \<Longrightarrow> unmarshal decode_secret b = Some es"
  using payload.dec_enc [of es] by (auto simp: unmarshal_def split: prod.splits)

lemma decode_payload_list:
  "decode_secret_list (JObj [(''secrets'', JArr (map secret_payload ess))]) = (True, ess)"
proof -
  have "decode_secret (secret_payload es) = (True, es)" for es
    using payload.dec_enc [of es] by (auto split: prod.splits if_splits)
  then show ?thesis
    by (simp add: decode_secret_list_def decode_struct_def match_field_def store_list_field_def
        list_all_iff comp_def)
qed

text \<open>A record sealed by this client: name and value under the client's key and org.\<close>

definition sealed :: "crypto \<Rightarrow> bytes \<Rightarrow> string \<Rightarrow> string \<Rightarrow> bytes \<Rightarrow> encrypted_secret \<Rightarrow> bool" where
  "sealed cr cek org key val es \<longleftrightarrow>
     (\<exists>n1 n2. length n1 = 12 \<and> length n2 = 12 \<and>
        seal_aes_gcm cr (Some n1) cek key org = Inr (es_key es) \<and>
        seal_aes_gcm cr (Some n2) cek val org = Inr (es_value es))"

lemma sealed_opens:
  assumes "aead_ok cr" "sealed cr cek org key val es"
  shows "open_aes_gcm cr cek (es_key es) org = Inr key" "open_aes_gcm cr cek (es_value es) org = Inr val"
  using assms open_seal by (auto simp: sealed_def)

lemma open_names_sealed:
  assumes "aead_ok cr" "list_all2 (\<lambda>key es. \<exists>val. sealed cr cek org key val es) keys ess"
  shows "open_names cr cek org ess names = Inr (names @ keys)"
  using assms(2)
proof (induction keys ess arbitrary: names rule: list_all2_induct)
  case (Cons key keys es ess)
  from Cons.hyps(1) sealed_opens(1) [OF assms(1)] have "open_aes_gcm cr cek (es_key es) org = Inr key" by blast
  with Cons.IH show ?case by simp
qed simp

text \<open>What \<^verbatim>\<open>Set\<close> posts is a sealed record.\<close>

lemma sdk_set_posts:
  assumes "sdk_set cr net ord (Some n1) (Some n2) c key val s = (None, s1)" "length n1 = 12" "length n2 = 12"
  shows "\<exists>cek es. sc_cek c = Some cek \<and> sealed cr cek (sc_org c) key val es \<and>
     broadcast_post net ord c (secrets_path (sc_org c)) (secret_payload es) s = (None, s1)"
proof -
  from assms(1) obtain cek ek ev where
    "sc_cek c = Some cek" "seal_aes_gcm cr (Some n1) cek key (sc_org c) = Inr ek"
    "seal_aes_gcm cr (Some n2) cek val (sc_org c) = Inr ev"
    "broadcast_post net ord c (secrets_path (sc_org c)) (secret_payload \<lparr>es_key = ek, es_value = ev\<rparr>) s = (None, s1)"
    by (auto simp: sdk_set_def get_cek_def split: option.splits sum.splits)
  with assms(2,3) show ?thesis
    by (intro exI [of _ cek] exI [of _ "\<lparr>es_key = ek, es_value = ev\<rparr>"]) (auto simp: sealed_def)
qed

lemma sdk_get_answer:
  assumes "sc_cek c = Some cek" "seal_aes_gcm cr rnd cek key (sc_org c) = Inr ek"
    and "quorum_get net ord c (secret_path (sc_org c) ek) s = (Inr b, s1)"
    and "bd_doc b = Some (secret_payload es)" "sealed cr cek (sc_org c) key' val es" "aead_ok cr"
  shows "sdk_get cr net ord rnd c key s = (Inr val, s1)"
  using assms sealed_opens(2) [OF assms(6,5)] unmarshal_payload [OF assms(4)]
  by (simp add: sdk_get_def get_cek_def)

section \<open>Lookups\<close>

lemma secret_path_inj: "secret_path org a = secret_path org b \<longleftrightarrow> a = b"
  using esc.enc_inj [of "base64_url_encode a" "base64_url_encode b"] url64.enc_inj [of a b]
  by (auto simp: secret_path_def)

lemma secrets_path_segments:
  "go_split CHR ''/'' (secrets_path org) = ['''', ''v1'', ''orgs'', path_escape org, ''zk'', ''secrets'']"
proof -
  have "secrets_path org = '''' @ CHR ''/'' # ''v1'' @ CHR ''/'' # ''orgs'' @ CHR ''/'' # path_escape org @
      CHR ''/'' # ''zk'' @ CHR ''/'' # ''secrets''"
    by (simp add: secrets_path_def)
  then show ?thesis
    by (simp only: go_split_append path_escape_free list.set char.inject empty_iff insert_iff not_False_eq_True)
      (simp add: go_split_append path_escape_free)
qed

section \<open>Locked clients and the client's invariant\<close>

lemma locked_no_traffic:
  assumes "sc_cek c = None"
  shows "sdk_set cr net ord r1 r2 c key val s = (Some Locked, s)"
    "sdk_get cr net ord r1 c key s = (Inl Locked, s)"
    "sdk_delete cr net ord r1 c key s = (Some Locked, s)"
    "sdk_list cr net ord c s = (Inl Locked, s)"
  using assms by (simp_all add: sdk_set_def sdk_get_def sdk_delete_def sdk_list_def get_cek_def)

lemma new_client_ok: "new_client cfg = Inr c \<Longrightarrow> client_ok c \<and> \<not> is_unlocked c"
  by (auto simp: new_client_def client_ok_def is_unlocked_def split: if_splits)

lemma client_ops_ok:
  "client_ok c \<Longrightarrow> client_ok (lock c)"
  "client_ok c \<Longrightarrow> client_ok (snd (unlock cr p c))"
  "client_ok c \<Longrightarrow> client_ok (fst (snd (bootstrap cr net ord p c s)))"
  by (auto simp: client_ok_def lock_def unlock_def bootstrap_def split: sum.splits prod.splits option.splits)

lemma unlock_key_length:
  assumes "unlock_key cr what p org = Inr (mk, cek)"
    and "\<And>k s i m r. cr_hkdf cr k s i m = Inr r \<Longrightarrow> length r = m"
  shows "length cek = 32"
  using assms by (auto simp: unlock_key_def derive_cek_def cek_size_def split: sum.splits if_splits)

end
