(* ===== verification/Compliance.thy ===== *)
theory Compliance
  imports Sdk
begin

text \<open>
  The rest of the client SDK: members (\<^verbatim>\<open>members.go\<close>), the change stream
  (\<^verbatim>\<open>sync.go\<close>) and the compliance interface (\<^verbatim>\<open>compliance.go\<close>).  A call that
  broadcasts and then reads takes an order of arrival for each round.  \<open>ptime\<close> is Go's
  RFC 3339 parser; a time is in nanoseconds since 1970.  Modes and regulator access levels are
  the integers of Go's constants.
\<close>

section \<open>Paths and calls\<close>

definition zk_path :: "string \<Rightarrow> string \<Rightarrow> string" where
  [go_defs]: "zk_path org rest = ''/v1/orgs/'' @ path_escape org @ ''/zk/'' @ rest"

text \<open>A broadcast whose error is wrapped, and a quorum read whose body is decoded.\<close>

definition wrapped_post ::
    "'s net \<Rightarrow> string list \<Rightarrow> sdk_client \<Rightarrow> string \<Rightarrow> string \<Rightarrow> json \<Rightarrow> 's \<Rightarrow> sdk_err option \<times> 's" where
  [go_defs]: "wrapped_post net ord c what path v s =
     (case broadcast_post net ord c path v s of (e, s1) \<Rightarrow> (map_option (Wrap what) e, s1))"

definition wrapped_delete ::
    "'s net \<Rightarrow> string list \<Rightarrow> sdk_client \<Rightarrow> string \<Rightarrow> string \<Rightarrow> 's \<Rightarrow> sdk_err option \<times> 's" where
  [go_defs]: "wrapped_delete net ord c what path s =
     (case broadcast_delete net ord c path s of (e, s1) \<Rightarrow> (map_option (Wrap what) e, s1))"

definition quorum_decode ::
    "'s net \<Rightarrow> string list \<Rightarrow> sdk_client \<Rightarrow> string \<Rightarrow> string \<Rightarrow> string \<Rightarrow> (json \<Rightarrow> bool \<times> 'r) \<Rightarrow> 's \<Rightarrow>
     (sdk_err + 'r) \<times> 's" where
  [go_defs]: "quorum_decode net ord c get_what dec_what path dec s =
     (case quorum_get net ord c path s of
        (Inl err, s1) \<Rightarrow> (Inl (Wrap get_what err), s1)
      | (Inr b, s1) \<Rightarrow>
          (case unmarshal dec b of
             None \<Rightarrow> (Inl (Wrap dec_what Unmarshal), s1)
           | Some t \<Rightarrow> (Inr t, s1)))"

section \<open>Members\<close>

definition invite_payload :: "bytes \<Rightarrow> bytes \<Rightarrow> json" where
  [go_defs]: "invite_payload pub wrapped = JObj
     [(''member_pub_key'', JStr (base64_std_encode pub)), (''wrapped_cek'', JStr (base64_std_encode wrapped))]"

definition invite_member ::
    "crypto \<Rightarrow> 's net \<Rightarrow> string list \<Rightarrow> sdk_client \<Rightarrow> bytes \<Rightarrow> 's \<Rightarrow> (sdk_err + bytes) \<times> 's" where
  [go_defs]: "invite_member cr net ord c pub s =
     (case get_cek c of
        Inl err \<Rightarrow> (Inl err, s)
      | Inr cek \<Rightarrow>
          (case wrap_cek_for_member cr cek pub of
             Inl err \<Rightarrow> (Inl (Wrap ''kms: invite member'' err), s)
           | Inr wrapped \<Rightarrow>
               (case wrapped_post net ord c ''kms: invite member'' (zk_path (sc_org c) ''members'')
                       (invite_payload pub wrapped) s of
                  (Some err, s1) \<Rightarrow> (Inl err, s1)
                | (None, s1) \<Rightarrow> (Inr wrapped, s1))))"

definition revoke_member ::
    "'s net \<Rightarrow> string list \<Rightarrow> sdk_client \<Rightarrow> string \<Rightarrow> 's \<Rightarrow> sdk_err option \<times> 's" where
  [go_defs]: "revoke_member net ord c member s =
     (if member = '''' then (Some (Invalid ''kms: member ID must not be empty''), s)
      else wrapped_delete net ord c ''kms: revoke member''
             (zk_path (sc_org c) (''members/'' @ path_escape member)) s)"

definition decode_members_resp :: "json \<Rightarrow> bool \<times> string list" where
  [go_defs]: "decode_members_resp = decode_one ''members'' (\<lambda>v t. store_list decode_str v (\<lambda>l. l) t) []"

definition list_members ::
    "'s net \<Rightarrow> string list \<Rightarrow> sdk_client \<Rightarrow> 's \<Rightarrow> (sdk_err + string list) \<times> 's" where
  [go_defs]: "list_members net ord c s =
     quorum_decode net ord c ''kms: list members'' ''kms: list members: unmarshal''
       (zk_path (sc_org c) ''members'') decode_members_resp s"

section \<open>The change stream\<close>

definition sdk_sync :: "'s net \<Rightarrow> string list \<Rightarrow> sdk_client \<Rightarrow> 's \<Rightarrow> sdk_err option \<times> 's" where
  [go_defs]: "sdk_sync net ord c s = broadcast_post net ord c (zk_path (sc_org c) ''sync'') (JObj []) s"

text \<open>
  The connection loop keeps the last response and the last error; it stops at the first node
  that answers 200.
\<close>

fun watch_connect ::
    "'s net \<Rightarrow> string \<Rightarrow> string list \<Rightarrow> (nat \<times> body) option \<Rightarrow> string option \<Rightarrow> 's \<Rightarrow>
     ((nat \<times> body) option \<times> string option) \<times> 's" where
  "watch_connect net path [] resp err s = ((resp, err), s)"
| "watch_connect net path (node # nodes) resp err s =
     (case net ''GET'' (node @ path) None s of
        (Inl e, s1) \<Rightarrow> watch_connect net path nodes None (Some e) s1
      | (Inr (status, b), s1) \<Rightarrow>
          if status = 200 then ((Some (status, b), None), s1)
          else watch_connect net path nodes (Some (status, b)) None s1)"

definition watch_open :: "'s net \<Rightarrow> sdk_client \<Rightarrow> 's \<Rightarrow> (sdk_err + body) \<times> 's" where
  [go_defs]: "watch_open net c s =
     (if sc_nodes c = [] then (Inl (Invalid ''kms: no nodes configured''), s)
      else case watch_connect net (zk_path (sc_org c) ''watch'') (sc_nodes c) None None s of
             ((_, Some e), s1) \<Rightarrow> (Inl (Wrap ''kms: watch: connect'' (Transport e)), s1)
           | ((None, None), s1) \<Rightarrow> (Inl (Invalid ''kms: watch: no node available''), s1)
           | ((Some (status, b), None), s1) \<Rightarrow>
               if status \<noteq> 200 then (Inl (Invalid ''kms: watch: no node available''), s1) else (Inr b, s1))"

text \<open>
  \<^verbatim>\<open>bufio.Scanner\<close> with its default 64 KiB buffer: lines without their end, up to the
  first one that does not fit.
\<close>

definition scan_limit :: nat where
  [go_defs]: "scan_limit = 65536"

definition drop_cr :: "string \<Rightarrow> string" where
  [go_defs]: "drop_cr l = (if l \<noteq> [] \<and> last l = CHR 0x0D then butlast l else l)"

definition scan_lines :: "bytes \<Rightarrow> string list" where
  [go_defs]: "scan_lines b =
     (let ls = go_split CHR 0x0A b;
          ls = (if last ls = [] then butlast ls else ls)
      in map drop_cr (takeWhile (\<lambda>l. length l < scan_limit) ls))"

record secret_event =
  ev_type :: string
  ev_secret_id :: string
  ev_timestamp :: int64

definition store_event :: "string \<Rightarrow> json \<Rightarrow> secret_event \<Rightarrow> bool \<times> secret_event" where
  [go_defs]: "store_event f v t =
     (if f = ''type'' then store_str v (\<lambda>s. t\<lparr>ev_type := s\<rparr>) t
      else if f = ''secret_id'' then store_str v (\<lambda>s. t\<lparr>ev_secret_id := s\<rparr>) t
      else store_i64 v (\<lambda>i. t\<lparr>ev_timestamp := i\<rparr>) t)"

definition decode_event :: "json \<Rightarrow> bool \<times> secret_event" where
  [go_defs]: "decode_event v = decode_struct [''type'', ''secret_id'', ''timestamp''] store_event v
     \<lparr>ev_type = '''', ev_secret_id = '''', ev_timestamp = 0\<rparr>"

text \<open>
  The events sent for the scanned lines; \<open>parse\<close> reads a whole line as one JSON value.  A
  context cancelled before line \<open>n + 1\<close> gives the events of the first \<open>n\<close> lines.
\<close>

fun watch_events :: "(string \<Rightarrow> json option) \<Rightarrow> string list \<Rightarrow> secret_event list" where
  "watch_events parse [] = []"
| "watch_events parse (l # ls) =
     (if l = '''' then watch_events parse ls
      else case unmarshal decode_event \<lparr>bd_raw = l, bd_doc = parse l\<rparr> of
             None \<Rightarrow> watch_events parse ls
           | Some ev \<Rightarrow> ev # watch_events parse ls)"

section \<open>Compliance mode\<close>

record compliance_config =
  cc_mode :: int
  cc_escrow_pub_key :: bytes
  cc_retention_years :: int
  cc_worm :: bool
  cc_break_glass :: bool
  cc_regulator :: int

definition enable_payload :: "compliance_config \<Rightarrow> json" where
  [go_defs]: "enable_payload cfg = JObj
     [(''mode'', JInt (cc_mode cfg)),
      (''escrow_pub_key'', JStr (base64_std_encode (cc_escrow_pub_key cfg))),
      (''retention_years'', JInt (cc_retention_years cfg)),
      (''worm_audit_log'', JBool (cc_worm cfg)),
      (''break_glass'', JBool (cc_break_glass cfg)),
      (''regulator_access'', JInt (cc_regulator cfg))]"

definition enable_compliance ::
    "'s net \<Rightarrow> string list \<Rightarrow> sdk_client \<Rightarrow> compliance_config \<Rightarrow> 's \<Rightarrow> sdk_err option \<times> 's" where
  [go_defs]: "enable_compliance net ord c cfg s =
     (if cc_mode cfg = 0 then (Some (Invalid ''kms: compliance mode must not be ComplianceNone''), s)
      else if cc_escrow_pub_key cfg = [] then (Some (Invalid ''kms: escrow public key is required''), s)
      else if cc_retention_years cfg < 1 then (Some (Invalid ''kms: retention years must be at least 1''), s)
      else wrapped_post net ord c ''kms: enable compliance'' (zk_path (sc_org c) ''compliance'')
             (enable_payload cfg) s)"

definition disable_compliance :: "'s net \<Rightarrow> string list \<Rightarrow> sdk_client \<Rightarrow> 's \<Rightarrow> sdk_err option \<times> 's" where
  [go_defs]: "disable_compliance net ord c s =
     wrapped_delete net ord c ''kms: disable compliance'' (zk_path (sc_org c) ''compliance'') s"

section \<open>Break-glass access\<close>

record bg_token =
  bg_token :: string
  bg_expires :: int
  bg_keys :: "string list"

definition store_bg :: "(string \<Rightarrow> int option) \<Rightarrow> string \<Rightarrow> json \<Rightarrow> bg_token \<Rightarrow> bool \<times> bg_token" where
  [go_defs]: "store_bg ptime f v t =
     (if f = ''token'' then store_str v (\<lambda>s. t\<lparr>bg_token := s\<rparr>) t
      else if f = ''expires_at'' then store_time ptime v (\<lambda>ns. t\<lparr>bg_expires := ns\<rparr>) t
      else store_list decode_str v (\<lambda>l. t\<lparr>bg_keys := l\<rparr>) t)"

definition decode_bg :: "(string \<Rightarrow> int option) \<Rightarrow> json \<Rightarrow> bool \<times> bg_token" where
  [go_defs]: "decode_bg ptime v = decode_struct [''token'', ''expires_at'', ''secret_keys''] (store_bg ptime) v
     \<lparr>bg_token = '''', bg_expires = zero_time, bg_keys = []\<rparr>"

text \<open>\<^verbatim>\<open>duration.Milliseconds()\<close>: nanoseconds, truncated.\<close>

definition duration_ms :: "int64 \<Rightarrow> int" where
  [go_defs]: "duration_ms d = sgn (sint d) * (\<bar>sint d\<bar> div 1000000)"

definition break_glass_payload :: "string \<Rightarrow> string list \<Rightarrow> int64 \<Rightarrow> json" where
  [go_defs]: "break_glass_payload reason keys d = JObj
     [(''reason'', JStr reason), (''secret_keys'', json_strs keys), (''duration_ms'', JInt (duration_ms d))]"

definition request_break_glass ::
    "(string \<Rightarrow> int option) \<Rightarrow> 's net \<Rightarrow> string list \<Rightarrow> string list \<Rightarrow> sdk_client \<Rightarrow>
     string \<Rightarrow> string list \<Rightarrow> int64 \<Rightarrow> 's \<Rightarrow> (sdk_err + bg_token) \<times> 's" where
  [go_defs]: "request_break_glass ptime net ord1 ord2 c reason keys d s =
     (if reason = '''' then (Inl (Invalid ''kms: break-glass reason is required''), s)
      else if keys = [] then (Inl (Invalid ''kms: at least one secret key is required''), s)
      else if sint d \<le> 0 then (Inl (Invalid ''kms: break-glass duration must be positive''), s)
      else
        let path = zk_path (sc_org c) ''compliance/break-glass'' in
        (case wrapped_post net ord1 c ''kms: break-glass'' path (break_glass_payload reason keys d) s of
           (Some err, s1) \<Rightarrow> (Inl err, s1)
         | (None, s1) \<Rightarrow>
             quorum_decode net ord2 c ''kms: break-glass: get token'' ''kms: break-glass: unmarshal token''
               path (decode_bg ptime) s1))"

definition decode_value :: "json \<Rightarrow> bool \<times> bytes" where
  [go_defs]: "decode_value = decode_one ''value'' (\<lambda>v t. store_bytes v (\<lambda>b. b) t) []"

definition get_with_break_glass ::
    "'s net \<Rightarrow> string list \<Rightarrow> sdk_client \<Rightarrow> string \<Rightarrow> string \<Rightarrow> 's \<Rightarrow> (sdk_err + bytes) \<times> 's" where
  [go_defs]: "get_with_break_glass net ord c token key s =
     (if token = '''' then (Inl (Invalid ''kms: break-glass token is required''), s)
      else if key = '''' then (Inl (Invalid ''kms: secret key is required''), s)
      else quorum_decode net ord c ''kms: get with break-glass'' ''kms: get with break-glass: unmarshal''
             (zk_path (sc_org c) (''compliance/break-glass/'' @ path_escape token @ ''/'' @ path_escape key))
             decode_value s)"

definition revoke_break_glass ::
    "'s net \<Rightarrow> string list \<Rightarrow> sdk_client \<Rightarrow> string \<Rightarrow> 's \<Rightarrow> sdk_err option \<times> 's" where
  [go_defs]: "revoke_break_glass net ord c token s =
     (if token = '''' then (Some (Invalid ''kms: break-glass token is required''), s)
      else wrapped_delete net ord c ''kms: revoke break-glass''
             (zk_path (sc_org c) (''compliance/break-glass/'' @ path_escape token)) s)"

section \<open>Audit log, retention, export\<close>

record audit_log_entry =
  al_ts :: int
  al_actor :: string
  al_action :: string
  al_key :: string
  al_reason :: string
  al_ip :: string

definition store_al :: "(string \<Rightarrow> int option) \<Rightarrow> string \<Rightarrow> json \<Rightarrow> audit_log_entry \<Rightarrow> bool \<times> audit_log_entry" where
  [go_defs]: "store_al ptime f v t =
     (if f = ''ts'' then store_time ptime v (\<lambda>ns. t\<lparr>al_ts := ns\<rparr>) t
      else if f = ''actor'' then store_str v (\<lambda>s. t\<lparr>al_actor := s\<rparr>) t
      else if f = ''action'' then store_str v (\<lambda>s. t\<lparr>al_action := s\<rparr>) t
      else if f = ''key'' then store_str v (\<lambda>s. t\<lparr>al_key := s\<rparr>) t
      else if f = ''reason'' then store_str v (\<lambda>s. t\<lparr>al_reason := s\<rparr>) t
      else store_str v (\<lambda>s. t\<lparr>al_ip := s\<rparr>) t)"

definition decode_al :: "(string \<Rightarrow> int option) \<Rightarrow> json \<Rightarrow> bool \<times> audit_log_entry" where
  [go_defs]: "decode_al ptime v =
     decode_struct [''ts'', ''actor'', ''action'', ''key'', ''reason'', ''ip''] (store_al ptime) v
       \<lparr>al_ts = zero_time, al_actor = '''', al_action = '''', al_key = '''', al_reason = '''', al_ip = ''''\<rparr>"

definition unix_milli :: "int \<Rightarrow> int" where
  [go_defs]: "unix_milli ns = ns div 1000000"

definition audit_log ::
    "(string \<Rightarrow> int option) \<Rightarrow> 's net \<Rightarrow> string list \<Rightarrow> sdk_client \<Rightarrow> int \<Rightarrow> int \<Rightarrow> 's \<Rightarrow>
     (sdk_err + audit_log_entry list) \<times> 's" where
  [go_defs]: "audit_log ptime net ord c since until s =
     quorum_decode net ord c ''kms: audit log'' ''kms: audit log: unmarshal''
       (zk_path (sc_org c) (''compliance/audit?since='' @ dec_int (unix_milli since) @
          ''&until='' @ dec_int (unix_milli until)))
       (decode_one ''entries'' (\<lambda>v t. store_list (decode_al ptime) v (\<lambda>l. l) t) []) s"

definition verify_audit_log :: "'s net \<Rightarrow> string list \<Rightarrow> sdk_client \<Rightarrow> 's \<Rightarrow> (sdk_err + bool) \<times> 's" where
  [go_defs]: "verify_audit_log net ord c s =
     quorum_decode net ord c ''kms: verify audit log'' ''kms: verify audit log: unmarshal''
       (zk_path (sc_org c) ''compliance/audit/verify'')
       (decode_one ''valid'' (\<lambda>v t. store_bool v (\<lambda>b. b) t) False) s"

definition export_audit_log ::
    "'s net \<Rightarrow> string list \<Rightarrow> sdk_client \<Rightarrow> string \<Rightarrow> 's \<Rightarrow> (sdk_err + bytes) \<times> 's" where
  [go_defs]: "export_audit_log net ord c fmt s =
     (if fmt \<noteq> ''csv'' \<and> fmt \<noteq> ''json'' then (Inl (BadFormat fmt), s)
      else case quorum_get net ord c
                  (zk_path (sc_org c) (''compliance/audit/export?format='' @ query_escape fmt)) s of
             (Inl err, s1) \<Rightarrow> (Inl (Wrap ''kms: export audit log'' err), s1)
           | (Inr b, s1) \<Rightarrow> (Inr (bd_raw b), s1))"

definition keys_payload :: "string list \<Rightarrow> json" where
  [go_defs]: "keys_payload keys = JObj [(''secret_keys'', json_strs keys)]"

definition mark_retained ::
    "'s net \<Rightarrow> string list \<Rightarrow> sdk_client \<Rightarrow> string list \<Rightarrow> 's \<Rightarrow> sdk_err option \<times> 's" where
  [go_defs]: "mark_retained net ord c keys s =
     (if keys = [] then (Some (Invalid ''kms: at least one secret key is required''), s)
      else wrapped_post net ord c ''kms: mark retained'' (zk_path (sc_org c) ''compliance/retained'')
             (keys_payload keys) s)"

record retained_record =
  rr_key :: string
  rr_retained :: int
  rr_expires :: int

definition store_rr :: "(string \<Rightarrow> int option) \<Rightarrow> string \<Rightarrow> json \<Rightarrow> retained_record \<Rightarrow> bool \<times> retained_record" where
  [go_defs]: "store_rr ptime f v t =
     (if f = ''key'' then store_str v (\<lambda>s. t\<lparr>rr_key := s\<rparr>) t
      else if f = ''retained_at'' then store_time ptime v (\<lambda>ns. t\<lparr>rr_retained := ns\<rparr>) t
      else store_time ptime v (\<lambda>ns. t\<lparr>rr_expires := ns\<rparr>) t)"

definition decode_rr :: "(string \<Rightarrow> int option) \<Rightarrow> json \<Rightarrow> bool \<times> retained_record" where
  [go_defs]: "decode_rr ptime v = decode_struct [''key'', ''retained_at'', ''expires_at''] (store_rr ptime) v
     \<lparr>rr_key = '''', rr_retained = zero_time, rr_expires = zero_time\<rparr>"

definition list_retained ::
    "(string \<Rightarrow> int option) \<Rightarrow> 's net \<Rightarrow> string list \<Rightarrow> sdk_client \<Rightarrow> 's \<Rightarrow>
     (sdk_err + retained_record list) \<times> 's" where
  [go_defs]: "list_retained ptime net ord c s =
     quorum_decode net ord c ''kms: list retained'' ''kms: list retained: unmarshal''
       (zk_path (sc_org c) ''compliance/retained'')
       (decode_one ''records'' (\<lambda>v t. store_list (decode_rr ptime) v (\<lambda>l. l) t) []) s"

record regulator_package =
  rp_secrets :: bytes
  rp_escrow :: bytes
  rp_trail :: bytes
  rp_export :: int

definition store_rp ::
    "(string \<Rightarrow> int option) \<Rightarrow> string \<Rightarrow> json \<Rightarrow> regulator_package \<Rightarrow> bool \<times> regulator_package" where
  [go_defs]: "store_rp ptime f v t =
     (if f = ''encrypted_secrets'' then store_bytes v (\<lambda>b. t\<lparr>rp_secrets := b\<rparr>) t
      else if f = ''escrow_material'' then store_bytes v (\<lambda>b. t\<lparr>rp_escrow := b\<rparr>) t
      else if f = ''audit_trail'' then store_bytes v (\<lambda>b. t\<lparr>rp_trail := b\<rparr>) t
      else store_time ptime v (\<lambda>ns. t\<lparr>rp_export := ns\<rparr>) t)"

definition decode_rp :: "(string \<Rightarrow> int option) \<Rightarrow> json \<Rightarrow> bool \<times> regulator_package" where
  [go_defs]: "decode_rp ptime v =
     decode_struct [''encrypted_secrets'', ''escrow_material'', ''audit_trail'', ''export_timestamp'']
       (store_rp ptime) v \<lparr>rp_secrets = [], rp_escrow = [], rp_trail = [], rp_export = zero_time\<rparr>"

definition regulator_export ::
    "(string \<Rightarrow> int option) \<Rightarrow> 's net \<Rightarrow> string list \<Rightarrow> string list \<Rightarrow> sdk_client \<Rightarrow> string list \<Rightarrow> 's \<Rightarrow>
     (sdk_err + regulator_package) \<times> 's" where
  [go_defs]: "regulator_export ptime net ord1 ord2 c keys s =
     (if keys = [] then (Inl (Invalid ''kms: at least one secret key is required for export''), s)
      else
        let path = zk_path (sc_org c) ''compliance/export'' in
        (case wrapped_post net ord1 c ''kms: regulator export'' path (keys_payload keys) s of
           (Some err, s1) \<Rightarrow> (Inl err, s1)
         | (None, s1) \<Rightarrow>
             quorum_decode net ord2 c ''kms: regulator export: get'' ''kms: regulator export: unmarshal''
               path (decode_rp ptime) s1))"

end
