(* ===== verification/Traffic.thy ===== *)
theory Traffic
  imports SdkFacts Compliance
begin

text \<open>
  What the client SDK puts on the wire.  \<open>logged net\<close> is the network with a log of the
  requests it was sent; \<open>sent_only P\<close> states that an operation appended only requests with
  property \<open>P\<close>, and \<open>confined\<close> that these went to the given nodes and to a path under the
  zero-knowledge routes of one organisation.
\<close>

section \<open>Logging a network\<close>

type_synonym log = "(string \<times> string) list"

definition logged :: "'s net \<Rightarrow> ('s \<times> log) net" where
  "logged net m url v = (\<lambda>(s, l). case net m url v s of (r, s1) \<Rightarrow> (r, s1, l @ [(m, url)]))"

definition org_url :: "string list \<Rightarrow> string \<Rightarrow> string \<Rightarrow> bool" where
  "org_url nodes org url \<longleftrightarrow> (\<exists>node\<in>set nodes. \<exists>rest. url = node @ zk_path org rest)"

definition sent_only :: "(string \<times> string \<Rightarrow> bool) \<Rightarrow> ('s \<times> log) \<Rightarrow> ('s \<times> log) \<Rightarrow> bool" where
  "sent_only P s s' \<longleftrightarrow> (\<exists>new. snd s' = snd s @ new \<and> (\<forall>q\<in>set new. P q))"

lemma sent_only_refl [simp, intro]: "sent_only P s s"
  by (simp add: sent_only_def)

lemma sent_only_trans [trans]: "sent_only P s s' \<Longrightarrow> sent_only P s' s'' \<Longrightarrow> sent_only P s s''"
  unfolding sent_only_def by (metis append_assoc UnE set_append)

lemma sent_only_mono: "sent_only P s s' \<Longrightarrow> (\<And>q. P q \<Longrightarrow> Q q) \<Longrightarrow> sent_only Q s s'"
  unfolding sent_only_def by blast

lemma logged_sent: "logged net m url v s = (r, s') \<Longrightarrow> P (m, url) \<Longrightarrow> sent_only P s s'"
  by (cases s) (auto simp: logged_def sent_only_def split: prod.splits)

lemma each_node_sent:
  assumes "\<And>node s r s'. node \<in> set ns \<Longrightarrow> f node s = (r, s') \<Longrightarrow> sent_only P s s'"
    and "each_node f ns s = (rs, s')"
  shows "sent_only P s s'"
  using assms
proof (induction ns arbitrary: s rs s')
  case (Cons n ns)
  obtain r s1 where f: "f n s = (r, s1)" by (cases "f n s")
  obtain rs2 s2 where e: "each_node f ns s1 = (rs2, s2)" by (cases "each_node f ns s1")
  from Cons.prems(2) f e have "s' = s2" by simp
  have "\<And>node s r s'. node \<in> set ns \<Longrightarrow> f node s = (r, s') \<Longrightarrow> sent_only P s s'"
    by (rule Cons.prems(1)) simp_all
  with e have "sent_only P s1 s2" using Cons.IH by blast
  moreover have "sent_only P s s1" using Cons.prems(1) [OF _ f] by simp
  ultimately show ?case using \<open>s' = s2\<close> sent_only_trans by blast
qed simp

abbreviation confined :: "string list \<Rightarrow> string \<Rightarrow> ('s \<times> log) \<Rightarrow> ('s \<times> log) \<Rightarrow> bool" where
  "confined nodes org \<equiv> sent_only (\<lambda>(m, url). org_url nodes org url)"

lemmas confined_trans = sent_only_trans

lemma confined_mono:
  "confined nodes org s s' \<Longrightarrow> set nodes \<subseteq> set nodes' \<Longrightarrow> confined nodes' org s s'"
  by (erule sent_only_mono) (auto simp: org_url_def)

lemma logged_step:
  "logged net m (node @ zk_path org rest) v s = (r, s') \<Longrightarrow> node \<in> set nodes \<Longrightarrow> confined nodes org s s'"
  by (erule logged_sent) (auto simp: org_url_def)

section \<open>Calls\<close>

lemma post_json_confined:
  "post_json (logged net) (node @ zk_path org rest) v s = (e, s') \<Longrightarrow> node \<in> set nodes \<Longrightarrow>
     confined nodes org s s'"
  by (auto simp: post_json_def intro: logged_step split: prod.splits sum.splits)

lemma delete_request_confined:
  "delete_request (logged net) (node @ zk_path org rest) s = (e, s') \<Longrightarrow> node \<in> set nodes \<Longrightarrow>
     confined nodes org s s'"
  by (auto simp: delete_request_def intro: logged_step split: prod.splits sum.splits)

lemma get_one_confined:
  "get_one (logged net) (node @ zk_path org rest) s = (e, s') \<Longrightarrow> node \<in> set nodes \<Longrightarrow>
     confined nodes org s s'"
  by (auto simp: get_one_def intro: logged_step split: prod.splits sum.splits if_splits)

lemma each_node_confined:
  assumes "\<And>node s r s'. node \<in> set nodes \<Longrightarrow> f node s = (r, s') \<Longrightarrow> confined nodes org s s'"
    and "each_node f ns s = (rs, s')" "set ns \<subseteq> set nodes"
  shows "confined nodes org s s'"
  by (rule each_node_sent [OF _ assms(2)]) (use assms(1,3) in blast)

lemmas node_confined = post_json_confined delete_request_confined get_one_confined

lemma broadcast_post_confined:
  "broadcast_post (logged net) ord c (zk_path org rest) v s = (e, s') \<Longrightarrow> confined ord org s s'"
  by (auto simp: broadcast_post_def split: prod.splits option.splits
      elim!: each_node_confined [rotated] intro: node_confined)

lemma broadcast_delete_confined:
  "broadcast_delete (logged net) ord c (zk_path org rest) s = (e, s') \<Longrightarrow> confined ord org s s'"
  by (auto simp: broadcast_delete_def split: prod.splits
      elim!: each_node_confined [rotated] intro: node_confined)

lemma quorum_get_confined:
  "quorum_get (logged net) ord c (zk_path org rest) s = (e, s') \<Longrightarrow> confined ord org s s'"
  by (auto simp: quorum_get_def split: prod.splits
      elim!: each_node_confined [rotated] intro: node_confined)

lemma wrapped_confined:
  "wrapped_post (logged net) ord c what (zk_path org rest) v s = (e, s') \<Longrightarrow> confined ord org s s'"
  "wrapped_delete (logged net) ord c what (zk_path org rest) s = (e, s') \<Longrightarrow> confined ord org s s'"
  "quorum_decode (logged net) ord c w1 w2 (zk_path org rest) dec s = (x, s') \<Longrightarrow> confined ord org s s'"
  by (auto simp: wrapped_post_def wrapped_delete_def quorum_decode_def
      intro: broadcast_post_confined broadcast_delete_confined quorum_get_confined
      split: prod.splits sum.splits option.splits)

lemma watch_connect_confined:
  "watch_connect (logged net) (zk_path org rest) ns resp err s = (x, s') \<Longrightarrow> set ns \<subseteq> set nodes \<Longrightarrow>
     confined nodes org s s'"
proof (induction ns arbitrary: resp err s)
  case (Cons n ns)
  obtain r s1 where n: "logged net ''GET'' (n @ zk_path org rest) None s = (r, s1)"
    by (cases "logged net ''GET'' (n @ zk_path org rest) None s")
  with logged_step [OF n] Cons.prems(2) have s1: "confined nodes org s s1" by simp
  have "set ns \<subseteq> set nodes" using Cons.prems(2) by simp
  note IH = confined_trans [OF s1 Cons.IH [OF _ this]]
  from n s1 Cons.prems(1) IH show ?case by (auto split: sum.splits if_splits)
qed simp

lemma secret_paths_zk:
  "secrets_path org = zk_path org ''secrets''"
  "secret_path org k = zk_path org (''secrets/'' @ path_escape (base64_url_encode k))"
  by (simp_all add: secrets_path_def secret_path_def zk_path_def)

lemmas call_confined = wrapped_confined broadcast_post_confined broadcast_delete_confined quorum_get_confined

section \<open>Operations\<close>

text \<open>The operations of the SDK that talk to nodes, with the arguments of each.\<close>

datatype sdk_op =
    OpBootstrap string
  | OpStatus
  | OpSet string bytes
  | OpGet string
  | OpDelete string
  | OpList
  | OpInvite bytes
  | OpRevoke string
  | OpMembers
  | OpSync
  | OpWatch
  | OpEnable compliance_config
  | OpDisable
  | OpBreakGlass string "string list" int64
  | OpBreakGet string string
  | OpBreakRevoke string
  | OpAuditLog int int
  | OpVerify
  | OpExport string
  | OpRetain "string list"
  | OpRetained
  | OpRegulator "string list"

text \<open>The state after an operation; \<open>ord\<close> is the order in which the nodes answer.\<close>

fun run_op ::
    "crypto \<Rightarrow> (string \<Rightarrow> int option) \<Rightarrow> 's net \<Rightarrow> string list \<Rightarrow> bytes option \<Rightarrow> bytes option \<Rightarrow> sdk_client \<Rightarrow> sdk_op \<Rightarrow> 's \<Rightarrow> 's" where
  "run_op cr pt net ord r1 r2 c (OpBootstrap p) s = snd (snd (bootstrap cr net ord p c s))"
| "run_op cr pt net ord r1 r2 c OpStatus s = snd (sdk_status net c s)"
| "run_op cr pt net ord r1 r2 c (OpSet k v) s = snd (sdk_set cr net ord r1 r2 c k v s)"
| "run_op cr pt net ord r1 r2 c (OpGet k) s = snd (sdk_get cr net ord r1 c k s)"
| "run_op cr pt net ord r1 r2 c (OpDelete k) s = snd (sdk_delete cr net ord r1 c k s)"
| "run_op cr pt net ord r1 r2 c OpList s = snd (sdk_list cr net ord c s)"
| "run_op cr pt net ord r1 r2 c (OpInvite p) s = snd (invite_member cr net ord c p s)"
| "run_op cr pt net ord r1 r2 c (OpRevoke m) s = snd (revoke_member net ord c m s)"
| "run_op cr pt net ord r1 r2 c OpMembers s = snd (list_members net ord c s)"
| "run_op cr pt net ord r1 r2 c OpSync s = snd (sdk_sync net ord c s)"
| "run_op cr pt net ord r1 r2 c OpWatch s = snd (watch_open net c s)"
| "run_op cr pt net ord r1 r2 c (OpEnable cfg) s = snd (enable_compliance net ord c cfg s)"
| "run_op cr pt net ord r1 r2 c OpDisable s = snd (disable_compliance net ord c s)"
| "run_op cr pt net ord r1 r2 c (OpBreakGlass why ks d) s =
     snd (request_break_glass pt net ord ord c why ks d s)"
| "run_op cr pt net ord r1 r2 c (OpBreakGet t k) s = snd (get_with_break_glass net ord c t k s)"
| "run_op cr pt net ord r1 r2 c (OpBreakRevoke t) s = snd (revoke_break_glass net ord c t s)"
| "run_op cr pt net ord r1 r2 c (OpAuditLog a b) s = snd (audit_log pt net ord c a b s)"
| "run_op cr pt net ord r1 r2 c OpVerify s = snd (verify_audit_log net ord c s)"
| "run_op cr pt net ord r1 r2 c (OpExport f) s = snd (export_audit_log net ord c f s)"
| "run_op cr pt net ord r1 r2 c (OpRetain ks) s = snd (mark_retained net ord c ks s)"
| "run_op cr pt net ord r1 r2 c OpRetained s = snd (list_retained pt net ord c s)"
| "run_op cr pt net ord r1 r2 c (OpRegulator ks) s = snd (regulator_export pt net ord ord c ks s)"

lemmas secret_op_defs = sdk_set_def sdk_get_def sdk_delete_def sdk_list_def secret_paths_zk
lemmas member_op_defs = invite_member_def revoke_member_def list_members_def sdk_sync_def
lemmas compliance_op_defs = enable_compliance_def disable_compliance_def request_break_glass_def
  get_with_break_glass_def revoke_break_glass_def audit_log_def verify_audit_log_def
  export_audit_log_def mark_retained_def list_retained_def regulator_export_def

lemma secret_ops_confined:
  "confined ord (sc_org c) s (snd (sdk_set cr (logged net) ord r1 r2 c k v s))"
  "confined ord (sc_org c) s (snd (sdk_get cr (logged net) ord r1 c k s))"
  "confined ord (sc_org c) s (snd (sdk_delete cr (logged net) ord r1 c k s))"
  "confined ord (sc_org c) s (snd (sdk_list cr (logged net) ord c s))"
  by (auto simp: secret_op_defs split: sum.splits prod.splits option.splits
      intro: call_confined [OF prod.collapse [symmetric]] dest!: call_confined)

lemma member_ops_confined:
  "confined ord (sc_org c) s (snd (invite_member cr (logged net) ord c p s))"
  "confined ord (sc_org c) s (snd (revoke_member (logged net) ord c m s))"
  "confined ord (sc_org c) s (snd (list_members (logged net) ord c s))"
  "confined ord (sc_org c) s (snd (sdk_sync (logged net) ord c s))"
  by (auto simp: member_op_defs split: sum.splits prod.splits option.splits
      intro: call_confined [OF prod.collapse [symmetric]] dest!: call_confined)

lemma watch_open_confined: "confined (sc_nodes c) (sc_org c) s (snd (watch_open (logged net) c s))"
  using watch_connect_confined [of net "sc_org c" "''watch''" "sc_nodes c" None None s]
  by (auto simp: watch_open_def split: prod.splits option.splits)

lemma compliance_ops_confined:
  "confined ord (sc_org c) s (snd (enable_compliance (logged net) ord c cfg s))"
  "confined ord (sc_org c) s (snd (disable_compliance (logged net) ord c s))"
  "confined ord (sc_org c) s (snd (request_break_glass pt (logged net) ord ord c why ks d s))"
  "confined ord (sc_org c) s (snd (get_with_break_glass (logged net) ord c t k s))"
  "confined ord (sc_org c) s (snd (revoke_break_glass (logged net) ord c t s))"
  "confined ord (sc_org c) s (snd (audit_log pt (logged net) ord c a b s))"
  "confined ord (sc_org c) s (snd (verify_audit_log (logged net) ord c s))"
  "confined ord (sc_org c) s (snd (export_audit_log (logged net) ord c f s))"
  "confined ord (sc_org c) s (snd (mark_retained (logged net) ord c ks s))"
  "confined ord (sc_org c) s (snd (list_retained pt (logged net) ord c s))"
  "confined ord (sc_org c) s (snd (regulator_export pt (logged net) ord ord c ks s))"
  by (auto simp: compliance_op_defs Let_def split: sum.splits prod.splits option.splits
      intro: call_confined [OF prod.collapse [symmetric]] confined_trans [OF call_confined(1)]
      dest!: quorum_get_confined)

text \<open>The two operations that are not about one organisation's records.\<close>

lemma post_json_sent:
  "post_json (logged net) url v s = (e, s') \<Longrightarrow> P (''POST'', url) \<Longrightarrow> sent_only P s s'"
  by (auto simp: post_json_def intro: logged_sent split: prod.splits sum.splits)

lemma bootstrap_sent:
  "sent_only (\<lambda>(m, url). m = ''POST'' \<and> (\<exists>node\<in>set ord. url = node @ ''/v1/zk/init''))
     s (snd (snd (bootstrap cr (logged net) ord p c s)))"
proof -
  let ?Q = "\<lambda>(m, url). m = ''POST'' \<and> (\<exists>node\<in>set ord. url = node @ ''/v1/zk/init'')"
  have one: "sent_only ?Q t t'"
    if "node \<in> set ord" "post_json (logged net) (node @ ''/v1/zk/init'') v t = (e, t')" for node v t e t'
    by (rule post_json_sent [where P = ?Q, OF that(2)]) (use that(1) in auto)
  have "sent_only ?Q s s1"
    if "broadcast_post (logged net) ord c ''/v1/zk/init'' v s = (e, s1)" for v e s1
    using that
    by (auto simp: broadcast_post_def split: prod.splits option.splits elim!: each_node_sent [rotated] dest: one)
  then show ?thesis by (auto simp: bootstrap_def split: sum.split prod.split option.split)
qed

lemma status_sent:
  "sent_only (\<lambda>(m, url). m = ''GET'' \<and> (\<exists>node\<in>set (sc_nodes c). url = node @ ''/v1/zk/health''))
     s (snd (sdk_status (logged net) c s))"
proof -
  obtain rs s1 where e: "each_node (node_health (logged net)) (sc_nodes c) s = (rs, s1)"
    by (cases "each_node (node_health (logged net)) (sc_nodes c) s")
  have "sent_only (\<lambda>(m, url). m = ''GET'' \<and> (\<exists>node\<in>set (sc_nodes c). url = node @ ''/v1/zk/health'')) s s1"
    by (rule each_node_sent [OF _ e]) (auto simp: node_health_def elim: logged_sent split: prod.splits sum.splits)
  with e show ?thesis by (simp add: sdk_status_def)
qed

text \<open>Which requests an operation may send.\<close>

definition op_request :: "string list \<Rightarrow> string \<Rightarrow> sdk_op \<Rightarrow> string \<times> string \<Rightarrow> bool" where
  "op_request nodes org x q \<longleftrightarrow>
     (case x of
        OpBootstrap p \<Rightarrow> fst q = ''POST'' \<and> (\<exists>node\<in>set nodes. snd q = node @ ''/v1/zk/init'')
      | OpStatus \<Rightarrow> fst q = ''GET'' \<and> (\<exists>node\<in>set nodes. snd q = node @ ''/v1/zk/health'')
      | _ \<Rightarrow> org_url nodes org (snd q))"

lemma op_request_org:
  "\<forall>p. x \<noteq> OpBootstrap p \<Longrightarrow> x \<noteq> OpStatus \<Longrightarrow> op_request nodes org x q \<longleftrightarrow> org_url nodes org (snd q)"
  by (cases x) (simp_all add: op_request_def)

lemma run_op_sent:
  assumes "set ord \<subseteq> set (sc_nodes c)"
  shows "sent_only (op_request (sc_nodes c) (sc_org c) x) s (run_op cr pt (logged net) ord r1 r2 c x s)"
proof -
  consider p where "x = OpBootstrap p" | "x = OpStatus" | "x = OpWatch"
    | "\<forall>p. x \<noteq> OpBootstrap p" "x \<noteq> OpStatus" "x \<noteq> OpWatch" by blast
  then show ?thesis
  proof cases
    case 1
    show ?thesis
      by (rule sent_only_mono, unfold 1 run_op.simps, rule bootstrap_sent)
        (use assms in \<open>auto simp: op_request_def\<close>)
  next
    case 2
    show ?thesis
      by (rule sent_only_mono, unfold 2 run_op.simps, rule status_sent) (auto simp: op_request_def)
  next
    case 3
    show ?thesis
      by (rule sent_only_mono, unfold 3 run_op.simps, rule watch_open_confined) (auto simp: op_request_def)
  next
    case 4
    then have "confined ord (sc_org c) s (run_op cr pt (logged net) ord r1 r2 c x s)"
      by (cases x) (simp_all add: secret_ops_confined member_ops_confined compliance_ops_confined)
    from confined_mono [OF this assms] show ?thesis
      by (rule sent_only_mono) (use 4 in \<open>auto simp: op_request_org\<close>)
  qed
qed

text \<open>An operation that is refused before it talks to any node changes nothing.\<close>

fun refused_locally :: "sdk_client \<Rightarrow> sdk_op \<Rightarrow> bool" where
  "refused_locally c (OpBootstrap p) \<longleftrightarrow> p = ''''"
| "refused_locally c (OpSet k v) \<longleftrightarrow> \<not> is_unlocked c"
| "refused_locally c (OpGet k) \<longleftrightarrow> \<not> is_unlocked c"
| "refused_locally c (OpDelete k) \<longleftrightarrow> \<not> is_unlocked c"
| "refused_locally c OpList \<longleftrightarrow> \<not> is_unlocked c"
| "refused_locally c (OpInvite p) \<longleftrightarrow> \<not> is_unlocked c \<or> p = []"
| "refused_locally c (OpRevoke m) \<longleftrightarrow> m = ''''"
| "refused_locally c (OpEnable cfg) \<longleftrightarrow> cc_mode cfg = 0 \<or> cc_escrow_pub_key cfg = [] \<or> cc_retention_years cfg < 1"
| "refused_locally c (OpBreakGlass why ks d) \<longleftrightarrow> why = '''' \<or> ks = [] \<or> sint d \<le> 0"
| "refused_locally c (OpBreakGet t k) \<longleftrightarrow> t = '''' \<or> k = ''''"
| "refused_locally c (OpBreakRevoke t) \<longleftrightarrow> t = ''''"
| "refused_locally c (OpExport f) \<longleftrightarrow> f \<noteq> ''csv'' \<and> f \<noteq> ''json''"
| "refused_locally c (OpRetain ks) \<longleftrightarrow> ks = []"
| "refused_locally c (OpRegulator ks) \<longleftrightarrow> ks = []"
| "refused_locally c _ \<longleftrightarrow> False"

lemma refused_no_traffic:
  "refused_locally c x \<Longrightarrow> run_op cr pt net ord r1 r2 c x s = s"
  by (cases x) (auto simp: secret_op_defs member_op_defs compliance_op_defs get_cek_def is_unlocked_def
      bootstrap_def unlock_key_def derive_master_key_def
      wrap_cek_for_member_def split: option.splits sum.splits)

section \<open>Two-round operations\<close>

lemma wrapped_post_None:
  "wrapped_post net ord c what path v s = (None, s1) \<longleftrightarrow> broadcast_post net ord c path v s = (None, s1)"
  by (auto simp: wrapped_post_def split: prod.splits)

lemma quorum_decode_Inr:
  "quorum_decode net ord c w1 w2 path dec s = (Inr t, s1) \<longleftrightarrow>
     (\<exists>b. quorum_get net ord c path s = (Inr b, s1) \<and> unmarshal dec b = Some t)"
  by (auto simp: quorum_decode_def split: prod.splits sum.splits option.splits)

lemma request_break_glass_Inr:
  assumes "request_break_glass pt net ord1 ord2 c why ks d s = (Inr t, s2)"
  shows "why \<noteq> '''' \<and> ks \<noteq> [] \<and> 0 < sint d \<and>
     (\<exists>s1 b. broadcast_post net ord1 c (zk_path (sc_org c) ''compliance/break-glass'')
               (break_glass_payload why ks d) s = (None, s1) \<and>
             quorum_get net ord2 c (zk_path (sc_org c) ''compliance/break-glass'') s1 = (Inr b, s2) \<and>
             unmarshal (decode_bg pt) b = Some t)"
  using assms
  by (auto simp: request_break_glass_def Let_def wrapped_post_None quorum_decode_Inr
      split: if_splits prod.splits option.splits)

text \<open>Durations below a millisecond are sent as zero.\<close>

lemma duration_ms_bounds:
  "0 < sint d \<Longrightarrow> 0 \<le> duration_ms d \<and> duration_ms d * 1000000 \<le> sint d \<and> sint d < (duration_ms d + 1) * 1000000"
  by (auto simp: duration_ms_def)

section \<open>The change stream\<close>

lemma watch_events_append: "watch_events parse (ls @ ms) = watch_events parse ls @ watch_events parse ms"
  by (induction ls) (auto split: option.splits)

text \<open>Lines framed as server-sent events are not JSON, so none of them is delivered.\<close>

lemma watch_events_sse:
  assumes "\<And>l. prefix ''data:'' l \<Longrightarrow> parse l = None"
    and "\<And>l. prefix ''event:'' l \<Longrightarrow> parse l = None" "\<And>l. prefix ''id:'' l \<Longrightarrow> parse l = None"
    and "\<forall>l\<in>set ls. l = '''' \<or> prefix ''data:'' l \<or> prefix ''event:'' l \<or> prefix ''id:'' l"
  shows "watch_events parse ls = []"
  using assms(4)
proof (induction ls)
  case (Cons l ls)
  then have "l = '''' \<or> parse l = None" using assms(1-3) by auto
  with Cons show ?case by (auto simp: unmarshal_def)
qed simp

text \<open>The connection loop stops at the first node that answers 200, whatever failed before it.\<close>

lemma watch_connect_first:
  assumes "each_node (\<lambda>node. net ''GET'' (node @ path) None) ns s = (rs, s1)"
    and "\<forall>r\<in>set rs. \<not> (\<exists>b. r = Inr (200, b))"
    and "net ''GET'' (n @ path) None s1 = (Inr (200, b), s2)"
  shows "watch_connect net path (ns @ n # ms) resp err s = ((Some (200, b), None), s2)"
  using assms
proof (induction ns arbitrary: rs s resp err)
  case (Cons m ns)
  obtain r t where m: "net ''GET'' (m @ path) None s = (r, t)" by (cases "net ''GET'' (m @ path) None s")
  obtain rs' t' where e: "each_node (\<lambda>node. net ''GET'' (node @ path) None) ns t = (rs', t')"
    by (cases "each_node (\<lambda>node. net ''GET'' (node @ path) None) ns t")
  from Cons.prems(1) m e have rs: "rs = r # rs'" "t' = s1" by auto
  with Cons.prems(2) have r: "\<not> (\<exists>b. r = Inr (200, b))" "\<forall>r\<in>set rs'. \<not> (\<exists>b. r = Inr (200, b))" by auto
  have IH: "watch_connect net path (ns @ n # ms) resp err t = ((Some (200, b), None), s2)" for resp err
    using Cons.IH [OF _ r(2) Cons.prems(3)] e rs by simp
  show ?case
    using m r(1) IH by (cases r) auto
qed simp

end
