(* ===== verification/SdkClaims.thy ===== *)
theory SdkClaims
  imports Traffic
begin

text \<open>
  The properties of the client SDK, over networks in which each node's answer depends on the
  request only, whatever the order of arrival, and a small deployment for their witnesses.
\<close>

section \<open>Stateless nodes\<close>

text \<open>A network whose answer depends on the request only.\<close>

definition stateless :: "(string \<Rightarrow> string \<Rightarrow> json option \<Rightarrow> string + nat \<times> body) \<Rightarrow> 's net" where
  [go_defs]: "stateless f = (\<lambda>m u p s. (f m u p, s))"

lemma each_node_stateless:
  "(\<And>a s. g a s = (h a, s)) \<Longrightarrow> each_node g ns s = (map h ns, s)"
  by (induction ns) simp_all

definition accepts :: "string + nat \<times> body \<Rightarrow> bool" where
  "accepts r \<longleftrightarrow> (case r of Inl _ \<Rightarrow> False | Inr (status, _) \<Rightarrow> 200 \<le> status \<and> status < 300)"

definition one_post :: "(string \<Rightarrow> string \<Rightarrow> json option \<Rightarrow> string + nat \<times> body) \<Rightarrow> string \<Rightarrow> json \<Rightarrow> string \<Rightarrow> sdk_err option" where
  "one_post f path v addr =
     (case fst (post_json (stateless f) (addr @ path) v ()) of
        None \<Rightarrow> None | Some err \<Rightarrow> Some (Wrap (''node '' @ addr) err))"

text \<open>What a node that did not accept a request answered, as an error.\<close>

definition node_error :: "string + nat \<times> body \<Rightarrow> sdk_err" where
  "node_error r = (case r of Inl err \<Rightarrow> Transport err | Inr (status, b) \<Rightarrow> BadStatus status (bd_raw b))"

lemma one_post_Some:
  "one_post f path v addr = Some e \<longleftrightarrow>
     \<not> accepts (f ''POST'' (addr @ path) (Some v)) \<and>
     e = Wrap (''node '' @ addr) (node_error (f ''POST'' (addr @ path) (Some v)))"
  by (auto simp: one_post_def post_json_def stateless_def accepts_def node_error_def split: sum.splits prod.splits option.splits)

lemma one_post_None: "one_post f path v addr = None \<longleftrightarrow> accepts (f ''POST'' (addr @ path) (Some v))"
  by (auto simp: one_post_def post_json_def stateless_def accepts_def split: sum.splits prod.splits option.splits)

lemma broadcast_stateless:
  fixes s :: 's
  shows "broadcast_post (stateless f) ord c path v s = (quorum_verdict c (map (one_post f path v) ord), s)"
proof -
  have "(case post_json (stateless f) (addr @ path) v s of
           (None, s1) \<Rightarrow> (None, s1)
         | (Some err, s1) \<Rightarrow> (Some (Wrap (''node '' @ addr) err), s1)) = (one_post f path v addr, s)" for addr and s :: 's
    by (auto simp: one_post_def post_json_def stateless_def split: sum.splits)
  from each_node_stateless [of _ "one_post f path v", OF this] show ?thesis by (simp add: broadcast_post_def)
qed

lemma filter_length_mset: "mset xs = mset ys \<Longrightarrow> length (filter P xs) = length (filter P ys)"
  by (metis mset_filter size_mset)

definition one_get :: "(string \<Rightarrow> string \<Rightarrow> json option \<Rightarrow> string + nat \<times> body) \<Rightarrow> string \<Rightarrow> string \<Rightarrow> sdk_err + body" where
  "one_get f path addr = fst (get_one (stateless f) (addr @ path) ())"

lemma quorum_get_stateless:
  fixes s :: 's
  shows "quorum_get (stateless f) ord c path s =
     (quorum_loop (length (sc_nodes c)) (sc_threshold c) (map (one_get f path) ord) 0 None None, s)"
proof -
  have "get_one (stateless f) (addr @ path) s = (one_get f path addr, s)" for addr and s :: 's
    by (simp add: one_get_def get_one_def stateless_def split: sum.split prod.split)
  from each_node_stateless [of _ "one_get f path", OF this] show ?thesis by (simp add: quorum_get_def)
qed

definition served :: "string + nat \<times> body \<Rightarrow> body option" where
  "served r = (case r of Inl _ \<Rightarrow> None | Inr (status, b) \<Rightarrow> if status = 200 then Some b else None)"

lemma one_get_served: "one_get f path addr = Inr b \<longleftrightarrow> served (f ''GET'' (addr @ path) None) = Some b"
  by (auto simp: one_get_def get_one_def stateless_def served_def split: sum.splits prod.splits)

lemma answers_map: "answers (map (one_get f path) ns) = List.map_filter (\<lambda>n. served (f ''GET'' (n @ path) None)) ns"
proof (induction ns)
  case (Cons n ns)
  show ?case
  proof (cases "one_get f path n")
    case (Inl e)
    with one_get_served [of f path n] have "served (f ''GET'' (n @ path) None) = None"
      by (cases "served (f ''GET'' (n @ path) None)") auto
    with Inl Cons show ?thesis by (simp add: map_filter_simps)
  next
    case (Inr b)
    with one_get_served [of f path n b] Cons show ?thesis by (simp add: map_filter_simps)
  qed
qed (simp add: map_filter_simps)

lemma map_filter_length: "length (List.map_filter f xs) = length (filter (\<lambda>x. f x \<noteq> None) xs)"
  by (induction xs) (auto simp: map_filter_simps)

text \<open>Which body a successful quorum read returns: the first that arrived.\<close>

lemma quorum_get_first:
  assumes "0 < sc_threshold c"
    and "sc_threshold c \<le> int (length (filter (\<lambda>n. served (f ''GET'' (n @ path) None) \<noteq> None) ord))"
  shows "\<exists>b. quorum_get (stateless f) ord c path s = (Inr b, s) \<and> b \<in> set (answers (map (one_get f path) ord)) \<and>
     b = hd (answers (map (one_get f path) ord))"
proof -
  let ?rs = "map (one_get f path) ord"
  have len: "sc_threshold c \<le> int (0 + length (answers ?rs))"
    using assms(2) by (simp add: answers_map map_filter_length)
  then obtain b where b: "quorum_loop (length (sc_nodes c)) (sc_threshold c) ?rs 0 None None = Inr b"
    using quorum_loop_spec(1) [of 0 "sc_threshold c" None "length (sc_nodes c)" ?rs None] assms(1) by auto
  with quorum_loop_spec(2) [of 0 "sc_threshold c" None "length (sc_nodes c)" ?rs None b] assms(1)
  have "b = hd (answers ?rs)" by simp
  moreover have "answers ?rs \<noteq> []" using len assms(1) by auto
  ultimately show ?thesis using b by (simp add: quorum_get_stateless)
qed

text \<open>What a successful broadcast and a successful read say about the nodes.\<close>

lemma post_quorum:
  assumes "broadcast_post (stateless f) ord c path v s = (None, s1)" "mset ord = mset (sc_nodes c)"
  shows "sc_threshold c \<le> int (length (filter (\<lambda>n. accepts (f ''POST'' (n @ path) (Some v))) (sc_nodes c)))"
proof -
  have "quorum_verdict c (map (one_post f path v) ord) = None" using assms(1) by (simp add: broadcast_stateless)
  then have "sc_threshold c \<le> int (length (filter (\<lambda>n. accepts (f ''POST'' (n @ path) (Some v))) ord))"
    by (simp add: quorum_verdict_None successes_def filter_map comp_def one_post_None)
  with filter_length_mset [OF assms(2)] show ?thesis by simp
qed

lemma get_quorum:
  assumes "quorum_get (stateless f) ord c path s = (Inr b, s1)" "mset ord = mset (sc_nodes c)" "client_ok c"
  shows "sc_threshold c \<le> int (length (filter (\<lambda>n. served (f ''GET'' (n @ path) None) \<noteq> None) (sc_nodes c))) \<and>
     (\<exists>n\<in>set (sc_nodes c). served (f ''GET'' (n @ path) None) = Some b)"
proof -
  let ?rs = "map (one_get f path) ord"
  have pos: "int 0 < sc_threshold c" using assms(3) by (simp add: client_ok_def)
  have l: "quorum_loop (length (sc_nodes c)) (sc_threshold c) ?rs 0 None None = Inr b"
    using assms(1) by (simp add: quorum_get_stateless)
  then have some: "sc_threshold c \<le> int (0 + length (answers ?rs))"
    using quorum_loop_spec(1) [OF pos, of None "length (sc_nodes c)" ?rs None] by auto
  from some have len: "sc_threshold c \<le> int (length (filter (\<lambda>n. served (f ''GET'' (n @ path) None) \<noteq> None) ord))"
    by (simp add: answers_map map_filter_length)
  have "b = hd (answers ?rs)" using quorum_loop_spec(2) [OF pos _ l] by simp
  moreover have "answers ?rs \<noteq> []" using some pos by auto
  ultimately have "b \<in> set (answers ?rs)" by simp
  then obtain n where "n \<in> set ord" "served (f ''GET'' (n @ path) None) = Some b"
    by (auto simp: answers_map set_filter_map)
  moreover have "set ord = set (sc_nodes c)" using assms(2) mset_eq_setD by blast
  ultimately show ?thesis using len filter_length_mset [OF assms(2)] by auto
qed

section \<open>Logs of lookups\<close>

lemma logged_gets:
  "snd (snd (each_node (\<lambda>addr. get_one (logged net) (addr @ path)) ns s)) =
     snd s @ map (\<lambda>addr. (''GET'', addr @ path)) ns"
proof (induction ns arbitrary: s)
  case (Cons n ns)
  have "snd (snd (get_one (logged net) (n @ path) s)) = snd s @ [(''GET'', n @ path)]"
    by (cases s) (auto simp: get_one_def logged_def split: prod.splits sum.splits)
  moreover obtain r s1 where g: "get_one (logged net) (n @ path) s = (r, s1)"
    by (cases "get_one (logged net) (n @ path) s")
  moreover obtain rs s2 where e: "each_node (\<lambda>addr. get_one (logged net) (addr @ path)) ns s1 = (rs, s2)"
    by (cases "each_node (\<lambda>addr. get_one (logged net) (addr @ path)) ns s1")
  ultimately show ?case using Cons [of s1] by simp
qed simp

lemma secret_url_inj:
  assumes "a @ secret_path org k = b @ secret_path org k'"
  shows "k = k'"
proof -
  let ?e = "\<lambda>k. path_escape (base64_url_encode k)"
  have "a @ secrets_path org @ CHR ''/'' # ?e k = b @ secrets_path org @ CHR ''/'' # ?e k'"
    using assms by (simp add: secret_path_def)
  then have "last (go_split CHR ''/'' (a @ secrets_path org @ CHR ''/'' # ?e k)) =
      last (go_split CHR ''/'' (b @ secrets_path org @ CHR ''/'' # ?e k'))" by simp
  then have "?e k = ?e k'"
    using path_escape_free(1) by (simp add: append_assoc [symmetric] go_split_app go_split_free del: append_assoc)
  then show ?thesis using esc.enc_inj url64.enc_inj by blast
qed

section \<open>Keys over time\<close>

datatype key_op = KeyLock | KeyUnlock string | KeyBootstrap string

fun key_step :: "crypto \<Rightarrow> 's net \<Rightarrow> string list \<Rightarrow> sdk_client \<times> 's \<Rightarrow> key_op \<Rightarrow> sdk_client \<times> 's" where
  "key_step cr net ord (c, s) KeyLock = (lock c, s)"
| "key_step cr net ord (c, s) (KeyUnlock p) = (snd (unlock cr p c), s)"
| "key_step cr net ord (c, s) (KeyBootstrap p) = snd (bootstrap cr net ord p c s)"

text \<open>What HKDF promises: as many bytes as asked for.\<close>

definition hkdf_ok :: "crypto \<Rightarrow> bool" where
  "hkdf_ok cr \<longleftrightarrow> (\<forall>k s i m r. cr_hkdf cr k s i m = Inr r \<longrightarrow> length r = m)"

definition same_setup :: "sdk_client \<Rightarrow> sdk_client \<Rightarrow> bool" where
  "same_setup c c' \<longleftrightarrow> sc_nodes c' = sc_nodes c \<and> sc_org c' = sc_org c \<and> sc_threshold c' = sc_threshold c"

definition key_ok :: "sdk_client \<Rightarrow> bool" where
  "key_ok c \<longleftrightarrow> (case sc_cek c of None \<Rightarrow> True | Some k \<Rightarrow> length k = cek_size)"

lemma unlock_key_size:
  "hkdf_ok cr \<Longrightarrow> unlock_key cr what p org = Inr (mk, cek) \<Longrightarrow> length cek = cek_size"
  using unlock_key_length [of cr what p org mk cek] by (auto simp: hkdf_ok_def cek_size_def)

lemma key_step_setup:
  assumes "hkdf_ok cr" "key_ok c"
  shows "same_setup c (fst (key_step cr net ord (c, s) x)) \<and> key_ok (fst (key_step cr net ord (c, s) x))"
proof (cases x)
  case KeyLock
  then show ?thesis by (simp add: lock_def same_setup_def key_ok_def)
next
  case (KeyUnlock p)
  with assms show ?thesis
    by (auto simp: unlock_def same_setup_def key_ok_def dest: unlock_key_size split: sum.splits)
next
  case (KeyBootstrap p)
  with assms show ?thesis
    by (auto simp: bootstrap_def same_setup_def key_ok_def dest: unlock_key_size
        split: sum.splits prod.splits option.splits)
qed

lemma key_steps_setup:
  assumes "hkdf_ok cr" "key_ok c"
  shows "same_setup c (fst (foldl (key_step cr net ord) (c, s) xs)) \<and> key_ok (fst (foldl (key_step cr net ord) (c, s) xs))"
  using assms(2)
proof (induction xs arbitrary: c s)
  case (Cons x xs)
  obtain c1 s1 where st: "key_step cr net ord (c, s) x = (c1, s1)" by (cases "key_step cr net ord (c, s) x")
  with key_step_setup [OF assms(1) Cons.prems, of net ord s x] Cons.IH [of c1 s1] show ?case
    by (auto simp: same_setup_def)
qed (simp add: same_setup_def)

section \<open>A small deployment\<close>

definition demo_crypto :: crypto where
  [go_defs]: "demo_crypto = \<lparr>cr_sha256 = (\<lambda>b. b), cr_argon2 = (\<lambda>p s t m th l. replicate l CHR ''m''),
     cr_hkdf = (\<lambda>k s i m. Inr (replicate m CHR ''k'')), cr_gcm_seal = (\<lambda>k n p a. p),
     cr_gcm_open = (\<lambda>k n c a. Some c), cr_hpke_seal = (\<lambda>pub i p. Inr p), cr_hpke_key = (\<lambda>k. Inr k),
     cr_hpke_open = (\<lambda>k i c. Inr c)\<rparr>"

lemma demo_crypto_ok: "aead_ok demo_crypto" "hkdf_ok demo_crypto"
  by (auto simp: demo_crypto_def aead_ok_def hkdf_ok_def)

definition demo_sdk :: sdk_client where
  [go_defs]: "demo_sdk = \<lparr>sc_nodes = [''http://a'', ''http://b'', ''http://c''], sc_threshold = 2, sc_org = ''acme'',
     sc_cek = Some (replicate 32 CHR ''k'')\<rparr>"

text \<open>Nodes of which the last is down; the others answer with one document.\<close>

definition demo_nodes :: "json option \<Rightarrow> string \<Rightarrow> string \<Rightarrow> json option \<Rightarrow> string + nat \<times> body" where
  [go_defs]: "demo_nodes doc m u p = (if prefix ''http://c'' u then Inl ''down''
     else Inr (200, \<lparr>bd_raw = [], bd_doc = doc\<rparr>))"

abbreviation demo_net :: "json option \<Rightarrow> unit net" where
  "demo_net doc \<equiv> stateless (demo_nodes doc)"

section \<open>Properties\<close>

text \<open>C27: a broadcast succeeds exactly when at least threshold of the nodes accept, whatever the
  order in which their answers arrive; a failed one reports how many accepted, and names a
  configured node that did not accept, with the error of that very node: its transport error,
  or its status and body.\<close>

theorem broadcast_needs_quorum:
  assumes "mset ord = mset (sc_nodes c)" "client_ok c"
  defines "accepting f path v \<equiv> length (filter (\<lambda>n. accepts (f ''POST'' (n @ path) (Some v))) (sc_nodes c))"
  shows "(fst (broadcast_post (stateless f) ord c path v s) = None \<longleftrightarrow> sc_threshold c \<le> int (accepting f path v)) \<and>
    (\<forall>err. fst (broadcast_post (stateless f) ord c path v s) = Some err \<longrightarrow>
      (\<exists>node\<in>set (sc_nodes c). \<not> accepts (f ''POST'' (node @ path) (Some v)) \<and>
         err = Quorum (accepting f path v) (length (sc_nodes c)) (sc_threshold c)
           (Some (Wrap (''node '' @ node) (node_error (f ''POST'' (node @ path) (Some v)))))))"
proof (intro conjI allI impI)
  let ?rs = "map (one_post f path v) ord"
  have b: "fst (broadcast_post (stateless f) ord c path v s) = quorum_verdict c ?rs"
    by (simp add: broadcast_stateless)
  have n: "successes ?rs = accepting f path v"
    using filter_length_mset [OF assms(1)]
    by (simp add: successes_def filter_map comp_def one_post_None accepting_def)
  show "fst (broadcast_post (stateless f) ord c path v s) = None \<longleftrightarrow> sc_threshold c \<le> int (accepting f path v)"
    using quorum_verdict_None [of c ?rs] by (simp add: b n)
  fix err
  assume "fst (broadcast_post (stateless f) ord c path v s) = Some err"
  with b have q: "quorum_verdict c ?rs = Some err" by simp
  moreover have "length ?rs = length (sc_nodes c)" using assms(1) by (metis length_map size_mset)
  ultimately obtain e where err: "err = Quorum (accepting f path v) (length (sc_nodes c)) (sc_threshold c) (Some e)"
    and "Some e \<in> set ?rs"
    using quorum_verdict_reports [OF assms(2)] n by metis
  then obtain node where "node \<in> set ord" "one_post f path v node = Some e" by auto
  moreover have "set ord = set (sc_nodes c)" using assms(1) mset_eq_setD by blast
  ultimately show "\<exists>node\<in>set (sc_nodes c). \<not> accepts (f ''POST'' (node @ path) (Some v)) \<and>
      err = Quorum (accepting f path v) (length (sc_nodes c)) (sc_threshold c)
        (Some (Wrap (''node '' @ node) (node_error (f ''POST'' (node @ path) (Some v)))))"
    unfolding err one_post_Some by blast
qed

theorem broadcast_needs_quorum_witness:
  "fst (broadcast_post (demo_net None) [''http://c'', ''http://a'', ''http://b''] demo_sdk ''/x'' JNull ()) = None"
proof -
  have o: "mset [''http://c'', ''http://a'', ''http://b''] = mset (sc_nodes demo_sdk)" "client_ok demo_sdk"
    by (simp_all add: demo_sdk_def client_ok_def)
  have "sc_threshold demo_sdk \<le>
      int (length (filter (\<lambda>n. accepts (demo_nodes None ''POST'' (n @ ''/x'') (Some JNull))) (sc_nodes demo_sdk)))"
    by code_simp
  then show ?thesis
    using broadcast_needs_quorum [OF o, of "demo_nodes None" "''/x''" JNull "()"] by blast
qed

text \<open>C28: if at least threshold nodes serve a record that was sealed under the client's key, and
  every other node fails, then \<^verbatim>\<open>Get\<close> returns its value, in whatever order the nodes answer.\<close>

theorem quorum_read_returns_value:
  assumes "mset ord = mset (sc_nodes c)" "client_ok c" "aead_ok cr"
    and "sc_cek c = Some cek" "seal_aes_gcm cr rnd cek key (sc_org c) = Inr ek"
    and "sealed cr cek (sc_org c) key' val es"
    and "\<And>n b. n \<in> set (sc_nodes c) \<Longrightarrow> served (f ''GET'' (n @ secret_path (sc_org c) ek) None) = Some b \<Longrightarrow>
      bd_doc b = Some (secret_payload es)"
    and "sc_threshold c \<le>
      int (length (filter (\<lambda>n. served (f ''GET'' (n @ secret_path (sc_org c) ek) None) \<noteq> None) (sc_nodes c)))"
  shows "sdk_get cr (stateless f) ord rnd c key s = (Inr val, s)"
proof -
  let ?p = "secret_path (sc_org c) ek"
  have pos: "0 < sc_threshold c" using assms(2) by (simp add: client_ok_def)
  have "sc_threshold c \<le> int (length (filter (\<lambda>n. served (f ''GET'' (n @ ?p) None) \<noteq> None) ord))"
    using assms(8) filter_length_mset [OF assms(1)] by simp
  from quorum_get_first [where f = f and path = ?p, OF pos this, of s] obtain b where
    b: "quorum_get (stateless f) ord c ?p s = (Inr b, s)" "b \<in> set (answers (map (one_get f ?p) ord))" by auto
  then obtain n where "n \<in> set ord" "served (f ''GET'' (n @ ?p) None) = Some b"
    by (auto simp: answers_map set_filter_map)
  moreover have "set ord = set (sc_nodes c)" using assms(1) mset_eq_setD by blast
  ultimately have "bd_doc b = Some (secret_payload es)" using assms(7) by blast
  from sdk_get_answer [OF assms(4,5) b(1) this assms(6,3)] show ?thesis .
qed

theorem quorum_read_returns_value_witness:
  "sdk_get demo_crypto
     (demo_net (Some (secret_payload \<lparr>es_key = ''nonce-nonce-key'', es_value = ''nonce-nonce-val''\<rparr>)))
     [''http://c'', ''http://b'', ''http://a''] (Some ''nonce-nonce-'') demo_sdk ''key'' () = (Inr ''val'', ())"
proof -
  let ?es = "\<lparr>es_key = ''nonce-nonce-key'', es_value = ''nonce-nonce-val''\<rparr>"
  let ?cek = "replicate 32 CHR ''k''"
  have o: "mset [''http://c'', ''http://b'', ''http://a''] = mset (sc_nodes demo_sdk)" "client_ok demo_sdk"
    "sc_cek demo_sdk = Some ?cek"
    by (simp_all add: demo_sdk_def client_ok_def)
  have ek: "seal_aes_gcm demo_crypto (Some ''nonce-nonce-'') ?cek ''key'' (sc_org demo_sdk) = Inr ''nonce-nonce-key''"
    by (simp add: seal_aes_gcm_def check_key_def cek_size_def demo_crypto_def)
  have se: "sealed demo_crypto ?cek (sc_org demo_sdk) ''key'' ''val'' ?es"
    unfolding sealed_def
    by (rule exI [of _ "''nonce-nonce-''"], rule exI [of _ "''nonce-nonce-''"])
      (simp add: seal_aes_gcm_def check_key_def cek_size_def demo_crypto_def)
  have n: "sc_threshold demo_sdk \<le> int (length (filter (\<lambda>n. served (demo_nodes (Some (secret_payload ?es)) ''GET''
      (n @ secret_path (sc_org demo_sdk) ''nonce-nonce-key'') None) \<noteq> None) (sc_nodes demo_sdk)))"
    by (simp add: demo_sdk_def demo_nodes_def served_def)
  show ?thesis
    by (rule quorum_read_returns_value [where f = "demo_nodes (Some (secret_payload ?es))", OF o(1,2) demo_crypto_ok(1) o(3) ek se _ n])
      (auto simp: served_def demo_nodes_def split: if_splits)
qed

text \<open>C32: \<^verbatim>\<open>Get\<close> does not find what \<^verbatim>\<open>Set\<close> stored: it asks under the name
  sealed with a fresh nonce, so unless the nonces coincide it requests from no node the record
  that was stored under the same name.\<close>

theorem lookup_misses_record:
  assumes "sc_cek c = Some cek" "seal_aes_gcm cr (Some n1) cek key (sc_org c) = Inr stored"
    and "length n1 = length n2" "n1 \<noteq> n2"
  shows "(''GET'', node @ secret_path (sc_org c) stored) \<notin>
     set (snd (snd (sdk_get cr (logged net) ord (Some n2) c key (s, []))))"
proof (cases "seal_aes_gcm cr (Some n2) cek key (sc_org c)")
  case (Inl e)
  with assms(1) show ?thesis by (simp add: sdk_get_def get_cek_def)
next
  case (Inr ek)
  let ?p = "secret_path (sc_org c) ek"
  obtain r s1 where q: "quorum_get (logged net) ord c ?p (s, []) = (r, s1)"
    by (cases "quorum_get (logged net) ord c ?p (s, [])")
  have "snd s1 = map (\<lambda>addr. (''GET'', addr @ ?p)) ord"
    using q logged_gets [of net ?p ord "(s, [])"] by (auto simp: quorum_get_def split: prod.splits)
  moreover have "snd (sdk_get cr (logged net) ord (Some n2) c key (s, [])) = s1"
    using q by (auto simp: sdk_get_def get_cek_def assms(1) Inr split: sum.splits option.splits)
  moreover have "stored \<noteq> ek" using seal_nonce_differs [OF assms(2) Inr assms(3,4)] .
  ultimately show ?thesis using secret_url_inj by auto
qed

theorem lookup_misses_record_witness:
  "(''GET'', ''http://a'' @ secret_path ''acme'' ''nonce-nonce-key'') \<notin>
     set (snd (snd (sdk_get demo_crypto (logged (demo_net None)) [''http://a''] (Some ''other-nonce-'') demo_sdk ''key'' ((), []))))"
proof -
  have "sc_cek demo_sdk = Some (replicate 32 CHR ''k'')" "sc_org demo_sdk = ''acme''"
    "seal_aes_gcm demo_crypto (Some ''nonce-nonce-'') (replicate 32 CHR ''k'') ''key'' (sc_org demo_sdk) = Inr ''nonce-nonce-key''"
    "length ''nonce-nonce-'' = length ''other-nonce-''" "''nonce-nonce-'' \<noteq> ''other-nonce-''"
    by (simp_all add: demo_sdk_def seal_aes_gcm_def check_key_def cek_size_def demo_crypto_def)
  with lookup_misses_record [of demo_sdk "replicate 32 CHR ''k''" demo_crypto "''nonce-nonce-''" "''key''"
      "''nonce-nonce-key''" "''other-nonce-''" "''http://a''" "demo_net None" "[''http://a'']" "()"]
  show ?thesis by simp
qed

text \<open>C29: every request that an operation of the SDK sends goes to a configured node.  Bootstrap
  sends only \<open>POST /v1/zk/init\<close> and Status only \<open>GET /v1/zk/health\<close>; every other operation
  stays under the zero-knowledge routes of the client's own organisation, whose slug is one
  escaped path segment.\<close>

theorem traffic_stays_in_org:
  assumes "set ord \<subseteq> set (sc_nodes c)" "run_op cr pt (logged net) ord r1 r2 c x (s, l) = (s', l')"
  shows "\<exists>new. l' = l @ new \<and> (\<forall>(m, url) \<in> set new. \<exists>node \<in> set (sc_nodes c).
     if \<exists>p. x = OpBootstrap p then m = ''POST'' \<and> url = node @ ''/v1/zk/init''
     else if x = OpStatus then m = ''GET'' \<and> url = node @ ''/v1/zk/health''
     else \<exists>slug rest. url = node @ ''/v1/orgs/'' @ slug @ ''/zk/'' @ rest \<and> CHR ''/'' \<notin> set slug \<and>
       path_unescape slug = Some (sc_org c))"
proof -
  have org_routes: "\<exists>node\<in>set (sc_nodes c). \<exists>slug rest. url = node @ ''/v1/orgs/'' @ slug @ ''/zk/'' @ rest \<and>
      CHR ''/'' \<notin> set slug \<and> path_unescape slug = Some (sc_org c)" if "org_url (sc_nodes c) (sc_org c) url" for url
    using that path_escape_free(1) [of "sc_org c"] esc.dec_enc [of "sc_org c"]
    unfolding org_url_def zk_path_def by blast
  from run_op_sent [OF assms(1), of x "(s, l)" cr pt net r1 r2] assms(2) obtain new where
    new: "l' = l @ new" "\<forall>q\<in>set new. op_request (sc_nodes c) (sc_org c) x q"
    by (auto simp: sent_only_def)
  have "\<exists>node \<in> set (sc_nodes c).
     if \<exists>p. x = OpBootstrap p then m = ''POST'' \<and> url = node @ ''/v1/zk/init''
     else if x = OpStatus then m = ''GET'' \<and> url = node @ ''/v1/zk/health''
     else \<exists>slug rest. url = node @ ''/v1/orgs/'' @ slug @ ''/zk/'' @ rest \<and> CHR ''/'' \<notin> set slug \<and>
       path_unescape slug = Some (sc_org c)"
    if "(m, url) \<in> set new" for m url
  proof -
    have q: "op_request (sc_nodes c) (sc_org c) x (m, url)" using new(2) that by blast
    consider (init) p where "x = OpBootstrap p" | (health) "x = OpStatus"
      | (org) "\<forall>p. x \<noteq> OpBootstrap p" "x \<noteq> OpStatus" by blast
    then show ?thesis
    proof cases
      case org
      with q org_routes [of url] op_request_org [OF org] show ?thesis by simp
    qed (use q in \<open>simp_all add: op_request_def\<close>)
  qed
  with new(1) show ?thesis by blast
qed

theorem traffic_stays_in_org_witness:
  "\<exists>new. snd (run_op demo_crypto (\<lambda>t. None) (logged (demo_net None)) [''http://a''] None None demo_sdk OpMembers ((), []))
     = [] @ new \<and> new \<noteq> []"
proof -
  let ?x = "run_op demo_crypto (\<lambda>t. None) (logged (demo_net None)) [''http://a''] None None demo_sdk OpMembers ((), [])"
  have "set [''http://a''] \<subseteq> set (sc_nodes demo_sdk)" by (simp add: demo_sdk_def)
  from traffic_stays_in_org [OF this prod.collapse [symmetric], of demo_crypto "\<lambda>t. None" "demo_net None" None None OpMembers "()" "[]"]
  obtain new where "snd ?x = [] @ new" by blast
  moreover have "snd ?x \<noteq> []"
    by (simp add: list_members_def quorum_decode_def quorum_get_def get_one_def logged_def
        split: prod.splits sum.splits option.splits)
  ultimately show ?thesis by auto
qed

text \<open>An operation that is refused for its arguments, or because the client is locked, sends
  nothing at all.\<close>

lemma refused_sends_nothing:
  assumes "refused_locally c x"
  shows "run_op cr pt (logged net) ord r1 r2 c x (s, l) = (s, l)"
  using assms by (rule refused_no_traffic)

lemma refused_sends_nothing_witness:
  "run_op demo_crypto (\<lambda>t. None) (logged (demo_net None)) [''http://a''] None None (lock demo_sdk) (OpSet ''k'' ''v'') ((), [])
     = ((), [])"
proof -
  have "refused_locally (lock demo_sdk) (OpSet ''k'' ''v'')"
    by (simp add: is_unlocked_def lock_def)
  then show ?thesis by (rule refused_sends_nothing)
qed

text \<open>C30: an emergency token is handed out only for a stated reason, named keys and a positive
  duration, only if at least threshold of the configured nodes accepted the request with that
  reason, those keys and that duration (to the millisecond), and at least threshold of them
  served the read that followed, whatever the order of arrival; and the token is what one of
  these nodes served.\<close>

theorem break_glass_needs_quorums:
  assumes "request_break_glass pt (stateless f) ord1 ord2 c why ks d s = (Inr t, s2)"
    and "mset ord1 = mset (sc_nodes c)" "mset ord2 = mset (sc_nodes c)" "client_ok c"
  defines "path \<equiv> ''/v1/orgs/'' @ path_escape (sc_org c) @ ''/zk/compliance/break-glass''"
  shows "why \<noteq> '''' \<and> ks \<noteq> [] \<and> 0 < sint d \<and>
     (\<exists>ms. ms * 1000000 \<le> sint d \<and> sint d < (ms + 1) * 1000000 \<and>
        sc_threshold c \<le> int (length (filter (\<lambda>n. accepts (f ''POST'' (n @ path)
          (Some (JObj [(''reason'', JStr why), (''secret_keys'', json_strs ks), (''duration_ms'', JInt ms)])))) (sc_nodes c)))) \<and>
     sc_threshold c \<le> int (length (filter (\<lambda>n. served (f ''GET'' (n @ path) None) \<noteq> None) (sc_nodes c))) \<and>
     (\<exists>n\<in>set (sc_nodes c). \<exists>b. served (f ''GET'' (n @ path) None) = Some b \<and> unmarshal (decode_bg pt) b = Some t)"
proof -
  have zk: "zk_path (sc_org c) ''compliance/break-glass'' = path" by (simp add: zk_path_def path_def)
  from request_break_glass_Inr [OF assms(1)] obtain s1 b where
    g: "why \<noteq> ''''" "ks \<noteq> []" "0 < sint d"
    and p: "broadcast_post (stateless f) ord1 c path (break_glass_payload why ks d) s = (None, s1)"
    and q: "quorum_get (stateless f) ord2 c path s1 = (Inr b, s2)" and u: "unmarshal (decode_bg pt) b = Some t"
    unfolding zk by blast
  have pq: "sc_threshold c \<le> int (length (filter (\<lambda>n. accepts (f ''POST'' (n @ path)
      (Some (break_glass_payload why ks d)))) (sc_nodes c)))"
    using post_quorum [OF p assms(2)] .
  from get_quorum [OF q assms(3,4)] obtain n where
    gq: "sc_threshold c \<le> int (length (filter (\<lambda>n. served (f ''GET'' (n @ path) None) \<noteq> None) (sc_nodes c)))"
    and n: "n \<in> set (sc_nodes c)" "served (f ''GET'' (n @ path) None) = Some b"
    by blast
  have "\<exists>ms. ms * 1000000 \<le> sint d \<and> sint d < (ms + 1) * 1000000 \<and>
      sc_threshold c \<le> int (length (filter (\<lambda>n. accepts (f ''POST'' (n @ path)
        (Some (JObj [(''reason'', JStr why), (''secret_keys'', json_strs ks), (''duration_ms'', JInt ms)])))) (sc_nodes c)))"
    by (rule exI [of _ "duration_ms d"]) (use duration_ms_bounds [OF g(3)] pq in \<open>simp add: break_glass_payload_def\<close>)
  with g gq n u show ?thesis by blast
qed

theorem break_glass_needs_quorums_witness:
  "\<exists>t. fst (request_break_glass (\<lambda>t. None) (demo_net (Some (JObj [(''token'', JStr ''t'')])))
      [''http://a'', ''http://b'', ''http://c''] [''http://c'', ''http://b'', ''http://a''] demo_sdk ''fire'' [''k''] 2500000 ()) = Inr t \<and>
     (\<exists>n\<in>set (sc_nodes demo_sdk). \<exists>b. unmarshal (decode_bg (\<lambda>t. None)) b = Some t)"
proof -
  let ?r = "request_break_glass (\<lambda>t. None) (demo_net (Some (JObj [(''token'', JStr ''t'')])))
      [''http://a'', ''http://b'', ''http://c''] [''http://c'', ''http://b'', ''http://a''] demo_sdk ''fire'' [''k''] 2500000 ()"
  have o: "mset [''http://a'', ''http://b'', ''http://c''] = mset (sc_nodes demo_sdk)"
    "mset [''http://c'', ''http://b'', ''http://a''] = mset (sc_nodes demo_sdk)" "client_ok demo_sdk"
    by (simp_all add: demo_sdk_def client_ok_def)
  have "\<not> isl (fst ?r)" by code_simp
  then obtain t where t: "fst ?r = Inr t" by (cases "fst ?r") auto
  then have "?r = (Inr t, snd ?r)" by (metis prod.collapse)
  from break_glass_needs_quorums [OF this o] t show ?thesis by blast
qed

text \<open>C31: however a client is locked, unlocked and bootstrapped, it keeps the nodes, the organisation
  and the threshold it was made with, the threshold stays between 1 and the number of nodes, and
  a key it holds has the size that sealing needs.\<close>

theorem sdk_client_valid:
  assumes "new_client cfg = Inr c0" "hkdf_ok cr" "foldl (key_step cr net ord) (c0, s0) ops = (c, s)"
  shows "client_ok c \<and> sc_nodes c = cf_nodes cfg \<and> sc_org c = cf_org cfg \<and> sc_threshold c = cf_threshold cfg \<and>
     (case sc_cek c of None \<Rightarrow> True | Some k \<Rightarrow> check_key k = None)"
proof -
  from assms(1) have c0: "client_ok c0" "sc_cek c0 = None" "sc_nodes c0 = cf_nodes cfg" "sc_org c0 = cf_org cfg"
    "sc_threshold c0 = cf_threshold cfg"
    using new_client_ok by (auto simp: new_client_def split: if_splits)
  then have "key_ok c0" by (simp add: key_ok_def)
  from key_steps_setup [OF assms(2) this, of net ord s0 ops] assms(3) have "same_setup c0 c" "key_ok c" by auto
  with c0 show ?thesis
    by (auto simp: same_setup_def key_ok_def client_ok_def check_key_def split: option.splits)
qed

theorem sdk_client_valid_witness:
  "\<exists>c. new_client \<lparr>cf_nodes = [''http://a'', ''http://b''], cf_org = ''acme'', cf_threshold = 2\<rparr> = Inr c \<and>
     client_ok (fst (foldl (key_step demo_crypto (demo_net None) [''http://a'', ''http://b'']) (c, ()) [KeyUnlock ''pw'', KeyLock]))"
proof -
  obtain c where c: "new_client \<lparr>cf_nodes = [''http://a'', ''http://b''], cf_org = ''acme'', cf_threshold = 2\<rparr> = Inr c"
    by (simp add: new_client_def)
  from sdk_client_valid [OF c demo_crypto_ok(2) prod.collapse [symmetric],
      of "demo_net None" "[''http://a'', ''http://b'']" "()" "[KeyUnlock ''pw'', KeyLock]"] c
  show ?thesis by blast
qed

end
