(* ===== verification/KmsClient.thy ===== *)
theory KmsClient
  imports Compliance
begin

text \<open>
  The service client (\<^verbatim>\<open>sdk/go/kmsclient\<close>): construction, the IAM token cache, the
  HTTP operations, dispatch to the ZAP transport, \<^verbatim>\<open>FetchEnv\<close>, and the tenant
  interface.  \<open>hnet\<close> answers one HTTP request; the ZAP library's client is a \<open>zap_client\<close>
  record.  Times are in nanoseconds; \<open>tm\<close> holds the clock when a token is asked for and when
  its answer arrives.
\<close>

section \<open>Errors and transports\<close>

datatype kc_err =
    KInvalid string
  | KTransport string
  | KStatus string nat bytes
  | KNotFound string
  | KDecode
  | KEnv string
  | KWrap string kc_err
  | KPanic

record reply =
  re_status :: nat
  re_raw :: bytes
  re_doc :: "json option"
  re_first :: "json option"

datatype outcome = Unbuilt string | Failed string | Replied reply

datatype kc_body = NoBody | JsonBody json | FormBody "(string \<times> string) list"

type_synonym 's hnet = "string \<Rightarrow> string \<Rightarrow> headers \<Rightarrow> kc_body \<Rightarrow> 's \<Rightarrow> outcome \<times> 's"

text \<open>The ZAP client library; the flag tells whether the connection is still held.\<close>

record 's zap_client =
  z_get :: "bool \<Rightarrow> string \<Rightarrow> string \<Rightarrow> string \<Rightarrow> 's \<Rightarrow> (kc_err + string) \<times> 's"
  z_put :: "bool \<Rightarrow> string \<Rightarrow> string \<Rightarrow> string \<Rightarrow> string \<Rightarrow> 's \<Rightarrow> kc_err option \<times> 's"
  z_delete :: "bool \<Rightarrow> string \<Rightarrow> string \<Rightarrow> string \<Rightarrow> 's \<Rightarrow> kc_err option \<times> 's"
  z_list :: "bool \<Rightarrow> string \<Rightarrow> string \<Rightarrow> 's \<Rightarrow> (kc_err + string list) \<times> 's"

section \<open>Construction\<close>

record 'i kc_config =
  kf_endpoint :: string
  kf_iam_endpoint :: string
  kf_client_id :: string
  kf_client_secret :: string
  kf_org :: string
  kf_env :: string
  kf_identity :: "'i option"
  kf_node_id :: string

datatype transport = HttpT | ZapT

record kms_client =
  kc_org :: string
  kc_env :: string
  kc_endpoint :: string
  kc_iam_endpoint :: string
  kc_client_id :: string
  kc_client_secret :: string
  kc_token :: string
  kc_expiry :: int
  kc_zap :: bool
  kc_transport :: transport

definition new_http :: "'i kc_config \<Rightarrow> string \<Rightarrow> kc_err + kms_client" where
  [go_defs]: "new_http cfg env =
     (if kf_iam_endpoint cfg = '''' then Inl (KInvalid ''kmsclient: iam endpoint is required (http transport)'')
      else if kf_client_id cfg = '''' then Inl (KInvalid ''kmsclient: client id is required (http transport)'')
      else if kf_client_secret cfg = '''' then
        Inl (KInvalid ''kmsclient: client secret is required (http transport)'')
      else Inr \<lparr>kc_org = kf_org cfg, kc_env = env,
        kc_endpoint = trim_right_byte CHR ''/'' (kf_endpoint cfg),
        kc_iam_endpoint = trim_right_byte CHR ''/'' (kf_iam_endpoint cfg),
        kc_client_id = kf_client_id cfg, kc_client_secret = kf_client_secret cfg,
        kc_token = '''', kc_expiry = zero_time, kc_zap = False, kc_transport = HttpT\<rparr>)"

text \<open>\<open>host_of\<close> is the host that \<^verbatim>\<open>url.Parse\<close> finds, \<^const>\<open>None\<close> for an error.\<close>

definition parse_zap_endpoint :: "(string \<Rightarrow> string option) \<Rightarrow> string \<Rightarrow> string \<times> bool" where
  [go_defs]: "parse_zap_endpoint host_of endpoint =
     (if prefix ''zap+mdns://'' (to_lower (trim_space endpoint)) then ('''', True)
      else case host_of endpoint of
             None \<Rightarrow> (trim_prefix (trim_prefix endpoint ''zap://'') ''ZAP://'', False)
           | Some h \<Rightarrow>
               if h = '''' then (trim_prefix (trim_prefix endpoint ''zap://'') ''ZAP://'', False)
               else (h, False))"

text \<open>\<open>dial node address default_path identity\<close>: the address is empty for discovery.\<close>

definition new_zap ::
    "(string \<Rightarrow> string option) \<Rightarrow> (string \<Rightarrow> string \<Rightarrow> string \<Rightarrow> 'i \<Rightarrow> string option) \<Rightarrow> 'i kc_config \<Rightarrow> string \<Rightarrow>
     kc_err + kms_client" where
  [go_defs]: "new_zap host_of dial cfg env =
     (case kf_identity cfg of
        None \<Rightarrow> Inl (KInvalid ''kmsclient: identity is required (zap transport)'')
      | Some ident \<Rightarrow>
          (case parse_zap_endpoint host_of (kf_endpoint cfg) of
             (host, mdns) \<Rightarrow>
               (case dial (if kf_node_id cfg = '''' then ''kmsclient'' else kf_node_id cfg)
                       (if mdns then '''' else host) (kf_org cfg) ident of
                  Some err \<Rightarrow> Inl (KWrap ''kmsclient: zap dial'' (KTransport err))
                | None \<Rightarrow> Inr \<lparr>kc_org = kf_org cfg, kc_env = env, kc_endpoint = kf_endpoint cfg,
                    kc_iam_endpoint = '''', kc_client_id = '''', kc_client_secret = '''',
                    kc_token = '''', kc_expiry = zero_time, kc_zap = True, kc_transport = ZapT\<rparr>)))"

definition kc_new ::
    "(string \<Rightarrow> string option) \<Rightarrow> (string \<Rightarrow> string \<Rightarrow> string \<Rightarrow> 'i \<Rightarrow> string option) \<Rightarrow> 'i kc_config \<Rightarrow>
     kc_err + kms_client" where
  [go_defs]: "kc_new host_of dial cfg =
     (if kf_endpoint cfg = '''' then Inl (KInvalid ''kmsclient: endpoint is required'')
      else if kf_org cfg = '''' then Inl (KInvalid ''kmsclient: org is required'')
      else
        let env = (if kf_env cfg = '''' then ''default'' else kf_env cfg);
            low = to_lower (trim_space (kf_endpoint cfg)) in
        if prefix ''zap://'' low \<or> prefix ''zap+mdns://'' low then new_zap host_of dial cfg env
        else if prefix ''http://'' low \<or> prefix ''https://'' low then new_http cfg env
        else Inl (KInvalid ''kmsclient: unsupported endpoint scheme''))"

definition kc_close :: "kms_client \<Rightarrow> kms_client" where
  [go_defs]: "kc_close c = (if kc_transport c = ZapT \<and> kc_zap c then c\<lparr>kc_zap := False\<rparr> else c)"

section \<open>URLs\<close>

definition kc_secrets_url :: "kms_client \<Rightarrow> string" where
  [go_defs]: "kc_secrets_url c = kc_endpoint c @ ''/v1/kms/orgs/'' @ path_escape (kc_org c) @ ''/secrets''"

definition kc_secret_path :: "kms_client \<Rightarrow> string \<Rightarrow> string \<Rightarrow> string" where
  [go_defs]: "kc_secret_path c path name =
     (let p = trim_byte CHR ''/'' path; n = trim_byte CHR ''/'' name;
          rest = (if p \<noteq> '''' then p @ ''/'' @ n else n);
          segs = map path_escape (go_split CHR ''/'' rest)
      in kc_secrets_url c @ ''/'' @ go_join CHR ''/'' segs)"

definition kc_secret_url :: "kms_client \<Rightarrow> string \<Rightarrow> string \<Rightarrow> string" where
  [go_defs]: "kc_secret_url c path name = kc_secret_path c path name @ ''?env='' @ query_escape (kc_env c)"

section \<open>The token cache\<close>

text \<open>
  A client on the ZAP transport has no HTTP client: \<^verbatim>\<open>c.http.Do\<close> dereferences nil, which
  is the value \<^const>\<open>KPanic\<close> here.
\<close>

record token_resp =
  tr_token :: string
  tr_expires :: int64

definition store_token :: "string \<Rightarrow> json \<Rightarrow> token_resp \<Rightarrow> bool \<times> token_resp" where
  [go_defs]: "store_token f v t =
     (if f = ''access_token'' then store_str v (\<lambda>s. t\<lparr>tr_token := s\<rparr>) t
      else store_i64 v (\<lambda>i. t\<lparr>tr_expires := i\<rparr>) t)"

definition decode_token :: "json option \<Rightarrow> token_resp option" where
  [go_defs]: "decode_token doc =
     (case doc of
        None \<Rightarrow> None
      | Some v \<Rightarrow>
          (case decode_struct [''access_token'', ''expires_in''] store_token v
                  \<lparr>tr_token = '''', tr_expires = 0\<rparr> of
             (ok, t) \<Rightarrow> if ok then Some t else None))"

text \<open>\<^verbatim>\<open>time.Duration(n) * time.Second\<close> wraps around at 64 bits.\<close>

definition token_lifetime :: "int64 \<Rightarrow> int" where
  [go_defs]: "token_lifetime n = (if 0 <s n then sint (n * 1000000000) else 3600 * 1000000000)"

definition get_token ::
    "'s hnet \<Rightarrow> int \<times> int \<Rightarrow> kms_client \<Rightarrow> 's \<Rightarrow> (kc_err + string) \<times> kms_client \<times> 's" where
  [go_defs]: "get_token net tm c s =
     (if kc_token c \<noteq> '''' \<and> fst tm < kc_expiry c - 60 * 1000000000 then (Inr (kc_token c), c, s)
      else if kc_transport c = ZapT then (Inl KPanic, c, s)
      else
        case net ''POST'' (kc_iam_endpoint c @ ''/v1/iam/oauth/token'')
               [(''Content-Type'', ''application/x-www-form-urlencoded'')]
               (FormBody [(''client_id'', kc_client_id c), (''client_secret'', kc_client_secret c),
                  (''grant_type'', ''client_credentials'')]) s of
          (Unbuilt e, s1) \<Rightarrow> (Inl (KTransport e), c, s1)
        | (Failed e, s1) \<Rightarrow> (Inl (KWrap ''iam token exchange'' (KTransport e)), c, s1)
        | (Replied re, s1) \<Rightarrow>
            if re_status re \<noteq> 200 then (Inl (KStatus ''iam token exchange: status'' (re_status re) (re_raw re)), c, s1)
            else
              (case decode_token (re_first re) of
                 None \<Rightarrow> (Inl (KWrap ''iam token decode'' KDecode), c, s1)
               | Some t \<Rightarrow>
                   if tr_token t = '''' then (Inl (KInvalid ''iam returned empty access token''), c, s1)
                   else (Inr (tr_token t),
                         c\<lparr>kc_token := tr_token t, kc_expiry := snd tm + token_lifetime (tr_expires t)\<rparr>, s1)))"

section \<open>Authorised calls\<close>

text \<open>\<open>wb\<close> is what the caller makes of an error from building the request.\<close>

definition send_authed ::
    "'s hnet \<Rightarrow> int \<times> int \<Rightarrow> (kc_err \<Rightarrow> kc_err) \<Rightarrow> kms_client \<Rightarrow> string \<Rightarrow> string \<Rightarrow> headers \<Rightarrow> kc_body \<Rightarrow> 's \<Rightarrow>
     (kc_err + reply) \<times> kms_client \<times> 's" where
  [go_defs]: "send_authed net tm wb c m url hs b s =
     (case get_token net tm c s of
        (Inl e, c1, s1) \<Rightarrow> (Inl (if e = KPanic then KPanic else KWrap ''kmsclient: auth'' e), c1, s1)
      | (Inr tok, c1, s1) \<Rightarrow>
          (case net m url ((''Authorization'', ''Bearer '' @ tok) # hs) b s1 of
             (Unbuilt e, s2) \<Rightarrow> (Inl (wb (KTransport e)), c1, s2)
           | (Failed e, s2) \<Rightarrow> (Inl (KWrap ''kmsclient: request'' (KTransport e)), c1, s2)
           | (Replied re, s2) \<Rightarrow> (Inr re, c1, s2)))"

abbreviation json_header :: headers where
  "json_header \<equiv> [(''Content-Type'', ''application/json'')]"

abbreviation build_request :: "kc_err \<Rightarrow> kc_err" where
  "build_request \<equiv> KWrap ''kmsclient: build request''"

definition decode_reply :: "(json \<Rightarrow> bool \<times> 'r) \<Rightarrow> reply \<Rightarrow> kc_err + 'r" where
  [go_defs]: "decode_reply dec re =
     (case re_doc re of
        None \<Rightarrow> Inl (KWrap ''kmsclient: decode'' KDecode)
      | Some v \<Rightarrow> (case dec v of (ok, t) \<Rightarrow> if ok then Inr t else Inl (KWrap ''kmsclient: decode'' KDecode)))"

record wrapped_value =
  wv_secret :: string
  wv_value :: string

definition store_wrapped :: "string \<Rightarrow> json \<Rightarrow> wrapped_value \<Rightarrow> bool \<times> wrapped_value" where
  [go_defs]: "store_wrapped f v t =
     (if f = ''secret'' then
        decode_struct [''value''] (\<lambda>_ v t. store_str v (\<lambda>s. t\<lparr>wv_secret := s\<rparr>) t) v t
      else store_str v (\<lambda>s. t\<lparr>wv_value := s\<rparr>) t)"

definition decode_wrapped :: "json \<Rightarrow> bool \<times> wrapped_value" where
  [go_defs]: "decode_wrapped v =
     decode_struct [''secret'', ''value''] store_wrapped v \<lparr>wv_secret = '''', wv_value = ''''\<rparr>"

definition get_answer :: "string \<Rightarrow> string \<Rightarrow> reply \<Rightarrow> kc_err + string" where
  [go_defs]: "get_answer path name re =
     (if re_status re = 404 then Inl (KNotFound (path @ ''/'' @ name))
      else if re_status re \<noteq> 200 then Inl (KStatus ''kmsclient: status'' (re_status re) (re_raw re))
      else case decode_reply decode_wrapped re of
             Inl e \<Rightarrow> Inl e
           | Inr w \<Rightarrow> Inr (if wv_secret w \<noteq> '''' then wv_secret w else wv_value w))"

definition http_get ::
    "'s hnet \<Rightarrow> int \<times> int \<Rightarrow> kms_client \<Rightarrow> string \<Rightarrow> string \<Rightarrow> 's \<Rightarrow> (kc_err + string) \<times> kms_client \<times> 's" where
  [go_defs]: "http_get net tm c path name s =
     (case send_authed net tm build_request c ''GET'' (kc_secret_url c path name) [] NoBody s of
        (Inl e, r) \<Rightarrow> (Inl e, r)
      | (Inr re, r) \<Rightarrow> (get_answer path name re, r))"

definition put_payload :: "kms_client \<Rightarrow> string \<Rightarrow> string \<Rightarrow> string \<Rightarrow> json" where
  [go_defs]: "put_payload c path name val = JObj
     [(''env'', JStr (kc_env c)), (''name'', JStr name), (''path'', JStr path), (''value'', JStr val)]"

definition http_put ::
    "'s hnet \<Rightarrow> int \<times> int \<Rightarrow> kms_client \<Rightarrow> string \<Rightarrow> string \<Rightarrow> string \<Rightarrow> 's \<Rightarrow>
     kc_err option \<times> kms_client \<times> 's" where
  [go_defs]: "http_put net tm c path name val s =
     (case send_authed net tm build_request c ''POST'' (kc_secrets_url c) json_header
             (JsonBody (put_payload c path name val)) s of
        (Inl e, r) \<Rightarrow> (Some e, r)
      | (Inr re, r) \<Rightarrow>
          (if re_status re \<noteq> 201 \<and> re_status re \<noteq> 200
           then Some (KStatus ''kmsclient: put status'' (re_status re) (re_raw re)) else None, r))"

definition http_delete ::
    "'s hnet \<Rightarrow> int \<times> int \<Rightarrow> kms_client \<Rightarrow> string \<Rightarrow> string \<Rightarrow> 's \<Rightarrow> kc_err option \<times> kms_client \<times> 's" where
  [go_defs]: "http_delete net tm c path name s =
     (case send_authed net tm build_request c ''DELETE'' (kc_secret_url c path name) [] NoBody s of
        (Inl e, r) \<Rightarrow> (Some e, r)
      | (Inr re, r) \<Rightarrow>
          (if re_status re = 404 then Some (KNotFound (path @ ''/'' @ name))
           else if re_status re \<noteq> 204 \<and> re_status re \<noteq> 200
           then Some (KStatus ''kmsclient: delete status'' (re_status re) (re_raw re)) else None, r))"

record list_item =
  li_path :: string
  li_name :: string

definition decode_item :: "json \<Rightarrow> bool \<times> list_item" where
  [go_defs]: "decode_item v = decode_struct [''path'', ''name'']
     (\<lambda>f v t. if f = ''path'' then store_str v (\<lambda>s. t\<lparr>li_path := s\<rparr>) t
              else store_str v (\<lambda>s. t\<lparr>li_name := s\<rparr>) t) v \<lparr>li_path = '''', li_name = ''''\<rparr>"

definition decode_items :: "json \<Rightarrow> bool \<times> list_item list" where
  [go_defs]: "decode_items = decode_one ''items'' (\<lambda>v t. store_list decode_item v (\<lambda>l. l) t) []"

fun item_names :: "string \<Rightarrow> list_item list \<Rightarrow> string list" where
  "item_names pre [] = []"
| "item_names pre (it # its) =
     (if pre \<noteq> '''' \<and> \<not> prefix pre (li_path it) then item_names pre its
      else (if li_path it \<noteq> '''' then li_path it @ ''/'' @ li_name it else li_name it) # item_names pre its)"

definition http_list ::
    "'s hnet \<Rightarrow> int \<times> int \<Rightarrow> kms_client \<Rightarrow> string \<Rightarrow> 's \<Rightarrow> (kc_err + string list) \<times> kms_client \<times> 's" where
  [go_defs]: "http_list net tm c pre s =
     (case send_authed net tm build_request c ''GET''
             (kc_secrets_url c @ (if pre \<noteq> '''' then ''?prefix='' @ query_escape pre else '''')) [] NoBody s of
        (Inl e, r) \<Rightarrow> (Inl e, r)
      | (Inr re, r) \<Rightarrow>
          if re_status re \<noteq> 200 then (Inl (KStatus ''kmsclient: status'' (re_status re) (re_raw re)), r)
          else (case decode_reply decode_items re of
                  Inl e \<Rightarrow> (Inl e, r)
                | Inr its \<Rightarrow> (Inr (item_names pre its), r)))"

section \<open>Dispatch on the transport\<close>

definition kc_get ::
    "'s zap_client \<Rightarrow> 's hnet \<Rightarrow> int \<times> int \<Rightarrow> kms_client \<Rightarrow> string \<Rightarrow> string \<Rightarrow> 's \<Rightarrow>
     (kc_err + string) \<times> kms_client \<times> 's" where
  [go_defs]: "kc_get z net tm c path name s =
     (if kc_transport c = ZapT then
        (case z_get z (kc_zap c) path name (kc_env c) s of (r, s1) \<Rightarrow> (r, c, s1))
      else http_get net tm c path name s)"

definition kc_put ::
    "'s zap_client \<Rightarrow> 's hnet \<Rightarrow> int \<times> int \<Rightarrow> kms_client \<Rightarrow> string \<Rightarrow> string \<Rightarrow> string \<Rightarrow> 's \<Rightarrow>
     kc_err option \<times> kms_client \<times> 's" where
  [go_defs]: "kc_put z net tm c path name val s =
     (if kc_transport c = ZapT then
        (case z_put z (kc_zap c) path name (kc_env c) val s of (r, s1) \<Rightarrow> (r, c, s1))
      else http_put net tm c path name val s)"

definition kc_delete ::
    "'s zap_client \<Rightarrow> 's hnet \<Rightarrow> int \<times> int \<Rightarrow> kms_client \<Rightarrow> string \<Rightarrow> string \<Rightarrow> 's \<Rightarrow>
     kc_err option \<times> kms_client \<times> 's" where
  [go_defs]: "kc_delete z net tm c path name s =
     (if kc_transport c = ZapT then
        (case z_delete z (kc_zap c) path name (kc_env c) s of (r, s1) \<Rightarrow> (r, c, s1))
      else http_delete net tm c path name s)"

definition kc_list ::
    "'s zap_client \<Rightarrow> 's hnet \<Rightarrow> int \<times> int \<Rightarrow> kms_client \<Rightarrow> string \<Rightarrow> 's \<Rightarrow>
     (kc_err + string list) \<times> kms_client \<times> 's" where
  [go_defs]: "kc_list z net tm c pre s =
     (if kc_transport c = ZapT then
        (case z_list z (kc_zap c) pre (kc_env c) s of
           (Inl e, s1) \<Rightarrow> (Inl e, c, s1)
         | (Inr names, s1) \<Rightarrow>
             (Inr (map (\<lambda>n. if pre \<noteq> '''' then pre @ ''/'' @ n else n) names), c, s1))
      else http_list net tm c pre s)"

text \<open>\<open>parse\<close> reads the whole value as JSON, \<open>dec\<close> decodes it into the destination.\<close>

definition get_json ::
    "(string \<Rightarrow> json option) \<Rightarrow> (json \<Rightarrow> bool \<times> 'r) \<Rightarrow> 's zap_client \<Rightarrow> 's hnet \<Rightarrow> int \<times> int \<Rightarrow> kms_client \<Rightarrow>
     string \<Rightarrow> string \<Rightarrow> 's \<Rightarrow> (kc_err + 'r) \<times> kms_client \<times> 's" where
  [go_defs]: "get_json parse dec z net tm c path name s =
     (case kc_get z net tm c path name s of
        (Inl e, r) \<Rightarrow> (Inl e, r)
      | (Inr val, r) \<Rightarrow>
          (case unmarshal dec \<lparr>bd_raw = val, bd_doc = parse val\<rparr> of
             None \<Rightarrow> (Inl (KWrap (''kmsclient: unmarshal '' @ path @ ''/'' @ name) KDecode), r)
           | Some t \<Rightarrow> (Inr t, r)))"

section \<open>Fetching into the environment\<close>

type_synonym vars = "string \<Rightarrow> string option"

definition kc_split_path_name :: "string \<Rightarrow> string \<times> string" where
  [go_defs]: "kc_split_path_name s =
     (case last_index CHR ''/'' s of
        None \<Rightarrow> ('''', s)
      | Some i \<Rightarrow> (take i s, drop (Suc i) s))"

text \<open>\<^verbatim>\<open>os.Setenv\<close>: the key must be non-empty, without \<open>=\<close> and NUL, the value without NUL.\<close>

definition set_env :: "vars \<Rightarrow> string \<Rightarrow> string \<Rightarrow> kc_err option \<times> vars" where
  [go_defs]: "set_env vs k v =
     (if k = '''' \<or> CHR ''='' \<in> set k \<or> CHR 0x00 \<in> set k \<or> CHR 0x00 \<in> set v
      then (Some (KEnv k), vs) else (None, vs(k \<mapsto> v)))"

definition set_env_if_empty :: "vars \<Rightarrow> string \<Rightarrow> string \<Rightarrow> kc_err option \<times> vars" where
  [go_defs]: "set_env_if_empty vs k v =
     (case vs k of
        Some existing \<Rightarrow> if existing \<noteq> '''' then (None, vs) else set_env vs k v
      | None \<Rightarrow> set_env vs k v)"

record 's fetch_state =
  fs_client :: kms_client
  fs_net :: 's
  fs_vars :: vars
  fs_count :: nat
  fs_err :: "kc_err option"

definition first_err :: "kc_err \<Rightarrow> 's fetch_state \<Rightarrow> 's fetch_state" where
  [go_defs]: "first_err e st = (if fs_err st = None then st\<lparr>fs_err := Some e\<rparr> else st)"

definition fetch_one ::
    "'s zap_client \<Rightarrow> 's hnet \<Rightarrow> int \<times> int \<Rightarrow> string \<times> string \<Rightarrow> 's fetch_state \<Rightarrow> 's fetch_state" where
  [go_defs]: "fetch_one z net tm = (\<lambda>(env_var, full_path) st.
     case kc_split_path_name full_path of (p, n) \<Rightarrow>
       if p = '''' \<or> n = '''' then first_err (KInvalid (''kmsclient: invalid path for '' @ env_var)) st
       else
         (case kc_get z net tm (fs_client st) p n (fs_net st) of
            (Inl e, c, s) \<Rightarrow>
              first_err (KWrap (''kmsclient: fetch '' @ env_var @ '' ('' @ full_path @ '')'') e)
                (st\<lparr>fs_client := c, fs_net := s\<rparr>)
          | (Inr val, c, s) \<Rightarrow>
              (case set_env_if_empty (fs_vars st) env_var val of
                 (Some e, vs) \<Rightarrow> first_err e (st\<lparr>fs_client := c, fs_net := s, fs_vars := vs\<rparr>)
               | (None, vs) \<Rightarrow>
                   st\<lparr>fs_client := c, fs_net := s, fs_vars := vs, fs_count := Suc (fs_count st)\<rparr>)))"

text \<open>The loop over Go's map, in whatever order it is iterated; \<open>tms\<close> gives each turn's clock.\<close>

fun fetch_env ::
    "'s zap_client \<Rightarrow> 's hnet \<Rightarrow> (nat \<Rightarrow> int \<times> int) \<Rightarrow> (string \<times> string) list \<Rightarrow> 's fetch_state \<Rightarrow> 's fetch_state" where
  "fetch_env z net tms [] st = st"
| "fetch_env z net tms (e # es) st =
     fetch_env z net tms es (fetch_one z net (tms (length es)) e st)"

section \<open>Identity from the environment\<close>

definition identity_from_env :: "(string \<Rightarrow> string \<Rightarrow> kc_err + 'i) \<Rightarrow> environ \<Rightarrow> string \<Rightarrow> kc_err + 'i" where
  [go_defs]: "identity_from_env new_identity E service_path =
     (let mnemonic = trim_space (first_non_empty
            [trim_space (E ''LUX_MNEMONIC''), trim_space (E ''MNEMONIC'')]) in
      if mnemonic = '''' then Inl (KInvalid ''kmsclient: LUX_MNEMONIC (or MNEMONIC) is not set'')
      else new_identity mnemonic service_path)"

end
