(* ===== verification/Tenant.thy ===== *)
theory Tenant
  imports KmsClient "HOL-Library.List_Lexorder"
begin

text \<open>
  The identifier-based and tenant calls of the service client (\<^verbatim>\<open>kmsclient/tenant.go\<close>).
  They share one shape: an authorised request, a status check, and a decoded answer.
\<close>

section \<open>Decoding\<close>

text \<open>A Go map is an association list without repeated keys; decoding merges into the old one.\<close>

definition map_put :: "string \<Rightarrow> 'a \<Rightarrow> (string \<times> 'a) list \<Rightarrow> (string \<times> 'a) list" where
  [go_defs]: "map_put k v m = (k, v) # filter (\<lambda>(k', _). k' \<noteq> k) m"

fun store_entries ::
    "(json \<Rightarrow> bool \<times> 'a) \<Rightarrow> (string \<times> json) list \<Rightarrow> (string \<times> 'a) list \<Rightarrow> bool \<times> (string \<times> 'a) list" where
  "store_entries dec [] m = (True, m)"
| "store_entries dec ((k, v) # es) m =
     (case dec v of (ok, a) \<Rightarrow>
        (case store_entries dec es (map_put k a m) of (oks, m') \<Rightarrow> (ok \<and> oks, m')))"

definition store_map ::
    "(json \<Rightarrow> bool \<times> 'a) \<Rightarrow> json \<Rightarrow> (string \<times> 'a) list \<Rightarrow> ((string \<times> 'a) list \<Rightarrow> 'r) \<Rightarrow> 'r \<Rightarrow> bool \<times> 'r" where
  [go_defs]: "store_map dec v old put t =
     (case v of
        JNull \<Rightarrow> (True, put [])
      | JObj es \<Rightarrow> (case store_entries dec es old of (ok, m) \<Rightarrow> (ok, put m))
      | _ \<Rightarrow> (False, t))"

text \<open>
  A value of type \<^verbatim>\<open>any\<close> is kept as it is; numbers are assumed to be exact in a
  \<^verbatim>\<open>float64\<close>, which is what Go reads them into.
\<close>

definition decode_any :: "json \<Rightarrow> bool \<times> json" where
  [go_defs]: "decode_any v = (True, v)"

definition decode_bool :: "json \<Rightarrow> bool \<times> bool" where
  [go_defs]: "decode_bool v = store_bool v (\<lambda>b. b) False"

record kc_secret =
  ks_id :: string
  ks_tenant :: string
  ks_path :: string
  ks_name :: string
  ks_type :: string
  ks_status :: string
  ks_version :: int64
  ks_metadata :: "(string \<times> string) list"
  ks_created :: string
  ks_updated :: string
  ks_rotated :: string
  ks_value :: string

definition store_ks :: "string \<Rightarrow> json \<Rightarrow> kc_secret \<Rightarrow> bool \<times> kc_secret" where
  [go_defs]: "store_ks f v t =
     (if f = ''secretId'' then store_str v (\<lambda>s. t\<lparr>ks_id := s\<rparr>) t
      else if f = ''tenantId'' then store_str v (\<lambda>s. t\<lparr>ks_tenant := s\<rparr>) t
      else if f = ''path'' then store_str v (\<lambda>s. t\<lparr>ks_path := s\<rparr>) t
      else if f = ''name'' then store_str v (\<lambda>s. t\<lparr>ks_name := s\<rparr>) t
      else if f = ''secretType'' then store_str v (\<lambda>s. t\<lparr>ks_type := s\<rparr>) t
      else if f = ''status'' then store_str v (\<lambda>s. t\<lparr>ks_status := s\<rparr>) t
      else if f = ''version'' then store_i64 v (\<lambda>i. t\<lparr>ks_version := i\<rparr>) t
      else if f = ''metadata'' then store_map decode_str v (ks_metadata t) (\<lambda>m. t\<lparr>ks_metadata := m\<rparr>) t
      else if f = ''createdAt'' then store_str v (\<lambda>s. t\<lparr>ks_created := s\<rparr>) t
      else if f = ''updatedAt'' then store_str v (\<lambda>s. t\<lparr>ks_updated := s\<rparr>) t
      else if f = ''rotatedAt'' then store_str v (\<lambda>s. t\<lparr>ks_rotated := s\<rparr>) t
      else store_str v (\<lambda>s. t\<lparr>ks_value := s\<rparr>) t)"

definition decode_ks :: "json \<Rightarrow> bool \<times> kc_secret" where
  [go_defs]: "decode_ks v = decode_struct
     [''secretId'', ''tenantId'', ''path'', ''name'', ''secretType'', ''status'', ''version'', ''metadata'',
      ''createdAt'', ''updatedAt'', ''rotatedAt'', ''value''] store_ks v
     \<lparr>ks_id = '''', ks_tenant = '''', ks_path = '''', ks_name = '''', ks_type = '''', ks_status = '''',
      ks_version = 0, ks_metadata = [], ks_created = '''', ks_updated = '''', ks_rotated = '''', ks_value = ''''\<rparr>"

record secret_version =
  sv_num :: int64
  sv_status :: string
  sv_created :: string
  sv_destroyed :: string

definition decode_version :: "json \<Rightarrow> bool \<times> secret_version" where
  [go_defs]: "decode_version v = decode_struct [''version'', ''status'', ''createdAt'', ''destroyedAt'']
     (\<lambda>f v t. if f = ''version'' then store_i64 v (\<lambda>i. t\<lparr>sv_num := i\<rparr>) t
              else if f = ''status'' then store_str v (\<lambda>s. t\<lparr>sv_status := s\<rparr>) t
              else if f = ''createdAt'' then store_str v (\<lambda>s. t\<lparr>sv_created := s\<rparr>) t
              else store_str v (\<lambda>s. t\<lparr>sv_destroyed := s\<rparr>) t) v
     \<lparr>sv_num = 0, sv_status = '''', sv_created = '''', sv_destroyed = ''''\<rparr>"

record tenant =
  tn_id :: string
  tn_name :: string
  tn_entity :: string
  tn_environment :: string
  tn_services :: "string list"
  tn_chains :: "string list"
  tn_created :: string
  tn_updated :: string

definition store_tenant :: "string \<Rightarrow> json \<Rightarrow> tenant \<Rightarrow> bool \<times> tenant" where
  [go_defs]: "store_tenant f v t =
     (if f = ''tenantId'' then store_str v (\<lambda>s. t\<lparr>tn_id := s\<rparr>) t
      else if f = ''name'' then store_str v (\<lambda>s. t\<lparr>tn_name := s\<rparr>) t
      else if f = ''entityType'' then store_str v (\<lambda>s. t\<lparr>tn_entity := s\<rparr>) t
      else if f = ''environment'' then store_str v (\<lambda>s. t\<lparr>tn_environment := s\<rparr>) t
      else if f = ''allowedServices'' then store_list decode_str v (\<lambda>l. t\<lparr>tn_services := l\<rparr>) t
      else if f = ''allowedChains'' then store_list decode_str v (\<lambda>l. t\<lparr>tn_chains := l\<rparr>) t
      else if f = ''createdAt'' then store_str v (\<lambda>s. t\<lparr>tn_created := s\<rparr>) t
      else store_str v (\<lambda>s. t\<lparr>tn_updated := s\<rparr>) t)"

definition decode_tenant :: "json \<Rightarrow> bool \<times> tenant" where
  [go_defs]: "decode_tenant v = decode_struct
     [''tenantId'', ''name'', ''entityType'', ''environment'', ''allowedServices'', ''allowedChains'',
      ''createdAt'', ''updatedAt''] store_tenant v
     \<lparr>tn_id = '''', tn_name = '''', tn_entity = '''', tn_environment = '''', tn_services = [], tn_chains = [],
      tn_created = '''', tn_updated = ''''\<rparr>"

record tenant_config =
  tc_tenant :: string
  tc_bindings :: "(string \<times> json) list"
  tc_flags :: "(string \<times> bool) list"
  tc_updated :: string

definition store_tc :: "string \<Rightarrow> json \<Rightarrow> tenant_config \<Rightarrow> bool \<times> tenant_config" where
  [go_defs]: "store_tc f v t =
     (if f = ''tenantId'' then store_str v (\<lambda>s. t\<lparr>tc_tenant := s\<rparr>) t
      else if f = ''bindings'' then store_map decode_any v (tc_bindings t) (\<lambda>m. t\<lparr>tc_bindings := m\<rparr>) t
      else if f = ''featureFlags'' then store_map decode_bool v (tc_flags t) (\<lambda>m. t\<lparr>tc_flags := m\<rparr>) t
      else store_str v (\<lambda>s. t\<lparr>tc_updated := s\<rparr>) t)"

definition decode_tc :: "json \<Rightarrow> bool \<times> tenant_config" where
  [go_defs]: "decode_tc v = decode_struct [''tenantId'', ''bindings'', ''featureFlags'', ''updatedAt''] store_tc v
     \<lparr>tc_tenant = '''', tc_bindings = [], tc_flags = [], tc_updated = ''''\<rparr>"

text \<open>Encoding a configuration: empty optional members are omitted, map keys come sorted.\<close>

definition json_map :: "('a \<Rightarrow> json) \<Rightarrow> (string \<times> 'a) list \<Rightarrow> json" where
  [go_defs]: "json_map f m = JObj (map (\<lambda>(k, a). (k, f a)) (sort_key fst m))"

definition tc_payload :: "tenant_config \<Rightarrow> json" where
  [go_defs]: "tc_payload cfg = JObj
     ([(''tenantId'', JStr (tc_tenant cfg))] @
      (if tc_bindings cfg = [] then [] else [(''bindings'', json_map id (tc_bindings cfg))]) @
      (if tc_flags cfg = [] then [] else [(''featureFlags'', json_map JBool (tc_flags cfg))]) @
      (if tc_updated cfg = '''' then [] else [(''updatedAt'', JStr (tc_updated cfg))]))"

record integration =
  ig_id :: string
  ig_tenant :: string
  ig_provider :: string
  ig_status :: string
  ig_refs :: "string list"
  ig_config :: "(string \<times> json) list"
  ig_created :: string

definition store_ig :: "string \<Rightarrow> json \<Rightarrow> integration \<Rightarrow> bool \<times> integration" where
  [go_defs]: "store_ig f v t =
     (if f = ''integrationId'' then store_str v (\<lambda>s. t\<lparr>ig_id := s\<rparr>) t
      else if f = ''tenantId'' then store_str v (\<lambda>s. t\<lparr>ig_tenant := s\<rparr>) t
      else if f = ''provider'' then store_str v (\<lambda>s. t\<lparr>ig_provider := s\<rparr>) t
      else if f = ''status'' then store_str v (\<lambda>s. t\<lparr>ig_status := s\<rparr>) t
      else if f = ''secretRefs'' then store_list decode_str v (\<lambda>l. t\<lparr>ig_refs := l\<rparr>) t
      else if f = ''config'' then store_map decode_any v (ig_config t) (\<lambda>m. t\<lparr>ig_config := m\<rparr>) t
      else store_str v (\<lambda>s. t\<lparr>ig_created := s\<rparr>) t)"

definition decode_ig :: "json \<Rightarrow> bool \<times> integration" where
  [go_defs]: "decode_ig v = decode_struct
     [''integrationId'', ''tenantId'', ''provider'', ''status'', ''secretRefs'', ''config'', ''createdAt''] store_ig v
     \<lparr>ig_id = '''', ig_tenant = '''', ig_provider = '''', ig_status = '''', ig_refs = [], ig_config = [],
      ig_created = ''''\<rparr>"

section \<open>Calls\<close>

text \<open>An answer that must be 200; \<open>nf\<close> is the text for 404 where the call has one.\<close>

definition checked_reply ::
    "string option \<Rightarrow> (json \<Rightarrow> bool \<times> 'r) \<Rightarrow> reply \<Rightarrow> kc_err + 'r" where
  [go_defs]: "checked_reply nf dec re =
     (if re_status re = 404 \<and> nf \<noteq> None then Inl (KNotFound (the nf))
      else if re_status re \<noteq> 200 then Inl (KStatus ''kmsclient: status'' (re_status re) (re_raw re))
      else decode_reply dec re)"

definition call ::
    "'s hnet \<Rightarrow> int \<times> int \<Rightarrow> kms_client \<Rightarrow> string \<Rightarrow> string \<Rightarrow> headers \<Rightarrow> kc_body \<Rightarrow>
     string option \<Rightarrow> (json \<Rightarrow> bool \<times> 'r) \<Rightarrow> 's \<Rightarrow> (kc_err + 'r) \<times> kms_client \<times> 's" where
  [go_defs]: "call net tm c m path hs b nf dec s =
     (case send_authed net tm (\<lambda>e. e) c m (kc_endpoint c @ path) hs b s of
        (Inl e, r) \<Rightarrow> (Inl e, r)
      | (Inr re, r) \<Rightarrow> (checked_reply nf dec re, r))"

definition by_id :: "string \<Rightarrow> string" where
  [go_defs]: "by_id secret_id = ''/v1/kms/secrets/'' @ path_escape secret_id"

definition of_tenant :: "string \<Rightarrow> string" where
  [go_defs]: "of_tenant tenant_id = ''/v1/kms/tenants/'' @ path_escape tenant_id"

definition read_secret ::
    "'s hnet \<Rightarrow> int \<times> int \<Rightarrow> kms_client \<Rightarrow> string \<Rightarrow> 's \<Rightarrow> (kc_err + kc_secret) \<times> kms_client \<times> 's" where
  [go_defs]: "read_secret net tm c secret_id s =
     call net tm c ''GET'' (by_id secret_id) [] NoBody (Some secret_id) decode_ks s"

definition get_by_id ::
    "'s hnet \<Rightarrow> int \<times> int \<Rightarrow> kms_client \<Rightarrow> string \<Rightarrow> 's \<Rightarrow> (kc_err + string) \<times> kms_client \<times> 's" where
  [go_defs]: "get_by_id net tm c secret_id s =
     (case read_secret net tm c secret_id s of (r, cs) \<Rightarrow> (map_sum id ks_value r, cs))"

definition update_secret ::
    "'s hnet \<Rightarrow> int \<times> int \<Rightarrow> kms_client \<Rightarrow> string \<Rightarrow> string \<Rightarrow> (string \<times> string) list option \<Rightarrow> 's \<Rightarrow>
     (kc_err + kc_secret) \<times> kms_client \<times> 's" where
  [go_defs]: "update_secret net tm c secret_id val metadata s =
     call net tm c ''PATCH'' (by_id secret_id) json_header
       (JsonBody (JObj [(''metadata'', case metadata of None \<Rightarrow> JNull | Some m \<Rightarrow> json_map JStr m),
          (''value'', JStr val)])) None decode_ks s"

definition delete_by_id ::
    "'s hnet \<Rightarrow> int \<times> int \<Rightarrow> kms_client \<Rightarrow> string \<Rightarrow> 's \<Rightarrow> kc_err option \<times> kms_client \<times> 's" where
  [go_defs]: "delete_by_id net tm c secret_id s =
     (case send_authed net tm (\<lambda>e. e) c ''DELETE'' (kc_endpoint c @ by_id secret_id) [] NoBody s of
        (Inl e, r) \<Rightarrow> (Some e, r)
      | (Inr re, r) \<Rightarrow>
          (if re_status re \<noteq> 204 \<and> re_status re \<noteq> 200
           then Some (KStatus ''kmsclient: status'' (re_status re) (re_raw re)) else None, r))"

definition list_versions ::
    "'s hnet \<Rightarrow> int \<times> int \<Rightarrow> kms_client \<Rightarrow> string \<Rightarrow> 's \<Rightarrow> (kc_err + secret_version list) \<times> kms_client \<times> 's" where
  [go_defs]: "list_versions net tm c secret_id s =
     call net tm c ''GET'' (by_id secret_id @ ''/versions'') [] NoBody None
       (decode_one ''items'' (\<lambda>v t. store_list decode_version v (\<lambda>l. l) t) []) s"

definition decode_rotated :: "json \<Rightarrow> bool \<times> int64" where
  [go_defs]: "decode_rotated v =
     (case decode_struct [''secretId'', ''version'']
             (\<lambda>f v t. if f = ''secretId'' then store_str v (\<lambda>s. (s, snd t)) t
                      else store_i64 v (\<lambda>i. (fst t, i)) t) v ('''', 0) of
        (ok, t) \<Rightarrow> (ok, snd t))"

definition rotate_secret ::
    "'s hnet \<Rightarrow> int \<times> int \<Rightarrow> kms_client \<Rightarrow> string \<Rightarrow> string \<Rightarrow> string \<Rightarrow> 's \<Rightarrow>
     (kc_err + secret_version) \<times> kms_client \<times> 's" where
  [go_defs]: "rotate_secret net tm c secret_id new_value idempotency_key s =
     (case call net tm c ''POST'' (by_id secret_id @ ''/rotate'')
             (json_header @ (if idempotency_key \<noteq> '''' then [(''Idempotency-Key'', idempotency_key)] else []))
             (JsonBody (JObj [(''newValue'', JStr new_value)])) None decode_rotated s of
        (r, cs) \<Rightarrow>
          (map_sum id (\<lambda>n. \<lparr>sv_num = n, sv_status = ''active'', sv_created = '''', sv_destroyed = ''''\<rparr>) r, cs))"

definition get_tenant ::
    "'s hnet \<Rightarrow> int \<times> int \<Rightarrow> kms_client \<Rightarrow> string \<Rightarrow> 's \<Rightarrow> (kc_err + tenant) \<times> kms_client \<times> 's" where
  [go_defs]: "get_tenant net tm c tenant_id s =
     call net tm c ''GET'' (of_tenant tenant_id) [] NoBody (Some tenant_id) decode_tenant s"

definition get_tenant_config ::
    "'s hnet \<Rightarrow> int \<times> int \<Rightarrow> kms_client \<Rightarrow> string \<Rightarrow> 's \<Rightarrow> (kc_err + tenant_config) \<times> kms_client \<times> 's" where
  [go_defs]: "get_tenant_config net tm c tenant_id s =
     call net tm c ''GET'' (of_tenant tenant_id @ ''/config'') [] NoBody None decode_tc s"

definition put_tenant_config ::
    "'s hnet \<Rightarrow> int \<times> int \<Rightarrow> kms_client \<Rightarrow> tenant_config \<Rightarrow> 's \<Rightarrow> (kc_err + tenant_config) \<times> kms_client \<times> 's" where
  [go_defs]: "put_tenant_config net tm c cfg s =
     call net tm c ''PUT'' (of_tenant (tc_tenant cfg) @ ''/config'') json_header (JsonBody (tc_payload cfg))
       None decode_tc s"

definition list_integrations ::
    "'s hnet \<Rightarrow> int \<times> int \<Rightarrow> kms_client \<Rightarrow> string \<Rightarrow> string \<Rightarrow> 's \<Rightarrow>
     (kc_err + integration list) \<times> kms_client \<times> 's" where
  [go_defs]: "list_integrations net tm c tenant_id provider s =
     call net tm c ''GET''
       (of_tenant tenant_id @ ''/integrations'' @
          (if provider \<noteq> '''' then ''?provider='' @ query_escape provider else '''')) [] NoBody None
       (decode_one ''items'' (\<lambda>v t. store_list decode_ig v (\<lambda>l. l) t) []) s"

section \<open>Facts\<close>

lemma map_put_lookup: "map_of (map_put k v m) k' = (if k' = k then Some v else map_of m k')"
proof -
  have "map_of (filter (\<lambda>(k'', _). k'' \<noteq> k) m) k' = (if k' = k then None else map_of m k')"
    by (induction m) auto
  then show ?thesis by (simp add: map_put_def)
qed

lemma store_entries_lookup:
  assumes "store_entries dec es m = (ok, m')" "distinct (map fst es)"
  shows "map_of m' k = (case map_of es k of None \<Rightarrow> map_of m k | Some v \<Rightarrow> Some (snd (dec v)))"
  using assms
proof (induction es arbitrary: m ok)
  case (Cons e es)
  obtain k0 v0 where e: "e = (k0, v0)" by (cases e)
  obtain ok0 a where d: "dec v0 = (ok0, a)" by (cases "dec v0")
  obtain oks m1 where r: "store_entries dec es (map_put k0 a m) = (oks, m1)"
    by (cases "store_entries dec es (map_put k0 a m)")
  from Cons.prems e d r have m1: "m1 = m'" and nd: "k0 \<notin> fst ` set es" "distinct (map fst es)"
    by (auto simp: image_iff)
  from Cons.IH [OF r [unfolded m1] nd(2)] have
    "map_of m' k = (case map_of es k of None \<Rightarrow> map_of (map_put k0 a m) k | Some v \<Rightarrow> Some (snd (dec v)))" .
  moreover have "map_of es k0 = None" using nd(1) by (simp add: map_of_eq_None_iff)
  ultimately show ?case by (auto simp: e d map_put_lookup split: option.splits)
qed simp

lemma store_entries_ok: "list_all (\<lambda>(_, v). fst (dec v)) es \<Longrightarrow> fst (store_entries dec es m)"
  by (induction es arbitrary: m) (auto split: prod.splits simp: prod_eq_iff)

lemma map_of_json: "map_of (map (\<lambda>(k, a). (k, f a)) m) k = map_option f (map_of m k)"
  by (induction m) auto

lemma distinct_sort_key: "distinct (map fst m) \<Longrightarrow> distinct (map fst (sort_key fst m))"
  by (metis (no_types, lifting) distinct_map distinct_sort inj_on_cong set_sort)

lemma map_of_sorted: "distinct (map fst m) \<Longrightarrow> map_of (sort_key fst m) = map_of m"
  by (rule map_of_inject_set [THEN iffD2]) (simp_all add: distinct_sort_key)

text \<open>A map written by \<^const>\<open>json_map\<close> is read back with the same lookups.\<close>

lemma store_map_json:
  assumes "\<And>a. dec (f a) = (True, a)" "distinct (map fst m)"
  shows "\<exists>m'. store_map dec (json_map f m) [] put t = (True, put m') \<and> map_of m' = map_of m"
proof -
  let ?es = "map (\<lambda>(k, a). (k, f a)) (sort_key fst m)"
  obtain ok m' where st: "store_entries dec ?es [] = (ok, m')" by (cases "store_entries dec ?es []")
  have "fst (store_entries dec ?es [])"
    by (rule store_entries_ok) (auto simp: list_all_iff assms(1))
  with st have ok: ok by simp
  have "map fst ?es = map fst (sort_key fst m)" by (auto simp: case_prod_unfold)
  then have d: "distinct (map fst ?es)" by (simp only: distinct_sort_key [OF assms(2)])
  have "map_of m' k = map_of m k" for k
    using store_entries_lookup [OF st d, of k]
    by (simp add: map_of_json map_of_sorted [OF assms(2)] assms(1) split: option.splits)
  with st ok show ?thesis by (auto simp: store_map_def json_map_def)
qed

end
