(* ===== verification/Secrets.thy ===== *)
theory Secrets
  imports Gate
begin

text \<open>
  What the secret handlers do to the database, in terms of the records' values, versions and
  times: on any store that keeps the interface's promises, failures included, and, for the
  round trips, on a store that does not fail.
\<close>

abbreviation put_fields :: "request \<Rightarrow> bool \<times> put_req" where
  "put_fields r \<equiv> decode_body [''path'', ''name'', ''env'', ''value''] store_put_field r no_put_req"

abbreviation patch_fields :: "request \<Rightarrow> bool \<times> patch_req" where
  "patch_fields r \<equiv> decode_body [''value'', ''version'', ''env''] store_patch_field r no_patch_req"

definition read_env :: "request \<Rightarrow> string" where
  [go_defs]: "read_env r = (if query_get r ''env'' = '''' then ''default'' else query_get r ''env'')"

definition patch_env :: "request \<Rightarrow> string" where
  [go_defs]: "patch_env r =
     (if qr_env (snd (patch_fields r)) = '''' then query_get r ''env'' else qr_env (snd (patch_fields r)))"

text \<open>The three storage keys of a record.\<close>

definition record_keys :: "string \<Rightarrow> string \<Rightarrow> string \<Rightarrow> bytes set" where
  "record_keys p n e = {secret_key p n e, version_key p n e, mtime_key p n e}"

definition only_record :: "(bytes \<Rightarrow> bytes option) \<Rightarrow> (bytes \<Rightarrow> bytes option) \<Rightarrow> string \<Rightarrow> string \<Rightarrow> string \<Rightarrow> bool" where
  "only_record m m' p n e \<longleftrightarrow> (\<forall>k. k \<notin> record_keys p n e \<longrightarrow> m' k = m k)"

lemma only_record_other:
  assumes "only_record m m' p n e" "rel_key (p', e', n') \<noteq> rel_key (p, e, n)"
  shows "stored_value val m' p' n' e' = stored_value val m p' n' e'"
    "stored_version m' p' n' e' = stored_version m p' n' e'"
    "stored_mtime m' p' n' e' = stored_mtime m p' n' e'"
  using assms
  by (auto simp: only_record_def record_keys_def stored_value_def stored_version_def stored_mtime_def
      same_key_iff)

text \<open>The record a request names, as path, environment and name.\<close>

definition put_ref :: "request \<Rightarrow> (string \<times> string \<times> string) option" where
  [go_defs]: "put_ref r = (let q = snd (put_fields r) in Some (pr_path q, pr_env q, pr_name q))"

definition path_ref :: "string \<Rightarrow> request \<Rightarrow> (string \<times> string \<times> string) option" where
  [go_defs]: "path_ref e r =
     (case split_secret_path (path_value r ''rest'') of Inl err \<Rightarrow> None | Inr (p, n) \<Rightarrow> Some (p, e, n))"

definition only_ref ::
    "(bytes \<Rightarrow> bytes option) \<Rightarrow> (bytes \<Rightarrow> bytes option) \<Rightarrow> (string \<times> string \<times> string) option \<Rightarrow> bool" where
  "only_ref m m' x \<longleftrightarrow> (case x of None \<Rightarrow> m' = m | Some (p, e, n) \<Rightarrow> only_record m m' p n e)"

lemma only_ref_refl [simp]: "only_ref m m x"
  by (auto simp: only_ref_def only_record_def split: option.split)

section \<open>Which requests reach the store\<close>

lemma put_body_accepts:
  assumes "put_body pf now c r w = (resp, w')" "rs_status resp \<noteq> 400"
  shows "fst (put_fields r)" "pr_name (snd (put_fields r)) \<noteq> ''''"
    "safe_path (pr_path (snd (put_fields r)))" "safe_path (pr_name (snd (put_fields r)))"
    "env_required (pr_env (snd (put_fields r)))"
  using assms by (auto simp: put_body_def split: prod.splits if_splits)

lemma expected_version_nonneg: "expected_version h b = Inr x \<Longrightarrow> 0 \<le> sint x"
  by (auto simp: expected_version_def Let_def split: if_splits option.splits sum.splits)

lemma expected_version_refusal: "expected_version h b = Inl (s, m) \<Longrightarrow> s \<in> {400, 428}"
  by (auto simp: expected_version_def Let_def split: if_splits option.splits sum.splits)

lemma patch_body_pass:
  assumes "split_secret_path (path_value r ''rest'') = Inr (path, name)"
    and "fst (patch_fields r)" "env_required (patch_env r)"
    and "expected_version (header_get (rq_headers r) ''If-Match'') (qr_version (snd (patch_fields r))) = Inr x"
  shows "patch_body pf now c r w =
     patch_update pf now c path name (patch_env r) (qr_value (snd (patch_fields r))) x r w"
proof -
  obtain req where f: "patch_fields r = (True, req)" using assms(2) by (cases "patch_fields r") auto
  have "patch_env r = (if qr_env req = '''' then query_get r ''env'' else qr_env req)"
    by (simp only: patch_env_def f snd_conv)
  with assms f show ?thesis by (simp add: patch_body_def Let_def)
qed

lemma patch_body_cases:
  assumes "patch_body pf now c r w = (resp, w')"
  obtains (refused) "w_db w' = w_db w" "rs_status resp \<in> {400, 428}"
  | (update) path name x where "split_secret_path (path_value r ''rest'') = Inr (path, name)"
      "fst (patch_fields r)" "env_required (patch_env r)"
      "expected_version (header_get (rq_headers r) ''If-Match'') (qr_version (snd (patch_fields r))) = Inr x"
      "0 \<le> sint x"
      "patch_update pf now c path name (patch_env r) (qr_value (snd (patch_fields r))) x r w = (resp, w')"
proof (cases "split_secret_path (path_value r ''rest'')")
  case (Inl msg)
  with assms refused show thesis by (auto simp: patch_body_def)
next
  case (Inr pn)
  obtain path name where pn: "pn = (path, name)" by (cases pn)
  obtain ok req where f: "patch_fields r = (ok, req)" by (cases "patch_fields r")
  have pe: "patch_env r = (if qr_env req = '''' then query_get r ''env'' else qr_env req)"
    by (simp only: patch_env_def f snd_conv)
  show thesis
  proof (cases "ok \<and> env_required (patch_env r)")
    case False
    with assms Inr pn f refused show thesis
      by (auto simp: patch_body_def pe Let_def split: if_splits)
  next
    case ok: True
    show thesis
    proof (cases "expected_version (header_get (rq_headers r) ''If-Match'') (qr_version req)")
      case (Inl sm)
      obtain s m where sm: "sm = (s, m)" by (cases sm)
      with Inl expected_version_refusal have "s \<in> {400, 428}" by blast
      moreover have "patch_body pf now c r w =
          (write_json s (message m), record_audit now c r path name (patch_env r) s 0 w)"
        using Inr pn f ok Inl sm by (simp add: patch_body_def pe Let_def)
      ultimately show thesis using assms refused by auto
    next
      case x: (Inr x)
      with assms Inr pn f ok expected_version_nonneg [OF x] show thesis
        by (intro update [of path name x]) (auto simp: patch_body_pass)
    qed
  qed
qed

section \<open>Effects on any store\<close>

context secret_store
begin

lemma get_body_no_effect: "w_db (snd (get_body pf now c r w)) = w_db w"
  by (auto simp: get_body_def Let_def split: sum.split)

lemma list_body_no_effect: "w_db (snd (list_body pf now c r w)) = w_db w"
  by (auto simp: list_body_def Let_def split: sum.split prod.split)

lemma get_body_200:
  assumes "get_body pf now c r w = (resp, w')" "rs_status resp = 200"
    and [simp]: "pf_ops pf = ops"
  shows "\<exists>path name v ver. split_secret_path (path_value r ''rest'') = Inr (path, name) \<and>
     stored_value val (view (w_db w)) path name (read_env r) = Some v \<and>
     rs_body resp = Json (JObj [(''secret'', JObj [(''value'', JStr v)]), (''version'', JInt ver)])"
  using assms(1,2)
  by (auto simp: get_body_def Let_def read_env_def dest!: get_value split: sum.splits)

lemma put_effect:
  assumes "st_put ops d s = (r, d1)"
    and "bump_version ops d1 (sec_path s) (sec_name s) (sec_env s) x = (v, be, d2)"
    and "write_mtime ops now d2 (sec_path s) (sec_name s) (sec_env s) = (me, d3)"
  shows "only_record (view d) (view d3) (sec_path s) (sec_name s) (sec_env s)"
    and "r = None \<Longrightarrow> stored_value val (view d3) (sec_path s) (sec_name s) (sec_env s) = Some (sec_ciphertext s)"
  using put_value [of d s d1] put_other [OF assms(1)] bump_version_other [OF assms(2)]
    write_mtime_other [OF assms(3)] assms(1)
  by (auto simp: only_record_def record_keys_def stored_value_def)

lemma put_body_201:
  assumes "put_body pf now c r w = (resp, w')" "rs_status resp = 201"
    and [simp]: "pf_ops pf = ops"
    and "snd (put_fields r) = q"
  shows "stored_value val (view (w_db w')) (pr_path q) (pr_name q) (pr_env q) = Some (pr_value q)"
    and "only_record (view (w_db w)) (view (w_db w')) (pr_path q) (pr_name q) (pr_env q)"
  using assms(1,2,4)
  by (auto simp: put_body_def Let_def dest: put_effect(1) put_effect(2)
      split: prod.splits option.splits if_splits)

lemma put_body_rejected:
  assumes "put_body pf now c r w = (resp, w')" "rs_status resp \<noteq> 201"
    and [simp]: "pf_ops pf = ops"
  shows "view (w_db w') = view (w_db w)"
  using assms(1,2)
  by (auto simp: put_body_def Let_def dest: st_put_err split: prod.splits option.splits if_splits)

lemma put_other_records:
  "st_put ops d s = (r, d1) \<Longrightarrow> stored_version (view d1) p n e = stored_version (view d) p n e"
  by (auto simp: stored_version_def put_other)

lemma mtime_other_records:
  "write_mtime ops now d p n e = (r, d1) \<Longrightarrow> stored_version (view d1) p' n' e' = stored_version (view d) p' n' e'"
  "write_mtime ops now d p n e = (r, d1) \<Longrightarrow> stored_value val (view d1) p' n' e' = stored_value val (view d) p' n' e'"
  by (auto simp: stored_version_def stored_value_def write_mtime_other)

lemma bump_other_records:
  "bump_version ops d p n e x = (v, r, d1) \<Longrightarrow> stored_value val (view d1) p' n' e' = stored_value val (view d) p' n' e'"
  by (auto simp: stored_value_def bump_version_other)

text \<open>A PATCH that answers 200 was guarded by the current version and stored its value.\<close>

lemma patch_update_200:
  assumes "patch_update pf now c p n e v x r w = (resp, w')" "rs_status resp = 200" "0 \<le> sint x"
    and [simp]: "pf_ops pf = ops"
  shows "stored_value val (view (w_db w)) p n e \<noteq> None"
    and "stored_version (view (w_db w)) p n e = Some x"
    and "stored_version (view (w_db w')) p n e = Some (x + 1)"
    and "stored_value val (view (w_db w')) p n e = Some v"
    and "only_record (view (w_db w)) (view (w_db w')) p n e"
    and "resp = write_json 200 (JObj [(''ok'', JBool True), (''version'', JInt (sint (x + 1)))])"
proof -
  let ?s = "\<lparr>sec_name = n, sec_path = p, sec_env = e, sec_ciphertext = v\<rparr>"
  from assms(1,2) obtain old nv d1 d2 me d3 where
    g: "st_get ops (w_db w) p n e = Inr old"
    and b: "bump_version ops (w_db w) p n e x = (nv, None, d1)"
    and s: "st_put ops d1 ?s = (None, d2)"
    and m: "write_mtime ops (word_of_int now) d2 p n e = (me, d3)"
    and w': "w_db w' = d3"
    and resp: "resp = write_json 200 (JObj [(''ok'', JBool True), (''version'', JInt (sint nv))])"
    by (auto simp: patch_update_def Let_def split: sum.splits prod.splits option.splits kms_err.splits)
  from bump_version_ok [OF b] assms(3)
  have nv: "nv = x + 1" "stored_version (view (w_db w)) p n e = Some x"
    and vd1: "view d1 = (view (w_db w))(version_key p n e \<mapsto> put_u64 nv)" by auto
  show "stored_value val (view (w_db w)) p n e \<noteq> None"
    using get_value [OF g] by simp
  show "stored_version (view (w_db w)) p n e = Some x" by (rule nv)
  show "stored_version (view (w_db w')) p n e = Some (x + 1)"
    using ver.bump_ok [OF b] by (simp add: w' nv mtime_other_records [OF m] put_other_records [OF s])
  show "stored_value val (view (w_db w')) p n e = Some v"
    using put_value [OF s] by (simp add: w' mtime_other_records [OF m])
  show "only_record (view (w_db w)) (view (w_db w')) p n e"
    using put_other [OF s] write_mtime_other [OF m] bump_version_other [OF b]
    by (auto simp: only_record_def record_keys_def w')
  show "resp = write_json 200 (JObj [(''ok'', JBool True), (''version'', JInt (sint (x + 1)))])"
    by (simp add: resp nv)
qed

text \<open>Any other answer leaves the value alone, and 404 and 409 leave everything alone.\<close>

lemma patch_update_refused:
  assumes "patch_update pf now c p n e v x r w = (resp, w')" "rs_status resp \<noteq> 200"
    and [simp]: "pf_ops pf = ops"
  shows "\<forall>k. k \<noteq> version_key p n e \<longrightarrow> view (w_db w') k = view (w_db w) k"
    and "rs_status resp \<noteq> 500 \<Longrightarrow> view (w_db w') = view (w_db w)"
    and "rs_status resp \<in> {404, 409, 500}"
  using assms(1,2) bump_version_other bump_version_err
  by (auto simp: patch_update_def Let_def dest!: st_put_err
      split: sum.splits prod.splits option.splits kms_err.splits)

lemma del_body_200:
  assumes "del_body pf now c r w = (resp, w')" "rs_status resp = 200"
    and [simp]: "pf_ops pf = ops"
  shows "\<exists>path name. split_secret_path (path_value r ''rest'') = Inr (path, name) \<and>
     view (w_db w) (secret_key path name (read_env r)) \<noteq> None \<and>
     view (w_db w') (secret_key path name (read_env r)) = None \<and>
     only_record (view (w_db w)) (view (w_db w')) path name (read_env r)"
proof -
  from assms(1,2) obtain path name d1 where
    sp: "split_secret_path (path_value r ''rest'') = Inr (path, name)"
    and d: "st_delete ops (w_db w) path name (read_env r) = (None, d1)"
    and w': "w_db w' = snd (delete_mtime ops (snd (delete_version ops d1 path name (read_env r))) path name (read_env r))"
    by (auto simp: del_body_def Let_def read_env_def split: sum.splits prod.splits option.splits)
  obtain e2 d2 where d2: "delete_version ops d1 path name (read_env r) = (e2, d2)"
    by (cases "delete_version ops d1 path name (read_env r)")
  obtain e3 d3 where d3: "delete_mtime ops d2 path name (read_env r) = (e3, d3)"
    by (cases "delete_mtime ops d2 path name (read_env r)")
  show ?thesis
    using st_delete_ok [OF d] delete_version_other [OF d2] delete_mtime_other [OF d3]
    by (auto intro!: exI [of _ path] exI [of _ name] simp: sp w' d2 d3 only_record_def record_keys_def)
qed

lemma del_body_refused:
  assumes "del_body pf now c r w = (resp, w')" "rs_status resp \<noteq> 200"
    and [simp]: "pf_ops pf = ops"
  shows "view (w_db w') = view (w_db w)"
  using assms(1,2)
  by (auto simp: del_body_def Let_def dest: st_delete_err split: sum.splits prod.splits option.splits)

text \<open>Whatever the body of a mutation answers, it touches the record of its request at most.\<close>

lemma body_only_record:
  assumes [simp]: "pf_ops pf = ops"
  shows "only_ref (view (w_db w)) (view (w_db (snd (put_body pf now c r w)))) (put_ref r)"
    and "only_ref (view (w_db w)) (view (w_db (snd (patch_body pf now c r w)))) (path_ref (patch_env r) r)"
    and "only_ref (view (w_db w)) (view (w_db (snd (del_body pf now c r w)))) (path_ref (read_env r) r)"
proof -
  obtain resp w' where h: "put_body pf now c r w = (resp, w')" by (cases "put_body pf now c r w")
  show "only_ref (view (w_db w)) (view (w_db (snd (put_body pf now c r w)))) (put_ref r)"
  proof (cases "rs_status resp = 201")
    case True
    from put_body_201(2) [OF h True assms refl] show ?thesis
      by (simp add: h only_ref_def put_ref_def Let_def)
  qed (simp add: h put_body_rejected [OF h _ assms])
next
  obtain resp w' where h: "patch_body pf now c r w = (resp, w')" by (cases "patch_body pf now c r w")
  then show "only_ref (view (w_db w)) (view (w_db (snd (patch_body pf now c r w)))) (path_ref (patch_env r) r)"
  proof (cases rule: patch_body_cases)
    case refused
    then show ?thesis by (simp add: h)
  next
    case (update p n x)
    have "only_record (view (w_db w)) (view (w_db w')) p n (patch_env r)"
    proof (cases "rs_status resp = 200")
      case True
      from patch_update_200(5) [OF update(6) True update(5) assms] show ?thesis .
    next
      case False
      from patch_update_refused(1) [OF update(6) False assms] show ?thesis
        by (auto simp: only_record_def record_keys_def)
    qed
    with h update(1) show ?thesis by (simp add: only_ref_def path_ref_def)
  qed
next
  obtain resp w' where h: "del_body pf now c r w = (resp, w')" by (cases "del_body pf now c r w")
  show "only_ref (view (w_db w)) (view (w_db (snd (del_body pf now c r w)))) (path_ref (read_env r) r)"
  proof (cases "rs_status resp = 200")
    case True
    from del_body_200 [OF h True assms] show ?thesis
      by (auto simp: h only_ref_def path_ref_def)
  qed (simp add: h del_body_refused [OF h _ assms])
qed

lemma gated_only_record:
  assumes "\<And>c w1. w_db w1 = w_db w \<Longrightarrow> only_ref (view (w_db w)) (view (w_db (snd (body c r w1)))) x"
  shows "only_ref (view (w_db w)) (view (w_db (snd (org_gate pf now body r w)))) x"
proof -
  obtain resp w' where h: "org_gate pf now body r w = (resp, w')" by (cases "org_gate pf now body r w")
  show ?thesis
  proof (cases "w_db w' = w_db w")
    case False
    from tenant_handler.effect_needs_claims [OF org_gate_tenant h] False obtain c where
      c: "verified_claims pf now r w = Some c" "can_act_on_org c (path_value r ''org'')" by blast
    from org_gate_pass [OF c, of body] h obtain w1 where "body c r w1 = (resp, w')" "w_db w1 = w_db w"
      by metis
    with assms [of w1 c] show ?thesis by (simp add: h)
  qed (simp add: h)
qed

lemma mutation_only_record:
  assumes "pf_ops pf = ops"
    and "(h, x) \<in> {(put_secret pf now, put_ref r), (patch_secret pf now, path_ref (patch_env r) r),
           (del_secret pf now, path_ref (read_env r) r)}"
  shows "only_ref (view (w_db w)) (view (w_db (snd (h r w)))) x"
proof -
  have "only_ref (view (w_db w)) (view (w_db (snd (org_gate pf now body r w)))) x"
    if "(body, x) \<in> {(put_body pf now, put_ref r), (patch_body pf now, path_ref (patch_env r) r),
           (del_body pf now, path_ref (read_env r) r)}" for body
  proof (rule gated_only_record)
    fix c and w1 :: "'a world"
    assume "w_db w1 = w_db w"
    with that body_only_record [OF assms(1), of w1 now c r]
    show "only_ref (view (w_db w)) (view (w_db (snd (body c r w1)))) x" by auto
  qed
  with assms(2) show ?thesis
    by (auto simp: put_secret_def patch_secret_def del_secret_def)
qed

lemma list_path_root:
  "list_path org qp = Inr lp \<Longrightarrow> lp = org_root org \<or> prefix (org_root org @ ''/'') lp"
  by (auto simp: list_path_def Let_def split: if_splits)

lemma list_body_200:
  assumes "list_body pf now c r w = (resp, w')" "rs_status resp = 200"
    and [simp]: "pf_ops pf = ops"
  obtains lp rows tr where
    "list_path (path_value r ''org'') (query_get r ''prefix'') = Inr lp"
    "list_secret_metadata ops (w_db w) lp (query_get r ''env'') = (rows, tr)"
    "rs_body resp = Json (JObj ([(''count'', JInt (int (length rows))), (''secrets'', JArr (map json_row rows))] @
        (if tr then [(''truncated'', JBool True)] else [])))"
proof -
  obtain lp where lp: "list_path (path_value r ''org'') (query_get r ''prefix'') = Inr lp"
    using assms(1,2)
    by (cases "list_path (path_value r ''org'') (query_get r ''prefix'')")
      (auto simp: list_body_def list_path_def Let_def split: if_splits prod.splits)
  obtain rows tr where lm: "list_secret_metadata ops (w_db w) lp (query_get r ''env'') = (rows, tr)"
    by (cases "list_secret_metadata ops (w_db w) lp (query_get r ''env'')")
  show thesis
    using assms(1,2) lp lm
    by (intro that [OF lp lm]) (auto simp: list_body_def Let_def split: if_splits)
qed

text \<open>
  Every listed record lies in the org's namespace, with one exception: a record at the
  parent path whose environment is the org's name.
\<close>

lemma list_rows_confined:
  assumes "list_path org qp = Inr lp" "list_secret_metadata ops d lp f = (rows, tr)" "row \<in> set rows"
  shows "row_path row = org_root org \<or> prefix (org_root org @ ''/'') (row_path row) \<or>
     org_root org = row_path row @ ''/'' @ row_env row"
proof -
  note l = listed_row [OF assms(2,3)]
  from listed_location [OF l(1,4)]
  have "row_path row = lp \<or> prefix (lp @ ''/'') (row_path row) \<or> lp = row_path row @ ''/'' @ row_env row" .
  moreover from list_path_root [OF assms(1)]
  have "lp = org_root org \<or> prefix (org_root org @ ''/'') lp" .
  moreover have "row_path row = org_root org \<or> prefix (org_root org @ ''/'') (row_path row)"
    if lp: "prefix (org_root org @ ''/'') lp" and eq: "lp = row_path row @ ''/'' @ row_env row"
  proof -
    from lp eq obtain y where y: "row_path row @ CHR ''/'' # row_env row = org_root org @ CHR ''/'' # y"
      by (auto simp: prefix_def)
    moreover have "CHR ''/'' \<notin> set (row_env row)" using l(1) by simp
    ultimately show ?thesis
      by (auto simp: append_eq_append_conv2 Cons_eq_append_conv append_eq_Cons_conv prefix_def)
  qed
  moreover have "prefix (org_root org @ ''/'') (row_path row)"
    if "prefix (org_root org @ ''/'') lp" "prefix (lp @ ''/'') (row_path row)"
    using prefix_order.trans [OF that(1) append_prefixD [OF that(2)]] .
  ultimately show ?thesis by metis
qed

end

section \<open>Answers on a store without failures\<close>

text \<open>The answer to a read, given what is stored.\<close>

definition read_answer :: "bytes option \<Rightarrow> int64 \<Rightarrow> response" where
  "read_answer v ver =
     (case v of
        None \<Rightarrow> write_json 404 (message ''not found'')
      | Some c \<Rightarrow> write_json 200
          (JObj [(''secret'', JObj [(''value'', JStr c)]), (''version'', JInt (sint ver))]))"

context reliable_store
begin

lemma get_body_answer:
  assumes "split_secret_path (path_value r ''rest'') = Inr (p, n)"
    and "view (w_db w) (secret_key p n (read_env r)) = None \<or>
         stored_value val (view (w_db w)) p n (read_env r) \<noteq> None"
    and "stored_version (view (w_db w)) p n (read_env r) = Some ver"
    and [simp]: "pf_ops pf = ops"
  shows "fst (get_body pf now c r w) = read_answer (stored_value val (view (w_db w)) p n (read_env r)) ver"
proof (cases "stored_value val (view (w_db w)) p n (read_env r)")
  case None
  with assms(2) have "view (w_db w) (secret_key p n (read_env r)) = None" by simp
  then obtain x where x: "st_get ops (w_db w) p n (read_env r) = Inl x"
    using st_get_absent by blast
  have "fst (get_body pf now c r w) = write_json 404 (message ''not found'')"
    using assms(1) x by (simp add: get_body_def read_env_def Let_def)
  with None show ?thesis by (simp add: read_answer_def)
next
  case (Some b)
  from st_get_iff [OF this] obtain s where s: "st_get ops (w_db w) p n (read_env r) = Inr s" "sec_ciphertext s = b"
    by blast
  have "fst (get_body pf now c r w) = write_json 200
      (JObj [(''secret'', JObj [(''value'', JStr (sec_ciphertext s))]), (''version'',
         JInt (sint (fst (read_version ops (w_db w) p n (read_env r)))))])"
    using assms(1) s(1) by (simp add: get_body_def read_env_def Let_def)
  with Some s(2) read_version_total [OF assms(3)] show ?thesis by (simp add: read_answer_def)
qed

lemma put_body_accepted:
  assumes "put_fields r = (True, q)" "pr_name q \<noteq> ''''" "safe_path (pr_path q)" "safe_path (pr_name q)"
    and "env_required (pr_env q)"
    and ver: "stored_version (view (w_db w)) (pr_path q) (pr_name q) (pr_env q) = Some ver"
    and [simp]: "pf_ops pf = ops"
  shows "\<exists>w'. put_body pf now c r w =
      (write_json 201 (JObj [(''ok'', JBool True), (''version'', JInt (sint (ver + 1)))]), w') \<and>
     stored_version (view (w_db w')) (pr_path q) (pr_name q) (pr_env q) = Some (ver + 1)"
proof -
  let ?s = "\<lparr>sec_name = pr_name q, sec_path = pr_path q, sec_env = pr_env q, sec_ciphertext = pr_value q\<rparr>"
  obtain d1 where d1: "st_put ops (w_db w) ?s = (None, d1)"
    using st_put_total [of "w_db w" ?s] by (cases "st_put ops (w_db w) ?s") auto
  have "stored_version (view d1) (pr_path q) (pr_name q) (pr_env q) = Some ver"
    using ver put_other_records [OF d1] by simp
  from bump_version_total [OF this, of "- 1"] obtain d2 where
    d2: "bump_version ops d1 (pr_path q) (pr_name q) (pr_env q) (- 1) = (ver + 1, None, d2)" by auto
  obtain d3 where d3: "write_mtime ops (word_of_int now) d2 (pr_path q) (pr_name q) (pr_env q) = (None, d3)"
    using write_mtime_total by blast
  show ?thesis
    using assms(1-5) d1 d2 d3 ver.bump_ok [OF d2]
    by (simp add: put_body_def mtime_other_records [OF d3])
qed

lemma patch_update_stale:
  assumes "stored_value val (view (w_db w)) p n e \<noteq> None"
    and "stored_version (view (w_db w)) p n e = Some cur" "0 \<le> sint x" "x \<noteq> cur"
    and [simp]: "pf_ops pf = ops"
  shows "rs_status (fst (patch_update pf now c p n e v x r w)) = 409"
proof -
  from assms(1) obtain b where "stored_value val (view (w_db w)) p n e = Some b" by blast
  from st_get_iff [OF this] obtain s where "st_get ops (w_db w) p n e = Inr s" by blast
  then show ?thesis
    using bump_version_stale [OF assms(2-4)] by (simp add: patch_update_def Let_def)
qed

lemma patch_update_absent:
  assumes "view (w_db w) (secret_key p n e) = None"
    and [simp]: "pf_ops pf = ops"
  shows "fst (patch_update pf now c p n e v x r w) = write_json 404 (message ''not found'')"
  using st_get_absent [OF assms(1)] by (auto simp: patch_update_def)

lemma patch_update_current:
  assumes "stored_value val (view (w_db w)) p n e \<noteq> None"
    and "stored_version (view (w_db w)) p n e = Some x" "0 \<le> sint x"
    and [simp]: "pf_ops pf = ops"
  shows "rs_status (fst (patch_update pf now c p n e v x r w)) = 200"
proof -
  let ?s = "\<lparr>sec_name = n, sec_path = p, sec_env = e, sec_ciphertext = v\<rparr>"
  from assms(1) obtain b where "stored_value val (view (w_db w)) p n e = Some b" by blast
  from st_get_iff [OF this] obtain s where s: "st_get ops (w_db w) p n e = Inr s" by blast
  obtain d1 where d1: "bump_version ops (w_db w) p n e x = (x + 1, None, d1)"
    using bump_version_total [OF assms(2)] by auto
  obtain d2 where d2: "st_put ops d1 ?s = (None, d2)"
    using st_put_total [of d1 ?s] by (cases "st_put ops d1 ?s") auto
  obtain d3 where d3: "write_mtime ops (word_of_int now) d2 p n e = (None, d3)"
    using write_mtime_total by blast
  show ?thesis using s d1 d2 d3 by (simp add: patch_update_def)
qed

lemma del_body_present:
  assumes "split_secret_path (path_value r ''rest'') = Inr (p, n)"
    and "view (w_db w) (secret_key p n (read_env r)) \<noteq> None"
    and [simp]: "pf_ops pf = ops"
  shows "\<exists>w'. del_body pf now c r w = (write_json 200 (JObj [(''ok'', JBool True)]), w') \<and>
     stored_version (view (w_db w')) p n (read_env r) = Some 0 \<and>
     stored_mtime (view (w_db w')) p n (read_env r) = Some 0"
proof -
  let ?e = "read_env r"
  obtain d1 where d1: "st_delete ops (w_db w) p n ?e = (None, d1)"
    using st_delete_total [OF assms(2)] by (cases "st_delete ops (w_db w) p n ?e") auto
  obtain d2 where d2: "delete_version ops d1 p n ?e = (None, d2)"
    using delete_key_total by (auto simp: delete_version_def)
  obtain d3 where d3: "delete_mtime ops d2 p n ?e = (None, d3)"
    using delete_key_total by (auto simp: delete_mtime_def)
  have "del_body pf now c r w =
      (write_json 200 (JObj [(''ok'', JBool True)]),
       record_audit now c r p n ?e 200 0 (w\<lparr>w_db := d3\<rparr>))"
    using assms(1) d1 d2 d3 by (simp add: del_body_def read_env_def Let_def)
  then show ?thesis
    using delete_version_ok [OF d2] delete_mtime_ok [OF d3]
    by (auto simp: stored_version_def stored_mtime_def)
qed

text \<open>
  The answer to a listing does not depend on any stored value: worlds with the same keys, the
  same versions and times and the same verification state answer alike.
\<close>

lemma list_answer_no_value:
  assumes "dom (view (w_db w1)) = dom (view (w_db w2))" "w_auth w1 = w_auth w2"
    and "\<And>p n e. view (w_db w1) (version_key p n e) = view (w_db w2) (version_key p n e)"
    and "\<And>p n e. view (w_db w1) (mtime_key p n e) = view (w_db w2) (mtime_key p n e)"
    and [simp]: "pf_ops pf = ops"
  shows "fst (list_secrets pf now r w1) = fst (list_secrets pf now r w2)"
proof -
  have l: "list_secret_metadata ops (w_db w1) lp f = list_secret_metadata ops (w_db w2) lp f" for lp f
    using assms(1,3,4) by (rule list_independent_of_values)
  have body: "fst (list_body pf now c r u1) = fst (list_body pf now c r u2)"
    if "w_db u1 = w_db w1" "w_db u2 = w_db w2" for c u1 u2
    by (simp add: list_body_def Let_def that l split: sum.split prod.split)
  obtain x st where v: "verify_jwt (pf_parse pf) (pf_fetch pf) now
      (header_get (rq_headers r) ''Authorization'') (w_auth w2) = (x, st)"
    by (cases "verify_jwt (pf_parse pf) (pf_fetch pf) now
      (header_get (rq_headers r) ''Authorization'') (w_auth w2)")
  show ?thesis
    by (cases x) (auto simp: list_secrets_def org_gate_def authorize_def assms(2) v intro!: body)
qed

end

section \<open>A write and a later read\<close>

lemma accepted_put_read:
  assumes "reliable_store ops view val" and ops: "pf_ops pf = ops"
    and "put_secret pf now r w = (resp, w')" "rs_status resp = 201" "snd (put_fields r) = q"
    and "stored_version (view (w_db w)) (pr_path q) (pr_name q) (pr_env q) = Some ver"
    and "verified_claims pf now' r' w' = Some c" "can_act_on_org c (path_value r' ''org'')"
    and "split_secret_path (path_value r' ''rest'') = Inr (pr_path q, pr_name q)" "read_env r' = pr_env q"
  shows "fst (get_secret pf now' r' w') = write_json 200
     (JObj [(''secret'', JObj [(''value'', JStr (pr_value q))]), (''version'', JInt (sint (ver + 1)))])"
proof -
  note ss = reliable_store.axioms(1) [OF assms(1)]
  from assms(3,4) obtain c0 w1 where put: "put_body pf now c0 r w1 = (resp, w')" and w1: "w_db w1 = w_db w"
    using org_gate_ok [OF assms(3) [unfolded put_secret_def]] by auto
  note acc = put_body_accepts [OF put]
  have f: "put_fields r = (True, q)"
    using acc(1) assms(4,5) by (cases "put_fields r") auto
  have val: "stored_value val (view (w_db w')) (pr_path q) (pr_name q) (pr_env q) = Some (pr_value q)"
    using secret_store.put_body_201 [OF ss put assms(4) ops assms(5)] by simp
  from reliable_store.put_body_accepted [OF assms(1) f, of w1 ver pf now c0] acc assms(4,5,6) ops w1 put
  have ver: "stored_version (view (w_db w')) (pr_path q) (pr_name q) (pr_env q) = Some (ver + 1)" by auto
  obtain w2 where g: "get_secret pf now' r' w' = get_body pf now' c r' w2" and w2: "w_db w2 = w_db w'"
    using org_gate_pass [OF assms(7,8), of "get_body pf now'"] unfolding get_secret_def by metis
  from reliable_store.get_body_answer [OF assms(1,9) _ _ ops, of w2 "ver + 1" now' c] val ver assms(10)
  show ?thesis by (simp add: g w2 read_answer_def)
qed

end
