(* ===== verification/Wire.thy ===== *)
theory Wire
  imports Tenant Mux Secrets
begin

text \<open>
  The service client against the server: an \<^typ>\<open>'s hnet\<close> that parses the request line as
  \<^verbatim>\<open>net/http\<close> does, runs \<^const>\<open>server_handle\<close> and hands its answer back, and
  answers the token URL with what the IAM says.  What one side writes into a URL or a body is
  what the other side reads.
\<close>

section \<open>The request line\<close>

definition cut_byte :: "char \<Rightarrow> string \<Rightarrow> string \<times> string" where
  [go_defs]: "cut_byte c s = (case index_byte c s of None \<Rightarrow> (s, '''') | Some i \<Rightarrow> (take i s, drop (Suc i) s))"

text \<open>\<^verbatim>\<open>url.ParseQuery\<close>: a pair that does not decode is dropped.\<close>

definition parse_pair :: "string \<Rightarrow> (string \<times> string) option" where
  [go_defs]: "parse_pair kv =
     (if kv = '''' \<or> CHR '';'' \<in> set kv then None
      else case cut_byte CHR ''='' kv of (k, v) \<Rightarrow>
             (case (query_unescape k, query_unescape v) of (Some a, Some b) \<Rightarrow> Some (a, b) | _ \<Rightarrow> None))"

definition parse_query :: "string \<Rightarrow> (string \<times> string) list" where
  [go_defs]: "parse_query q = List.map_filter parse_pair (go_split CHR ''&'' q)"

text \<open>
  The decoded segments and the query of a request target; \<^const>\<open>None\<close> for a target that
  does not decode or that the mux would redirect to its clean form.
\<close>

definition clean_target :: "string list \<Rightarrow> bool" where
  [go_defs]: "clean_target segs \<longleftrightarrow> '''' \<notin> set (butlast segs) \<and> ''.'' \<notin> set segs \<and> ''..'' \<notin> set segs"

definition parse_target :: "string \<Rightarrow> (string list \<times> (string \<times> string) list) option" where
  [go_defs]: "parse_target t =
     (case cut_byte CHR ''?'' t of (p, q) \<Rightarrow>
        (case go_split CHR ''/'' p of
           [] \<Rightarrow> None
         | s # segs \<Rightarrow>
             if s \<noteq> '''' \<or> segs = [] \<or> \<not> clean_target segs then None
             else map_option (\<lambda>ss. (ss, parse_query q)) (those (map path_unescape segs))))"

section \<open>The wire\<close>

text \<open>
  \<open>wi_size\<close> is the length of an encoded body, \<open>wi_render\<close> the bytes of a response body,
  \<open>wi_iam\<close> the answer of the IAM's token endpoint.
\<close>

record ('d, 'm, 'rot) link =
  wi_server :: "('d, 'm, 'rot) server"
  wi_base :: string
  wi_iam_base :: string
  wi_iam :: "kc_body \<Rightarrow> outcome"
  wi_size :: "json \<Rightarrow> nat"
  wi_render :: "payload \<Rightarrow> bytes"

definition wire_request ::
    "(json \<Rightarrow> nat) \<Rightarrow> string \<Rightarrow> string list \<Rightarrow> (string \<times> string) list \<Rightarrow> headers \<Rightarrow> kc_body \<Rightarrow> request" where
  [go_defs]: "wire_request sz m segs q hs b =
     \<lparr>rq_method = m, rq_path = CHR ''/'' # go_join CHR ''/'' segs, rq_vals = [], rq_query = q,
      rq_headers = hs, rq_body = (case b of JsonBody v \<Rightarrow> Some (sz v, v) | _ \<Rightarrow> None), rq_remote = ''''\<rparr>"

definition wire_reply :: "(payload \<Rightarrow> bytes) \<Rightarrow> response \<Rightarrow> reply" where
  [go_defs]: "wire_reply render resp =
     (let doc = (case rs_body resp of Json v \<Rightarrow> Some v | _ \<Rightarrow> None)
      in \<lparr>re_status = rs_status resp, re_raw = render (rs_body resp), re_doc = doc, re_first = doc\<rparr>)"

definition wire :: "('d, 'm, 'rot) link \<Rightarrow> int \<Rightarrow> ('d world \<times> 'm) hnet" where
  [go_defs]: "wire wi now m url hs b s =
     (if url = wi_iam_base wi @ ''/v1/iam/oauth/token'' then (wi_iam wi b, s)
      else if prefix (wi_base wi) url then
        (case parse_target (drop (length (wi_base wi)) url) of
           None \<Rightarrow> (Failed ''redirect'', s)
         | Some (segs, q) \<Rightarrow>
             (case server_handle (wi_server wi) now segs (wire_request (wi_size wi) m segs q hs b) s of
                (resp, s1) \<Rightarrow> (Replied (wire_reply (wi_render wi) resp), s1)))
      else (Failed ''no such host'', s))"

lemma wire_reply_sel [simp]:
  "re_status (wire_reply render resp) = rs_status resp" "re_raw (wire_reply render resp) = render (rs_body resp)"
  "re_doc (wire_reply render resp) = (case rs_body resp of Json v \<Rightarrow> Some v | _ \<Rightarrow> None)"
  by (simp_all add: wire_reply_def Let_def)

section \<open>URLs are read as they were written\<close>

lemma safe_segment_bytes: "safe_segment s \<Longrightarrow> list_all segment_byte s"
  by (auto simp: safe_segment_def list_all_iff safe_byte_def segment_byte_def alnum_def)

lemma safe_byte_url: "safe_byte c \<Longrightarrow> c \<noteq> CHR ''?'' \<and> c \<noteq> CHR ''/'' \<and> c \<noteq> CHR ''%''"
  by (auto simp: safe_byte_def)

lemma unescape_escape_map: "those (map (path_unescape \<circ> path_escape) ss) = Some ss"
  by (induction ss) (simp_all add: esc.dec_enc)

lemma path_escape_dots: "path_escape s = ''.'' \<longleftrightarrow> s = ''.''" "path_escape s = ''..'' \<longleftrightarrow> s = ''..''"
  "path_escape s = '''' \<longleftrightarrow> s = ''''"
proof -
  have "path_escape ''.'' = ''.''" "path_escape ''..'' = ''..''" "path_escape '''' = ''''" by code_simp+
  then show "path_escape s = ''.'' \<longleftrightarrow> s = ''.''" "path_escape s = ''..'' \<longleftrightarrow> s = ''..''"
    "path_escape s = '''' \<longleftrightarrow> s = ''''"
    using esc.enc_eq_iff [of s] by metis+
qed

definition no_dots :: "string list \<Rightarrow> bool" where
  "no_dots ss \<longleftrightarrow> ss \<noteq> [] \<and> '''' \<notin> set (butlast ss) \<and> ''.'' \<notin> set ss \<and> ''..'' \<notin> set ss"

lemma clean_escaped: "no_dots ss \<Longrightarrow> clean_target (map path_escape ss)"
  by (auto simp: no_dots_def clean_target_def map_butlast [symmetric] path_escape_dots image_iff
      dest: sym)

lemma cut_free: "c \<notin> set s \<Longrightarrow> cut_byte c s = (s, '''')" "c \<notin> set s \<Longrightarrow> cut_byte c (s @ c # t) = (s, t)"
  by (simp_all add: cut_byte_def index_byte_append index_byte_None [THEN iffD2])

lemma join_escaped_free: "CHR ''?'' \<notin> set (go_join CHR ''/'' (map path_escape ss))"
proof -
  have "set (go_join CHR ''/'' ts) \<subseteq> insert CHR ''/'' (\<Union> (set ` set ts))" for ts
    by (induction "CHR ''/''" ts rule: go_join.induct) auto
  from this [of "map path_escape ss"] show ?thesis using path_escape_free(2) by fastforce
qed

lemma split_escaped:
  "ss \<noteq> [] \<Longrightarrow> go_split CHR ''/'' (go_join CHR ''/'' (map path_escape ss)) = map path_escape ss"
  using path_escape_free(1) by (intro go_split_join) auto

lemma parse_target_escaped:
  assumes "no_dots ss"
  shows "parse_target (CHR ''/'' # go_join CHR ''/'' (map path_escape ss)) = Some (ss, [])"
    and "parse_target (CHR ''/'' # go_join CHR ''/'' (map path_escape ss) @ CHR ''?'' # q) = Some (ss, parse_query q)"
proof -
  let ?p = "go_join CHR ''/'' (map path_escape ss)"
  have ne: "ss \<noteq> []" using assms by (simp add: no_dots_def)
  have free: "CHR ''?'' \<notin> set (CHR ''/'' # ?p)" using join_escaped_free by auto
  have sp: "go_split CHR ''/'' (CHR ''/'' # ?p) = '''' # map path_escape ss"
    using split_escaped [OF ne] by simp
  have q0: "parse_query '''' = []" by code_simp
  show "parse_target (CHR ''/'' # ?p) = Some (ss, [])"
    unfolding parse_target_def cut_free(1) [OF free]
    using sp ne clean_escaped [OF assms] by (simp add: unescape_escape_map q0)
  have "cut_byte CHR ''?'' (CHR ''/'' # ?p @ CHR ''?'' # q) = (CHR ''/'' # ?p, q)"
    using cut_free(2) [OF free] by simp
  then show "parse_target (CHR ''/'' # ?p @ CHR ''?'' # q) = Some (ss, parse_query q)"
    unfolding parse_target_def
    using sp ne clean_escaped [OF assms] by (simp add: unescape_escape_map)
qed

lemma parse_query_pair:
  assumes "CHR ''='' \<notin> set k" "CHR ''&'' \<notin> set k" "CHR '';'' \<notin> set k" "query_unescape k = Some k"
  shows "parse_query (k @ CHR ''='' # query_escape v) = [(k, v)]"
proof -
  let ?kv = "k @ CHR ''='' # query_escape v"
  have "CHR ''&'' \<notin> set ?kv" "CHR '';'' \<notin> set ?kv"
    using assms query_escape_free by auto
  moreover have "cut_byte CHR ''='' ?kv = (k, query_escape v)" by (rule cut_free(2) [OF assms(1)])
  ultimately have "parse_pair ?kv = Some (k, v)"
    using assms(4) by (simp add: parse_pair_def qesc.dec_enc)
  then show ?thesis
    using \<open>CHR ''&'' \<notin> set ?kv\<close> by (simp add: parse_query_def go_split_free map_filter_simps)
qed

lemma parse_env_query: "parse_query (''env='' @ query_escape v) = [(''env'', v)]"
  using parse_query_pair [of "''env''" v] by simp

text \<open>The segments of a client URL.\<close>

definition org_segs :: "string \<Rightarrow> string list \<Rightarrow> string list" where
  "org_segs org rest = [''v1'', ''kms'', ''orgs'', org, ''secrets''] @ rest"

lemma literal_escapes:
  "path_escape ''v1'' = ''v1''" "path_escape ''kms'' = ''kms''" "path_escape ''orgs'' = ''orgs''"
  "path_escape ''secrets'' = ''secrets''"
  by code_simp+

lemma secrets_url_segs:
  "kc_secrets_url c = kc_endpoint c @ CHR ''/'' # go_join CHR ''/'' (map path_escape (org_segs (kc_org c) []))"
  by (simp add: kc_secrets_url_def org_segs_def literal_escapes)

lemma secret_path_segs:
  assumes "trim_byte CHR ''/'' path = path" "trim_byte CHR ''/'' name = name" "path \<noteq> ''''"
  shows "kc_secret_path c path name =
    kc_endpoint c @ CHR ''/'' # go_join CHR ''/'' (map path_escape (org_segs (kc_org c) (go_split CHR ''/'' (path @ ''/'' @ name))))"
proof -
  let ?ss = "go_split CHR ''/'' (path @ ''/'' @ name)"
  have "map path_escape ?ss \<noteq> []" by simp
  then show ?thesis
    using assms
    by (simp add: kc_secret_path_def kc_secrets_url_def org_segs_def literal_escapes go_join_Cons Let_def del: go_split.simps)
qed

section \<open>Requests arrive at their handlers\<close>

lemma pick_secrets:
  assumes "org \<noteq> ''''"
  shows "pick_route b ''POST'' (org_segs org []) = Some (''POST'', secrets_pat, RPut)"
    "pick_route b ''GET'' (org_segs org []) = Some (''GET'', secrets_pat, RList)"
    "pick_route b ''GET'' (org_segs org (x # xs)) = Some (''GET'', secrets_pat @ [Rest ''rest''], RGet)"
    "pick_route b ''DELETE'' (org_segs org (x # xs)) = Some (''DELETE'', secrets_pat @ [Rest ''rest''], RDelete)"
  using assms
  by (simp_all add: pick_route_def route_table_def base_routes_def org_segs_def secrets_pat_def method_fits_def)

lemma match_org_segs:
  assumes "org \<noteq> ''''"
  shows "match_segs secrets_pat (org_segs org []) = Some [(''org'', org)]"
    "match_segs (secrets_pat @ [Rest ''rest'']) (org_segs org (x # xs)) =
       Some [(''org'', org), (''rest'', go_join CHR ''/'' (x # xs))]"
  using assms by (simp_all add: secrets_pat_def org_segs_def)

text \<open>The headers the client sends are none of those the server strips.\<close>

lemma client_headers_kept:
  "fold header_del identity_headers [(''Authorization'', t)] = [(''Authorization'', t)]"
  "fold header_del identity_headers [(''Authorization'', t), (''Content-Type'', u)] =
     [(''Authorization'', t), (''Content-Type'', u)]"
proof -
  have "''Authorization'' \<notin> canonical_key ` set identity_headers"
    "''Content-Type'' \<notin> canonical_key ` set identity_headers" by code_simp+
  then show "fold header_del identity_headers [(''Authorization'', t)] = [(''Authorization'', t)]"
    "fold header_del identity_headers [(''Authorization'', t), (''Content-Type'', u)] =
       [(''Authorization'', t), (''Content-Type'', u)]"
    by (simp_all add: fold_header_del)
qed

text \<open>The request a handler sees, and the answer it gives over the wire.\<close>

definition at_route ::
    "(json \<Rightarrow> nat) \<Rightarrow> string \<Rightarrow> string list \<Rightarrow> (string \<times> string) list \<Rightarrow> headers \<Rightarrow> kc_body \<Rightarrow>
     (string \<times> string) list \<Rightarrow> request" where
  "at_route sz m segs q hs b vals = (wire_request sz m segs q hs b)\<lparr>rq_vals := vals\<rparr>"

lemma server_runs:
  assumes "m \<notin> {''TRACE'', ''CONNECT'', ''OPTIONS''}" "fold header_del identity_headers hs = hs"
    and "pick_route (sv_keys_on sv) m segs = Some (pm, pat, rt)" "match_segs pat segs = Some vals"
  shows "server_handle sv now segs (wire_request sz m segs q hs b) s = run_route sv now rt (at_route sz m segs q hs b vals) s"
  using assms
  by (simp add: server_handle_def method_allowlist_def strip_identity_headers_def mux_serve_def at_route_def
      wire_request_def)

text \<open>
  A client of the linked server, on HTTP, with a token that is still good; the IAM is not a
  part of the server.
\<close>

definition linked :: "('d, 'm, 'rot) link \<Rightarrow> kms_client \<Rightarrow> bool" where
  "linked wi c \<longleftrightarrow> kc_endpoint c = wi_base wi \<and> kc_transport c = HttpT \<and>
     \<not> prefix (wi_base wi) (wi_iam_base wi @ ''/v1/iam/oauth/token'') \<and>
     kc_org c \<noteq> '''' \<and> kc_org c \<noteq> ''.'' \<and> kc_org c \<noteq> ''..''"

definition holds_token :: "kms_client \<Rightarrow> int \<Rightarrow> bool" where
  "holds_token c t \<longleftrightarrow> kc_token c \<noteq> '''' \<and> t < kc_expiry c - 60 * 1000000000"

lemma cached_token: "holds_token c (fst tm) \<Longrightarrow> get_token net tm c s = (Inr (kc_token c), c, s)"
  by (simp add: get_token_def holds_token_def)

lemma wire_call:
  assumes "linked wi c" "holds_token c (fst tm)" "parse_target target = Some (segs, q)"
    and "server_handle (wi_server wi) now segs
           (wire_request (wi_size wi) m segs q ((''Authorization'', ''Bearer '' @ kc_token c) # hs) b) s = (resp, s1)"
  shows "send_authed (wire wi now) tm wb c m (kc_endpoint c @ target) hs b s =
     (Inr (wire_reply (wi_render wi) resp), c, s1)"
proof -
  have "kc_endpoint c @ target \<noteq> wi_iam_base wi @ ''/v1/iam/oauth/token''"
    using assms(1) unfolding linked_def prefix_def by metis
  moreover have "prefix (wi_base wi) (kc_endpoint c @ target)"
    "drop (length (wi_base wi)) (kc_endpoint c @ target) = target"
    using assms(1) by (simp_all add: linked_def)
  ultimately have "wire wi now m (kc_endpoint c @ target) ((''Authorization'', ''Bearer '' @ kc_token c) # hs) b s =
      (Replied (wire_reply (wi_render wi) resp), s1)"
    unfolding wire_def using assms(3,4) by simp
  then show ?thesis by (simp add: send_authed_def cached_token [OF assms(2)])
qed

lemma no_dots_org:
  assumes "linked wi c" "list_all safe_segment ss"
  shows "no_dots (org_segs (kc_org c) ss)"
proof -
  have "'''' \<notin> set ss" "''.'' \<notin> set ss" "''..'' \<notin> set ss"
    using assms(2) by (auto simp: list_all_iff safe_segment_def)
  then have "'''' \<notin> set (org_segs (kc_org c) ss)" "''.'' \<notin> set (org_segs (kc_org c) ss)"
    "''..'' \<notin> set (org_segs (kc_org c) ss)" "org_segs (kc_org c) ss \<noteq> []"
    using assms(1) by (simp_all add: org_segs_def linked_def eq_commute)
  then show ?thesis using in_set_butlastD unfolding no_dots_def by metis
qed

section \<open>A write over the wire\<close>

abbreviation bearer :: "kms_client \<Rightarrow> headers" where
  "bearer c \<equiv> [(''Authorization'', ''Bearer '' @ kc_token c)]"

definition put_at :: "('d, 'm, 'rot) link \<Rightarrow> kms_client \<Rightarrow> string \<Rightarrow> string \<Rightarrow> string \<Rightarrow> request" where
  "put_at wi c path name v = at_route (wi_size wi) ''POST'' (org_segs (kc_org c) []) [] (bearer c @ json_header)
     (JsonBody (put_payload c path name v)) [(''org'', kc_org c)]"

definition item_at :: "('d, 'm, 'rot) link \<Rightarrow> string \<Rightarrow> kms_client \<Rightarrow> string \<Rightarrow> string \<Rightarrow> request" where
  "item_at wi m c path name =
     at_route (wi_size wi) m (org_segs (kc_org c) (go_split CHR ''/'' (path @ ''/'' @ name))) [(''env'', kc_env c)]
       (bearer c) NoBody [(''org'', kc_org c), (''rest'', path @ ''/'' @ name)]"

lemma put_at_fields:
  assumes "wi_size wi (put_payload c path name v) \<le> max_body_bytes"
  shows "put_fields (put_at wi c path name v) =
     (True, \<lparr>pr_path = path, pr_name = name, pr_env = kc_env c, pr_value = v\<rparr>)"
  using assms
  by (simp add: put_at_def at_route_def wire_request_def put_payload_def decode_body_def read_json_def
      decode_struct_def match_field_def store_put_field_def store_str_def no_put_req_def)

lemma item_at_vals:
  "path_value (item_at wi m c path name) ''org'' = kc_org c"
  "path_value (item_at wi m c path name) ''rest'' = path @ ''/'' @ name"
  "query_get (item_at wi m c path name) ''env'' = kc_env c"
  by (simp_all add: item_at_def at_route_def wire_request_def lookup0_def)

lemma put_secret_status:
  assumes "put_secret pf now r w = (resp, w')" "rs_status resp = 201 \<or> rs_status resp = 200"
  shows "rs_status resp = 201"
proof -
  have "put_body pf now c r w1 = (resp, w') \<Longrightarrow> rs_status resp \<noteq> 200" for c w1
    by (auto simp: put_body_def Let_def split: prod.splits option.splits if_splits)
  with org_gate_ok [OF assms(1) [unfolded put_secret_def]] assms(2) show ?thesis by auto
qed

lemma wire_put:
  assumes "linked wi c" "holds_token c (fst tm)"
    and "http_put (wire wi now) tm c path name v s = (None, c1, s1)"
  shows "c1 = c \<and> (\<exists>resp w'. put_secret (sv_pf (wi_server wi)) now (put_at wi c path name v) (fst s) = (resp, w') \<and>
     rs_status resp = 201 \<and> s1 = (w', snd s))"
proof -
  let ?hs = "bearer c @ json_header"
  have org: "kc_org c \<noteq> ''''" using assms(1) by (simp add: linked_def)
  have pt: "parse_target (CHR ''/'' # go_join CHR ''/'' (map path_escape (org_segs (kc_org c) []))) =
      Some (org_segs (kc_org c) [], [])"
    by (rule parse_target_escaped(1) [OF no_dots_org [OF assms(1)]]) simp
  have hs: "fold header_del identity_headers ?hs = ?hs"
    using client_headers_kept(2) by simp
  have "server_handle (wi_server wi) now (org_segs (kc_org c) [])
      (wire_request (wi_size wi) ''POST'' (org_segs (kc_org c) []) [] ?hs (JsonBody (put_payload c path name v))) s =
     run_route (wi_server wi) now RPut (put_at wi c path name v) s"
    unfolding put_at_def
    by (rule server_runs [OF _ hs pick_secrets(1) [OF org] match_org_segs(1) [OF org]]) simp
  moreover obtain resp w' where p: "put_secret (sv_pf (wi_server wi)) now (put_at wi c path name v) (fst s) = (resp, w')"
    by (cases "put_secret (sv_pf (wi_server wi)) now (put_at wi c path name v) (fst s)")
  ultimately have "server_handle (wi_server wi) now (org_segs (kc_org c) [])
      (wire_request (wi_size wi) ''POST'' (org_segs (kc_org c) []) []
        ((''Authorization'', ''Bearer '' @ kc_token c) # json_header) (JsonBody (put_payload c path name v))) s =
     (resp, w', snd s)"
    by (simp add: on_world_def)
  from wire_call [OF assms(1,2) pt this] assms(3) have "c1 = c" "s1 = (w', snd s)"
    "rs_status resp = 201 \<or> rs_status resp = 200"
    by (auto simp: http_put_def secrets_url_segs split: if_splits)
  with put_secret_status [OF p] p show ?thesis by blast
qed

section \<open>Reads and deletions over the wire\<close>

lemma split_slash_cons: "\<exists>x xs. go_split CHR ''/'' s = x # xs"
  by (cases "go_split CHR ''/'' s") auto

lemma trim_byte_ends:
  assumes "s \<noteq> []" "hd s \<noteq> c" "last s \<noteq> c"
  shows "trim_byte c s = s"
proof -
  have "dropWhile (\<lambda>x. x = c) s = s" using assms(1,2) by (cases s) simp_all
  moreover have "dropWhile (\<lambda>x. x = c) (rev s) = rev s"
    using assms(1,3) by (cases s rule: rev_cases) simp_all
  ultimately show ?thesis by (simp add: trim_byte_def trim_right_byte_def)
qed

lemma safe_path_ends:
  assumes "safe_path p" "p \<noteq> ''''"
  shows "trim_byte CHR ''/'' p = p"
proof (rule trim_byte_ends [OF assms(2)])
  have segs: "list_all safe_segment (go_split CHR ''/'' p)" using assms by (simp add: safe_path_segments)
  show "hd p \<noteq> CHR ''/''"
  proof
    assume "hd p = CHR ''/''"
    then have "'''' \<in> set (go_split CHR ''/'' p)" using assms(2) by (cases p) auto
    with segs show False by (auto simp: list_all_iff safe_segment_def)
  qed
  show "last p \<noteq> CHR ''/''"
  proof
    assume "last p = CHR ''/''"
    then obtain q where "p = q @ CHR ''/'' # []" using assms(2) by (metis append_butlast_last_id)
    then have "'''' \<in> set (go_split CHR ''/'' p)" by (simp add: go_split_app)
    with segs show False by (auto simp: list_all_iff safe_segment_def)
  qed
qed

lemma item_url:
  assumes "linked wi c" "path \<noteq> ''''" "safe_path path" "safe_segment name"
  shows "\<exists>t. kc_secret_url c path name = kc_endpoint c @ t \<and>
     parse_target t = Some (org_segs (kc_org c) (go_split CHR ''/'' (path @ ''/'' @ name)), [(''env'', kc_env c)])"
proof -
  let ?ss = "go_split CHR ''/'' (path @ ''/'' @ name)"
  have n: "name \<noteq> ''''" "CHR ''/'' \<notin> set name"
    using assms(4) by (auto simp: safe_segment_def list_all_iff dest: safe_byte_neq)
  then have sn: "safe_path name" using assms(4) by (simp add: safe_path_leaf)
  have "safe_path (path @ CHR ''/'' # name)" using assms n sn by (simp add: safe_path_append)
  then have "list_all safe_segment ?ss" by (simp add: safe_path_segments)
  from parse_target_escaped(2) [OF no_dots_org [OF assms(1) this], of "''env='' @ query_escape (kc_env c)",
      unfolded parse_env_query]
  have "parse_target ((CHR ''/'' # go_join CHR ''/'' (map path_escape (org_segs (kc_org c) ?ss))) @
      CHR ''?'' # ''env='' @ query_escape (kc_env c)) = Some (org_segs (kc_org c) ?ss, [(''env'', kc_env c)])"
    by simp
  moreover have "kc_secret_url c path name =
      kc_endpoint c @ (CHR ''/'' # go_join CHR ''/'' (map path_escape (org_segs (kc_org c) ?ss))) @
        CHR ''?'' # ''env='' @ query_escape (kc_env c)"
    unfolding kc_secret_url_def
      secret_path_segs [OF safe_path_ends [OF assms(3,2)] safe_path_ends [OF sn n(1)] assms(2)]
    by simp
  ultimately show ?thesis by blast
qed

lemma wire_item:
  assumes "linked wi c" "holds_token c (fst tm)" "path \<noteq> ''''" "safe_path path" "safe_segment name"
    and "m = ''GET'' \<and> rt = RGet \<or> m = ''DELETE'' \<and> rt = RDelete"
    and "run_route (wi_server wi) now rt (item_at wi m c path name) s = (resp, s1)"
  shows "send_authed (wire wi now) tm wb c m (kc_secret_url c path name) [] NoBody s =
     (Inr (wire_reply (wi_render wi) resp), c, s1)"
proof -
  let ?ss = "go_split CHR ''/'' (path @ ''/'' @ name)"
  from item_url [OF assms(1,3-5)] obtain t where url: "kc_secret_url c path name = kc_endpoint c @ t"
    and pt: "parse_target t = Some (org_segs (kc_org c) ?ss, [(''env'', kc_env c)])" by blast
  obtain x xs where ss: "?ss = x # xs" using split_slash_cons by blast
  have join: "go_join CHR ''/'' (x # xs) = path @ ''/'' @ name" using go_join_split ss by metis
  have org: "kc_org c \<noteq> ''''" using assms(1) by (simp add: linked_def)
  obtain pm where pick: "pick_route (sv_keys_on (wi_server wi)) m (org_segs (kc_org c) (x # xs)) =
      Some (pm, secrets_pat @ [Rest ''rest''], rt)"
    using assms(6) pick_secrets(3,4) [OF org] by blast
  have "server_handle (wi_server wi) now (org_segs (kc_org c) ?ss)
      (wire_request (wi_size wi) m (org_segs (kc_org c) ?ss) [(''env'', kc_env c)] (bearer c) NoBody) s =
     run_route (wi_server wi) now rt (item_at wi m c path name) s"
    unfolding item_at_def ss
    using assms(6) match_org_segs(2) [OF org, of x xs, unfolded join]
    by (intro server_runs [OF _ client_headers_kept(1) pick]) auto
  with assms(7) have "server_handle (wi_server wi) now (org_segs (kc_org c) ?ss)
      (wire_request (wi_size wi) m (org_segs (kc_org c) ?ss) [(''env'', kc_env c)] (bearer c) NoBody) s = (resp, s1)"
    by simp
  from wire_call [OF assms(1,2) pt this] show ?thesis by (simp only: url)
qed

lemma get_answer_stored:
  assumes "rs_status resp = 200" "rs_body resp = Json (JObj [(''secret'', JObj [(''value'', JStr v)]), (''version'', JInt n)])"
  shows "get_answer path name (wire_reply render resp) = Inr v"
  using assms
  by (simp add: get_answer_def decode_reply_def decode_wrapped_def decode_struct_def match_field_def
      store_wrapped_def store_str_def Let_def lower_byte_def)

text \<open>What was put is what is got, by a client whose token still verifies.\<close>

lemma wire_put_get:
  assumes "reliable_store ops view val" "pf_ops (sv_pf (wi_server wi)) = ops"
    and "linked wi c" "holds_token c (fst tm)" "holds_token c (fst tm')"
    and "path \<noteq> ''''" "CHR ''/'' \<notin> set name" "wi_size wi (put_payload c path name v) \<le> max_body_bytes"
    and "http_put (wire wi now) tm c path name v s = (None, c1, s1)"
    and "stored_version (view (w_db (fst s))) path name (kc_env c) = Some ver"
    and "verified_claims (sv_pf (wi_server wi)) now' (item_at wi ''GET'' c path name) (fst s1) = Some cl"
    and "can_act_on_org cl (kc_org c)"
  shows "c1 = c \<and> fst (http_get (wire wi now') tm' c path name s1) = Inr v"
proof -
  let ?pf = "sv_pf (wi_server wi)" and ?p = "put_at wi c path name v" and ?g = "item_at wi ''GET'' c path name"
  from wire_put [OF assms(3,4,9)] obtain resp w' where c1: "c1 = c" and s1: "s1 = (w', snd s)"
    and put: "put_secret ?pf now ?p (fst s) = (resp, w')" "rs_status resp = 201" by blast
  note f = put_at_fields [OF assms(8)]
  from put org_gate_ok [OF put(1) [unfolded put_secret_def]]
  obtain cl0 w0 where body: "put_body ?pf now cl0 ?p w0 = (resp, w')" by auto
  from put_body_accepts [OF body] put(2) have acc: "name \<noteq> ''''" "safe_path path" "safe_path name"
    "env_required (kc_env c)" by (simp_all add: f)
  then have env: "kc_env c \<noteq> ''''" by (auto simp: env_required_def)
  have seg: "safe_segment name" using acc assms(7) by (simp add: safe_path_leaf)
  have "fst (get_secret ?pf now' ?g w') = write_json 200
      (JObj [(''secret'', JObj [(''value'', JStr v)]), (''version'', JInt (sint (ver + 1)))])"
    using accepted_put_read [OF assms(1,2) put refl, of ver now' ?g cl] assms(6,10-12) acc seg env
    by (simp add: f s1 item_at_vals split_secret_path_Inr read_env_def)
  moreover obtain gr gw where g: "get_secret ?pf now' ?g w' = (gr, gw)" by (cases "get_secret ?pf now' ?g w'")
  ultimately have gr: "gr = write_json 200
      (JObj [(''secret'', JObj [(''value'', JStr v)]), (''version'', JInt (sint (ver + 1)))])" by simp
  have run: "run_route (wi_server wi) now' RGet ?g s1 = (gr, gw, snd s)"
    by (simp add: on_world_def s1 g)
  have "get_answer path name (wire_reply (wi_render wi) gr) = Inr v"
    by (rule get_answer_stored) (simp_all add: gr)
  then have "fst (http_get (wire wi now') tm' c path name s1) = Inr v"
    unfolding http_get_def
    using wire_item [OF assms(3,5,6) acc(2) seg _ run, of build_request] by simp
  with c1 show ?thesis by simp
qed

section \<open>What the two sides disagree on\<close>

text \<open>A listing answered with 200 has the members count, secrets and truncated.\<close>

lemma list_secrets_200:
  assumes "list_secrets pf now r w = (resp, w')" "rs_status resp = 200"
  shows "\<exists>n rows tr. rs_body resp = Json (JObj ([(''count'', n), (''secrets'', rows)] @ tr)) \<and>
     (tr = [] \<or> tr = [(''truncated'', JBool True)])"
proof -
  from org_gate_ok [OF assms(1) [unfolded list_secrets_def]] assms(2)
  obtain c w1 where "list_body pf now c r w1 = (resp, w')" by auto
  moreover have "list_path o0 p = Inl (st, msg, qp) \<Longrightarrow> st \<noteq> 200" for o0 p st msg qp
    by (auto simp: list_path_def Let_def split: if_splits)
  ultimately show ?thesis
    using assms(2) by (auto simp: list_body_def Let_def split: sum.splits prod.splits if_splits)
qed

lemma decode_items_listing:
  "tr = [] \<or> tr = [(''truncated'', JBool True)] \<Longrightarrow>
     decode_items (JObj ([(''count'', n), (''secrets'', rows)] @ tr)) = (True, [])"
  by (auto simp: decode_items_def decode_one_def decode_struct_def match_field_def lower_byte_def)

lemma wire_list_empty:
  assumes "linked wi c" "holds_token c (fst tm)"
    and "http_list (wire wi now) tm c pre s = (Inr xs, c1, s1)"
  shows "xs = []"
proof -
  let ?q = "if pre \<noteq> '''' then ''?prefix='' @ query_escape pre else ''''"
  let ?segs = "org_segs (kc_org c) []"
  have org: "kc_org c \<noteq> ''''" using assms(1) by (simp add: linked_def)
  obtain q where pt: "parse_target ((CHR ''/'' # go_join CHR ''/'' (map path_escape ?segs)) @ ?q) = Some (?segs, q)"
    using parse_target_escaped(1) [OF no_dots_org [OF assms(1), of "[]"]]
      parse_target_escaped(2) [OF no_dots_org [OF assms(1), of "[]"], of "''prefix='' @ query_escape pre"]
    by (intro that [of "if pre \<noteq> '''' then parse_query (''prefix='' @ query_escape pre) else []"]) simp
  let ?r = "at_route (wi_size wi) ''GET'' ?segs q (bearer c) NoBody [(''org'', kc_org c)]"
  obtain resp w' where l: "list_secrets (sv_pf (wi_server wi)) now ?r (fst s) = (resp, w')"
    by (cases "list_secrets (sv_pf (wi_server wi)) now ?r (fst s)")
  have "server_handle (wi_server wi) now ?segs (wire_request (wi_size wi) ''GET'' ?segs q (bearer c) NoBody) s =
     run_route (wi_server wi) now RList ?r s"
    by (rule server_runs [OF _ client_headers_kept(1) pick_secrets(2) [OF org] match_org_segs(1) [OF org]]) simp
  then have "server_handle (wi_server wi) now ?segs (wire_request (wi_size wi) ''GET'' ?segs q (bearer c) NoBody) s =
     (resp, w', snd s)" using l by (simp add: on_world_def)
  from wire_call [OF assms(1,2) pt this]
  have "send_authed (wire wi now) tm build_request c ''GET'' (kc_secrets_url c @ ?q) [] NoBody s =
      (Inr (wire_reply (wi_render wi) resp), c, w', snd s)"
    by (simp only: secrets_url_segs append_assoc)
  with assms(3) have ok: "rs_status resp = 200"
    and dec: "\<exists>its. decode_reply decode_items (wire_reply (wi_render wi) resp) = Inr its \<and> xs = item_names pre its"
    by (auto simp: http_list_def split: if_splits sum.splits)
  from list_secrets_200 [OF l ok] obtain n rows tr where
    b: "rs_body resp = Json (JObj ([(''count'', n), (''secrets'', rows)] @ tr))"
      "tr = [] \<or> tr = [(''truncated'', JBool True)]" by blast
  from dec show ?thesis
    using decode_items_listing [OF b(2), of n rows] by (auto simp: decode_reply_def b(1))
qed

lemma env_secret_200:
  assumes "env_secret pf now E r w = (resp, w')" "rs_status resp = 200"
  shows "\<exists>x. rs_body resp = Json (JObj [(''secret'', x)])"
proof -
  obtain x w1 where a: "authorize pf now r w = (x, w1)" by (cases "authorize pf now r w")
  show ?thesis
  proof (cases x)
    case (Inl e)
    with a assms authorize_Inl [of pf now r w e w1] show ?thesis by (auto simp: env_secret_def unauthorized_def)
  next
    case (Inr c)
    with a assms show ?thesis by (auto simp: env_secret_def Let_def admin_required_def split: if_splits)
  qed
qed

lemma decode_ks_env: "decode_ks (JObj [(''secret'', x)]) = decode_ks (JObj [])"
  by (simp add: decode_ks_def decode_struct_def match_field_def lower_byte_def)

lemma decode_ks_empty: "fst (decode_ks (JObj []))" "ks_value (snd (decode_ks (JObj []))) = ''''"
  by (simp_all add: decode_ks_def decode_struct_def)

lemma pick_by_id:
  "pick_route b ''GET'' [''v1'', ''kms'', ''secrets'', i] =
     (if i = '''' then Some (''GET'', [Rest ''''], RFrontend)
      else Some (''GET'', [Lit ''v1'', Lit ''kms'', Lit ''secrets'', Wild ''name''], REnv))"
  by (simp add: pick_route_def route_table_def base_routes_def key_routes_def secrets_pat_def method_fits_def)

lemma by_id_segs:
  "by_id i = CHR ''/'' # go_join CHR ''/'' (map path_escape [''v1'', ''kms'', ''secrets'', i])"
  by (simp add: by_id_def literal_escapes)

lemma by_id_target:
  "parse_target (by_id i) = (if i = ''.'' \<or> i = ''..'' then None else Some ([''v1'', ''kms'', ''secrets'', i], []))"
proof -
  have "parse_target (by_id ''.'') = None" "parse_target (by_id ''..'') = None" by code_simp+
  moreover have "no_dots [''v1'', ''kms'', ''secrets'', i]" if "i \<noteq> ''.''" "i \<noteq> ''..''"
    using that by (simp add: no_dots_def eq_commute)
  ultimately show ?thesis
    using parse_target_escaped(1) [of "[''v1'', ''kms'', ''secrets'', i]"] by (auto simp only: by_id_segs split: if_split)
qed

text \<open>
  A read by identifier reaches the environment endpoint, whose answer has no member that the
  client decodes: it ends in an error or in an empty secret.
\<close>

lemma wire_read_by_id:
  assumes "linked wi c" "holds_token c (fst tm)"
    and "read_secret (wire wi now) tm c i s = (Inr ks, c1, s1)"
  shows "ks_value ks = ''''"
proof -
  let ?segs = "[''v1'', ''kms'', ''secrets'', i]"
  show ?thesis
  proof (cases "i = ''.'' \<or> i = ''..''")
    case True
    then have t: "parse_target (by_id i) = None" by (simp add: by_id_target)
    have "kc_endpoint c @ by_id i \<noteq> wi_iam_base wi @ ''/v1/iam/oauth/token''"
      using assms(1) unfolding linked_def prefix_def by metis
    with t assms show ?thesis
      by (simp add: read_secret_def call_def send_authed_def cached_token wire_def linked_def)
  next
    case False
    then have t: "parse_target (by_id i) = Some (?segs, [])" by (simp add: by_id_target)
    let ?w = "wire_request (wi_size wi) ''GET'' ?segs [] (bearer c) NoBody"
    obtain resp s2 where h: "server_handle (wi_server wi) now ?segs ?w s = (resp, s2)"
      by (cases "server_handle (wi_server wi) now ?segs ?w s")
    from wire_call [OF assms(1,2) t h] assms(3)
    have ok: "rs_status resp = 200" and dec: "decode_reply decode_ks (wire_reply (wi_render wi) resp) = Inr ks"
      by (auto simp: read_secret_def call_def checked_reply_def split: if_splits)
    show ?thesis
    proof (cases "i = ''''")
      case True
      let ?r = "at_route (wi_size wi) ''GET'' ?segs [] (bearer c) NoBody [('''', ''v1/kms/secrets/'')]"
      have "server_handle (wi_server wi) now ?segs ?w s = run_route (wi_server wi) now RFrontend ?r s"
      proof (rule server_runs [OF _ client_headers_kept(1)])
        show "pick_route (sv_keys_on (wi_server wi)) ''GET'' ?segs = Some (''GET'', [Rest ''''], RFrontend)"
          by (simp add: pick_by_id True)
        show "match_segs [Rest ''''] ?segs = Some [('''', ''v1/kms/secrets/'')]" by (simp add: True)
      qed simp
      moreover have "api_path (rq_path ?r)" by (simp add: at_route_def wire_request_def api_path_def True)
      ultimately have "resp = not_found_page"
        using h by (simp add: frontend_response_def frontend_never_masks_api)
      with ok show ?thesis by (simp add: not_found_page_def)
    next
      case False
      let ?r = "at_route (wi_size wi) ''GET'' ?segs [] (bearer c) NoBody [(''name'', i)]"
      have "server_handle (wi_server wi) now ?segs ?w s = run_route (wi_server wi) now REnv ?r s"
      proof (rule server_runs [OF _ client_headers_kept(1)])
        show "pick_route (sv_keys_on (wi_server wi)) ''GET'' ?segs =
            Some (''GET'', [Lit ''v1'', Lit ''kms'', Lit ''secrets'', Wild ''name''], REnv)"
          by (simp add: pick_by_id False)
        show "match_segs [Lit ''v1'', Lit ''kms'', Lit ''secrets'', Wild ''name''] ?segs = Some [(''name'', i)]"
          by (simp add: False)
      qed simp
      with h obtain w' where "env_secret (sv_pf (wi_server wi)) now (sv_environ (wi_server wi)) ?r (fst s) = (resp, w')"
        by (auto simp: on_world_def split: prod.splits)
      from env_secret_200 [OF this ok] obtain x where "rs_body resp = Json (JObj [(''secret'', x)])" by blast
      with dec decode_ks_empty show ?thesis
        by (auto simp: decode_reply_def decode_ks_env split: prod.splits if_splits)
    qed
  qed
qed

end
