(* ===== verification/Cli.thy ===== *)
theory Cli
  imports Tenant
begin

text \<open>
  The admin command \<^verbatim>\<open>cmd/kms\<close>: flags, the value of \<^verbatim>\<open>put\<close> and \<^verbatim>\<open>rotate\<close>, and the
  commands over the service client.  A run ends in an exit code, what it printed, and its
  diagnostics.
\<close>

section \<open>Arguments\<close>

text \<open>The value of a flag and the arguments without it; a flag without a value is left alone.\<close>

fun extract_flag :: "string \<Rightarrow> string \<Rightarrow> string list \<Rightarrow> string \<times> string list" where
  "extract_flag flag dst [] = (dst, [])"
| "extract_flag flag dst [a] = (dst, [a])"
| "extract_flag flag dst (a # b # as) =
     (if a = flag then (b, as)
      else (case extract_flag flag dst (b # as) of (d, rest) \<Rightarrow> (d, a # rest)))"

fun extract_bool_flag :: "string \<Rightarrow> bool \<Rightarrow> string list \<Rightarrow> bool \<times> string list" where
  "extract_bool_flag flag dst [] = (dst, [])"
| "extract_bool_flag flag dst (a # as) =
     (if a = flag then (True, as)
      else (case extract_bool_flag flag dst as of (d, rest) \<Rightarrow> (d, a # rest)))"

definition split_path :: "string \<Rightarrow> string \<times> string" where
  [go_defs]: "split_path s =
     (case last_index CHR ''/'' s of
        None \<Rightarrow> ('''', s)
      | Some i \<Rightarrow> (take i s, drop (Suc i) s))"

text \<open>One trailing line end is dropped.\<close>

definition chomp :: "string \<Rightarrow> string" where
  [go_defs]: "chomp v =
     (if suffix [CHR 0x0D, CHR 0x0A] v then take (length v - 2) v
      else if suffix [CHR 0x0A] v then take (length v - 1) v
      else v)"

text \<open>\<open>stdin\<close> is \<^const>\<open>None\<close> when reading it fails.\<close>

definition resolve_put_value :: "string list \<Rightarrow> bool \<Rightarrow> string \<Rightarrow> bytes option \<Rightarrow> string + string" where
  [go_defs]: "resolve_put_value sub_args use_stdin cmd stdin =
     (if length sub_args < 1 then Inl (cmd @ '' requires <path/name>'')
      else
        let has_positional = (2 \<le> length sub_args) in
        if use_stdin \<and> has_positional then Inl (cmd @ '': cannot combine positional <value> with --stdin'')
        else if use_stdin then
          (case stdin of
             None \<Rightarrow> Inl (cmd @ '': read stdin'')
           | Some b \<Rightarrow>
               let v = chomp b in
               if v = '''' then Inl (cmd @ '': --stdin produced empty value'') else Inr v)
        else if \<not> has_positional then Inl (cmd @ '' requires <path/name> <value> (or --stdin)'')
        else Inr (sub_args ! 1))"

section \<open>Commands\<close>

datatype out_piece = Out string | Pretty json

datatype diag = Usage | Msg string | BadPath string | Client kc_err

record cli_out =
  co_exit :: nat
  co_out :: "out_piece list"
  co_err :: "diag list"

definition ok_out :: "out_piece list \<Rightarrow> cli_out" where
  [go_defs]: "ok_out ps = \<lparr>co_exit = 0, co_out = ps, co_err = []\<rparr>"

definition fail_out :: "out_piece list \<Rightarrow> diag list \<Rightarrow> cli_out" where
  [go_defs]: "fail_out ps ds = \<lparr>co_exit = 1, co_out = ps, co_err = ds\<rparr>"

definition must_client ::
    "(string \<Rightarrow> string option) \<Rightarrow> (string \<Rightarrow> string \<Rightarrow> string \<Rightarrow> 'i \<Rightarrow> string option) \<Rightarrow>
     string \<Rightarrow> string \<Rightarrow> string \<Rightarrow> string \<Rightarrow> string \<Rightarrow> cli_out + kms_client" where
  [go_defs]: "must_client host_of dial addr iam_addr client_id client_secret org =
     (if client_id = '''' \<or> client_secret = '''' then
        Inl (fail_out [] [Msg ''kms: KMS_CLIENT_ID and KMS_CLIENT_SECRET are required (or --client-id/--client-secret)''])
      else
        case kc_new host_of dial
               \<lparr>kf_endpoint = addr, kf_iam_endpoint = iam_addr, kf_client_id = client_id,
                kf_client_secret = client_secret, kf_org = org, kf_env = '''', kf_identity = None,
                kf_node_id = ''''\<rparr> of
          Inl e \<Rightarrow> Inl (fail_out [] [Client e])
        | Inr c \<Rightarrow> Inr c)"

definition cmd_put ::
    "'s zap_client \<Rightarrow> 's hnet \<Rightarrow> int \<times> int \<Rightarrow> kms_client \<Rightarrow> string \<Rightarrow> string \<Rightarrow> 's \<Rightarrow> cli_out \<times> 's" where
  [go_defs]: "cmd_put z net tm c full_path val s =
     (case split_path full_path of (p, n) \<Rightarrow>
        if p = '''' \<or> n = '''' then (fail_out [] [BadPath full_path], s)
        else
          (case kc_put z net tm c p n val s of
             (Some e, _, s1) \<Rightarrow> (fail_out [] [Client e], s1)
           | (None, _, s1) \<Rightarrow> (ok_out [Out (''ok: '' @ p @ ''/'' @ n @ [CHR 0x0A])], s1)))"

definition cmd_get ::
    "'s zap_client \<Rightarrow> 's hnet \<Rightarrow> int \<times> int \<Rightarrow> kms_client \<Rightarrow> string \<Rightarrow> 's \<Rightarrow> cli_out \<times> 's" where
  [go_defs]: "cmd_get z net tm c full_path s =
     (case split_path full_path of (p, n) \<Rightarrow>
        if p = '''' \<or> n = '''' then (fail_out [] [BadPath full_path], s)
        else
          (case kc_get z net tm c p n s of
             (Inl e, _, s1) \<Rightarrow> (fail_out [] [Client e], s1)
           | (Inr val, _, s1) \<Rightarrow> (ok_out [Out val], s1)))"

definition cmd_list ::
    "'s zap_client \<Rightarrow> 's hnet \<Rightarrow> int \<times> int \<Rightarrow> kms_client \<Rightarrow> string \<Rightarrow> 's \<Rightarrow> cli_out \<times> 's" where
  [go_defs]: "cmd_list z net tm c pre s =
     (case kc_list z net tm c pre s of
        (Inl e, _, s1) \<Rightarrow> (fail_out [] [Client e], s1)
      | (Inr names, _, s1) \<Rightarrow> (ok_out (map (\<lambda>n. Out (n @ [CHR 0x0A])) names), s1))"

definition cmd_rotate ::
    "'s zap_client \<Rightarrow> 's hnet \<Rightarrow> int \<times> int \<Rightarrow> kms_client \<Rightarrow> string \<Rightarrow> string \<Rightarrow> 's \<Rightarrow> cli_out \<times> 's" where
  [go_defs]: "cmd_rotate z net tm c full_path new_value s = cmd_put z net tm c full_path new_value s"

text \<open>A JSON object is printed indented with its keys sorted, anything else as it came.\<close>

definition status_piece :: "reply \<Rightarrow> out_piece" where
  [go_defs]: "status_piece re =
     (case re_doc re of
        Some (JObj ms) \<Rightarrow> Pretty (json_map id (snd (store_entries decode_any ms [])))
      | Some JNull \<Rightarrow> Pretty JNull
      | _ \<Rightarrow> Out (re_raw re))"

definition cmd_status :: "'s hnet \<Rightarrow> string \<Rightarrow> 's \<Rightarrow> cli_out \<times> 's" where
  [go_defs]: "cmd_status net addr s =
     (case net ''GET'' (addr @ ''/healthz'') [] NoBody s of
        (Replied re, s1) \<Rightarrow>
          let first = [Out (''healthz: '' @ re_raw re @ [CHR 0x0A])] in
          (case net ''GET'' (addr @ ''/v1/kms/status'') [] NoBody s1 of
             (Replied re2, s2) \<Rightarrow>
               (ok_out (first @ [Out ''status: '', status_piece re2, Out [CHR 0x0A]]), s2)
           | (Unbuilt e, s2) \<Rightarrow> (fail_out first [Msg (''kms: status check failed: '' @ e)], s2)
           | (Failed e, s2) \<Rightarrow> (fail_out first [Msg (''kms: status check failed: '' @ e)], s2))
      | (Unbuilt e, s1) \<Rightarrow> (fail_out [] [Msg (''kms: health check failed: '' @ e)], s1)
      | (Failed e, s1) \<Rightarrow> (fail_out [] [Msg (''kms: health check failed: '' @ e)], s1))"

section \<open>Main\<close>

record globals =
  gl_addr :: string
  gl_iam_addr :: string
  gl_client_id :: string
  gl_client_secret :: string
  gl_org :: string
  gl_stdin :: bool

definition parse_globals :: "environ \<Rightarrow> string list \<Rightarrow> globals \<times> string list" where
  [go_defs]: "parse_globals E args =
     (case extract_flag ''--addr'' (env_or E ''KMS_ADDR'' ''http://localhost:8443'') args of (addr, args) \<Rightarrow>
      case extract_flag ''--iam-addr'' (env_or E ''IAM_ADDR'' ''http://localhost:8000'') args of (iam_addr, args) \<Rightarrow>
      case extract_flag ''--client-id'' (env_or E ''KMS_CLIENT_ID'' '''') args of (client_id, args) \<Rightarrow>
      case extract_flag ''--client-secret'' (env_or E ''KMS_CLIENT_SECRET'' '''') args of (client_secret, args) \<Rightarrow>
      case extract_flag ''--org'' (env_or E ''KMS_ORG'' ''hanzo'') args of (org, args) \<Rightarrow>
      case extract_bool_flag ''--stdin'' False args of (use_stdin, args) \<Rightarrow>
        (\<lparr>gl_addr = addr, gl_iam_addr = iam_addr, gl_client_id = client_id,
          gl_client_secret = client_secret, gl_org = org, gl_stdin = use_stdin\<rparr>, args))"

text \<open>The environment of a run: libraries, clock, process environment, standard input.\<close>

record ('s, 'i) cli_sys =
  cy_zap :: "'s zap_client"
  cy_net :: "'s hnet"
  cy_time :: "int \<times> int"
  cy_host_of :: "string \<Rightarrow> string option"
  cy_dial :: "string \<Rightarrow> string \<Rightarrow> string \<Rightarrow> 'i \<Rightarrow> string option"
  cy_env :: environ
  cy_stdin :: "bytes option"

definition with_client ::
    "('s, 'i) cli_sys \<Rightarrow> globals \<Rightarrow> (kms_client \<Rightarrow> 's \<Rightarrow> cli_out \<times> 's) \<Rightarrow> 's \<Rightarrow> cli_out \<times> 's" where
  [go_defs]: "with_client y g k s =
     (case must_client (cy_host_of y) (cy_dial y) (gl_addr g) (gl_iam_addr g) (gl_client_id g)
             (gl_client_secret g) (gl_org g) of
        Inl out \<Rightarrow> (out, s)
      | Inr c \<Rightarrow> k c s)"

text \<open>
  The path argument \<open>args ! 1\<close> of \<^verbatim>\<open>put\<close> and \<^verbatim>\<open>rotate\<close> is read only after
  \<^const>\<open>resolve_put_value\<close> has accepted the arguments, so it is there.
\<close>

definition put_like ::
    "('s, 'i) cli_sys \<Rightarrow> globals \<Rightarrow> string list \<Rightarrow> string \<Rightarrow>
     ('s zap_client \<Rightarrow> 's hnet \<Rightarrow> int \<times> int \<Rightarrow> kms_client \<Rightarrow> string \<Rightarrow> string \<Rightarrow> 's \<Rightarrow> cli_out \<times> 's) \<Rightarrow>
     's \<Rightarrow> cli_out \<times> 's" where
  [go_defs]: "put_like y g args cmd act s =
     (case resolve_put_value (tl args) (gl_stdin g) cmd (cy_stdin y) of
        Inl e \<Rightarrow> (fail_out [] [Msg (''kms: '' @ e)], s)
      | Inr val \<Rightarrow> with_client y g (\<lambda>c. act (cy_zap y) (cy_net y) (cy_time y) c (args ! 1) val) s)"

definition cli_main :: "('s, 'i) cli_sys \<Rightarrow> string list \<Rightarrow> 's \<Rightarrow> cli_out \<times> 's" where
  [go_defs]: "cli_main y argv s =
     (if length argv < 2 then (fail_out [] [Usage], s)
      else
        case parse_globals (cy_env y) (tl argv) of (g, args) \<Rightarrow>
          (case args of
             [] \<Rightarrow> (fail_out [] [Usage], s)
           | cmd # sub \<Rightarrow>
               if cmd = ''status'' then cmd_status (cy_net y) (gl_addr g) s
               else if cmd = ''put'' then put_like y g args ''put'' cmd_put s
               else if cmd = ''get'' then
                 (if length args < 2 then (fail_out [] [Msg ''kms: get requires <path/name>''], s)
                  else with_client y g (\<lambda>c. cmd_get (cy_zap y) (cy_net y) (cy_time y) c (args ! 1)) s)
               else if cmd = ''list'' then
                 with_client y g (\<lambda>c. cmd_list (cy_zap y) (cy_net y) (cy_time y) c
                   (if 1 < length args then args ! 1 else '''')) s
               else if cmd = ''rotate'' then put_like y g args ''rotate'' cmd_rotate s
               else (fail_out [] [Msg (''kms: unknown command '' @ cmd), Usage], s)))"

section \<open>Facts\<close>

lemma extract_flag_found:
  "flag \<notin> set xs \<Longrightarrow> extract_flag flag dst (xs @ flag # v # ys) = (v, xs @ ys)"
proof (induction xs)
  case (Cons x xs)
  then show ?case by (cases xs) (auto split: prod.splits)
qed simp

lemma extract_flag_absent: "flag \<notin> set xs \<Longrightarrow> extract_flag flag dst xs = (dst, xs)"
  by (induction flag dst xs rule: extract_flag.induct) auto

lemma extract_bool_flag_found:
  "flag \<notin> set xs \<Longrightarrow> extract_bool_flag flag dst (xs @ flag # ys) = (True, xs @ ys)"
  by (induction xs) auto

lemma extract_bool_flag_absent: "flag \<notin> set xs \<Longrightarrow> extract_bool_flag flag dst xs = (dst, xs)"
  by (induction flag dst xs rule: extract_bool_flag.induct) auto

text \<open>What is left is a part of the arguments, in their order.\<close>

lemma extract_flag_subseq: "subseq (snd (extract_flag flag dst xs)) xs"
  by (induction flag dst xs rule: extract_flag.induct) (auto split: prod.splits)

lemma resolve_put_value_Inr:
  "resolve_put_value sub use cmd stdin = Inr v \<longleftrightarrow>
     (if use then \<exists>p b. sub = [p] \<and> stdin = Some b \<and> v = chomp b \<and> v \<noteq> ''''
      else \<exists>p rest. sub = p # v # rest)"
proof (cases sub)
  case (Cons p rest)
  then show ?thesis
    by (cases rest) (auto simp: resolve_put_value_def Let_def split: option.splits)
qed (simp add: resolve_put_value_def)

lemma put_like_args:
  assumes "put_like y g args cmd act s = r" "resolve_put_value (tl args) (gl_stdin g) cmd (cy_stdin y) = Inr v"
  shows "1 < length args"
  using assms(2) by (cases args) (auto simp: resolve_put_value_Inr split: if_splits)

lemma cli_exit_diag:
  assumes "cli_main y argv s = (out, s')"
  shows "(co_exit out = 0 \<longleftrightarrow> co_err out = []) \<and> co_exit out \<le> 1"
proof -
  define P :: "cli_out \<Rightarrow> bool" where "P = (\<lambda>out. (co_exit out = 0 \<longleftrightarrow> co_err out = []) \<and> co_exit out \<le> 1)"
  have base: "P (ok_out ps)" "ds \<noteq> [] \<Longrightarrow> P (fail_out ps ds)" for ps ds
    by (simp_all add: P_def ok_out_def fail_out_def)
  have put: "P (fst (cmd_put z net tm c fp v s))" for z and net :: "'a hnet" and tm c fp v s
    by (auto simp: cmd_put_def base split: prod.splits option.splits)
  have get: "P (fst (cmd_get z net tm c fp s))" for z and net :: "'a hnet" and tm c fp s
    by (auto simp: cmd_get_def base split: prod.splits sum.splits)
  have list: "P (fst (cmd_list z net tm c fp s))" for z and net :: "'a hnet" and tm c fp s
    by (auto simp: cmd_list_def base split: prod.splits sum.splits)
  have status: "P (fst (cmd_status net a s))" for net :: "'a hnet" and a s
    by (auto simp: cmd_status_def Let_def base split: prod.splits outcome.splits)
  have must: "P o1" if "must_client h d a b c e f = Inl o1" for h d a b c e f o1
    using that by (auto simp: must_client_def base split: if_splits sum.splits)
  have cl: "P (fst (with_client y g k s))" if "\<And>c. P (fst (k c s))" for g k s
    using that must by (auto simp: with_client_def split: sum.splits)
  have pl: "P (fst (put_like y g args cmd act s))" if "\<And>c p v. P (fst (act (cy_zap y) (cy_net y) (cy_time y) c p v s))"
    for g args cmd act s
    using that by (auto simp: put_like_def base intro!: cl split: sum.splits)
  have "P (fst (cli_main y argv s))"
    by (auto simp: cli_main_def base status cmd_rotate_def intro!: cl pl put get list split: prod.splits list.splits)
  with assms show ?thesis by (simp add: P_def)
qed

text \<open>The command always works in the client's default environment.\<close>

lemma must_client_env:
  assumes "must_client h d addr iam cid sec org = Inr c"
  shows "kc_env c = ''default'' \<and> kc_org c = org"
  using assms
  by (auto simp: must_client_def kc_new_def Let_def new_http_def new_zap_def split: if_splits sum.splits)

end
