(* ===== verification/Daemon.thy ===== *)
theory Daemon
  imports Lifecycle Cli
begin

text \<open>
  The programs around the library: the daemon \<^verbatim>\<open>cmd/kmsd\<close> with its telemetry set-up, and
  the smoke test \<^verbatim>\<open>cmd/smoke-zap\<close>.  The cloud package, the tracer and the application
  framework are parameters.
\<close>

section \<open>Telemetry\<close>

text \<open>The endpoint and the service name of the exporter; \<^const>\<open>None\<close> when it is disabled.\<close>

definition telemetry_config :: "environ \<Rightarrow> string \<Rightarrow> (string \<times> string) option" where
  [go_defs]: "telemetry_config E service =
     (let endpoint = first_non_empty [trim_space (E ''O11Y_TRACES_ENDPOINT''), trim_space (E ''O11Y_ENDPOINT'')] in
      if endpoint = '''' then None
      else
        let endpoint1 = (if endpoint = ''default'' then ''o11y.hanzo.svc:4317'' else endpoint);
            v = trim_space (E ''O11Y_SERVICE_NAME'')
        in Some (endpoint1, if v \<noteq> '''' then v else service))"

text \<open>
  What is to be closed at exit: \<open>new_tracer\<close> tells whether the exporter could be created.
\<close>

definition init_telemetry :: "(string \<Rightarrow> string \<Rightarrow> bool) \<Rightarrow> environ \<Rightarrow> string \<Rightarrow> bool" where
  [go_defs]: "init_telemetry new_tracer E service =
     (case telemetry_config E service of
        None \<Rightarrow> False
      | Some (endpoint, name) \<Rightarrow> new_tracer endpoint name)"

section \<open>The daemon\<close>

text \<open>
  The process waits for a signal or for the listener to fail.  \<^verbatim>\<open>log.Crit\<close> ends the
  process, without running deferred calls.
\<close>

datatype wake = Signalled | ListenFailed

record daemon_end =
  de_exit :: nat
  de_process :: process
  de_tracer_closed :: bool
  de_app_shutdown :: bool

definition daemon_main ::
    "(string \<Rightarrow> string \<Rightarrow> bool) \<Rightarrow> (embed_config \<Rightarrow> embed_result \<times> resource list) \<Rightarrow> environ \<Rightarrow> bool \<Rightarrow> string \<Rightarrow> wake \<Rightarrow> process \<Rightarrow> daemon_end" where
  [go_defs]: "daemon_main new_tracer boot E config_ok dir ev p =
     (let tracer = init_telemetry new_tracer E ''hanzo-kms'' in
      if \<not> config_ok then \<lparr>de_exit = 1, de_process = p, de_tracer_closed = False, de_app_shutdown = False\<rparr>
      else
        (case mount boot dir p of
           (False, p1) \<Rightarrow> \<lparr>de_exit = 1, de_process = p1, de_tracer_closed = False, de_app_shutdown = False\<rparr>
         | (True, p1) \<Rightarrow>
             (case ev of
                ListenFailed \<Rightarrow> \<lparr>de_exit = 1, de_process = p1, de_tracer_closed = False, de_app_shutdown = False\<rparr>
              | Signalled \<Rightarrow> \<lparr>de_exit = 0, de_process = shutdown p1, de_tracer_closed = tracer, de_app_shutdown = True\<rparr>)))"

lemma daemon_clean_exit:
  assumes "daemon_main nt boot E ok dir ev fresh_process = d" "de_exit d = 0"
  shows "\<exists>h st got. boot (mount_config dir) = (Booted h st, got) \<and> ev = Signalled \<and>
     ps_log (de_process d) = held h \<and> ps_mounted (de_process d) = None"
  using assms
  by (auto simp: daemon_main_def mount_def Let_def fresh_process_def shutdown_def stop_releases
      split: if_splits prod.splits embed_result.splits wake.splits)

section \<open>The smoke test\<close>

text \<open>\<open>stamp\<close> is the value used when none is configured.\<close>

definition smoke_main ::
    "'s zap_client \<Rightarrow> 's hnet \<Rightarrow> (int \<times> int) \<times> int \<times> int \<Rightarrow> (string \<Rightarrow> string option) \<Rightarrow>
     (string \<Rightarrow> string \<Rightarrow> string \<Rightarrow> 'i \<Rightarrow> string option) \<Rightarrow> (string \<Rightarrow> string \<Rightarrow> kc_err + 'i) \<Rightarrow>
     environ \<Rightarrow> string \<Rightarrow> 's \<Rightarrow> nat \<times> 's" where
  [go_defs]: "smoke_main z net tms host_of dial new_identity E stamp s =
     (let path = env_or E ''KMS_PATH'' ''smoke''; name = env_or E ''KMS_NAME'' ''ping'';
          val = env_or E ''KMS_VALUE'' stamp in
      case identity_from_env new_identity E (env_or E ''KMS_SERVICE_PATH'' ''hanzo/smoke'') of
        Inl e \<Rightarrow> (1, s)
      | Inr ident \<Rightarrow>
          (case kc_new host_of dial
                  \<lparr>kf_endpoint = env_or E ''KMS_ADDR'' ''zap://127.0.0.1:19653'', kf_iam_endpoint = '''',
                   kf_client_id = '''', kf_client_secret = '''', kf_org = env_or E ''KMS_ORG'' ''hanzo'',
                   kf_env = env_or E ''KMS_ENV_NAME'' ''smoke'', kf_identity = Some ident,
                   kf_node_id = ''smoke-transport''\<rparr> of
             Inl e \<Rightarrow> (1, s)
           | Inr c \<Rightarrow>
               (case kc_put z net (fst tms) c path name val s of
                  (Some e, c1, s1) \<Rightarrow> (2, s1)
                | (None, c1, s1) \<Rightarrow>
                    (case kc_get z net (snd tms) c1 path name s1 of
                       (Inl e, c2, s2) \<Rightarrow> (3, s2)
                     | (Inr got, c2, s2) \<Rightarrow> (if got \<noteq> val then 4 else 0, s2)))))"

lemma kc_new_zap:
  "kc_new host_of dial cfg = Inr c \<Longrightarrow> kf_iam_endpoint cfg = '''' \<Longrightarrow> kc_transport c = ZapT"
  by (auto simp: kc_new_def new_http_def new_zap_def Let_def split: if_splits option.splits prod.splits)

text \<open>Exit code 0 means that the round trip was made and gave the value back.\<close>

lemma smoke_ok:
  assumes "smoke_main z net tms host_of dial ni E stamp s = (0, s2)"
  shows "\<exists>c c1 s1 c2. kc_put z net (fst tms) c (env_or E ''KMS_PATH'' ''smoke'') (env_or E ''KMS_NAME'' ''ping'')
       (env_or E ''KMS_VALUE'' stamp) s = (None, c1, s1) \<and>
     kc_get z net (snd tms) c1 (env_or E ''KMS_PATH'' ''smoke'') (env_or E ''KMS_NAME'' ''ping'') s1 =
       (Inr (env_or E ''KMS_VALUE'' stamp), c2, s2) \<and> kc_transport c = ZapT"
  using assms
  by (auto simp: smoke_main_def Let_def split: sum.splits option.splits prod.splits if_splits
      dest!: kc_new_zap)

end
