(* ===== verification/Fetch.thy ===== *)
theory Fetch
  imports KmsClient "HOL-Library.List_Lexorder"
begin

text \<open>
  The init container \<^verbatim>\<open>cmd/kms-fetch\<close>: the list of secrets, the choice of transport,
  the fetch loop, the files and the aggregate environment file.  A file system is a map from
  paths to contents and mode; \<open>flt\<close> says which system calls fail.
\<close>

section \<open>The list of secrets\<close>

record spec =
  sp_env :: string
  sp_path :: string
  sp_name :: string

datatype spec_err = Malformed string | EmptySide string | NeedKey string | NoEntries

definition parse_spec :: "string \<Rightarrow> spec_err + spec" where
  [go_defs]: "parse_spec item =
     (case index_byte CHR ''='' item of
        None \<Rightarrow> Inl (Malformed item)
      | Some eq \<Rightarrow>
          if eq = 0 then Inl (Malformed item)
          else
            let env_name = trim_space (take eq item); full = trim_space (drop (Suc eq) item) in
            if env_name = '''' \<or> full = '''' then Inl (EmptySide item)
            else
              (case last_index CHR ''/'' full of
                 None \<Rightarrow> Inl (NeedKey item)
               | Some slash \<Rightarrow>
                   if slash = 0 \<or> Suc slash = length full then Inl (NeedKey item)
                   else Inr \<lparr>sp_env = env_name, sp_path = take slash full, sp_name = drop (Suc slash) full\<rparr>))"

fun parse_items :: "string list \<Rightarrow> spec list \<Rightarrow> spec_err + spec list" where
  "parse_items [] out = (if out = [] then Inl NoEntries else Inr out)"
| "parse_items (raw # raws) out =
     (let item = trim_space raw in
      if item = '''' then parse_items raws out
      else case parse_spec item of
             Inl e \<Rightarrow> Inl e
           | Inr sp \<Rightarrow> parse_items raws (out @ [sp]))"

definition parse_specs :: "string \<Rightarrow> spec_err + spec list" where
  [go_defs]: "parse_specs raw = parse_items (go_split CHR '','' raw) []"

section \<open>Errors and exit codes\<close>

datatype run_err =
    CfgErr spec_err
  | CfgMissing
  | AuthErr kc_err
  | FetchErr string kc_err
  | OtherErr string

definition exit_code_for :: "run_err \<Rightarrow> nat" where
  [go_defs]: "exit_code_for e =
     (case e of CfgErr _ \<Rightarrow> 2 | CfgMissing \<Rightarrow> 2 | AuthErr _ \<Rightarrow> 3 | FetchErr _ _ \<Rightarrow> 4 | OtherErr _ \<Rightarrow> 1)"

section \<open>Files\<close>

datatype sys_call = SMkdir | SCreate | SWrite | SSync | SClose | SChmod | SRename | SRemove

type_synonym files = "string \<Rightarrow> (bytes \<times> nat) option"

text \<open>
  A fault: the call, and the paths it is about.  \<open>tmp\<close> is the name \<^verbatim>\<open>os.CreateTemp\<close>
  picks, mode 0600 (octal); a failed write may leave part of the data.  The deferred removal runs on
  every return; after the rename there is nothing left to remove.
\<close>

type_synonym faults = "sys_call \<Rightarrow> string \<Rightarrow> bool"

definition remove_tmp :: "faults \<Rightarrow> string \<Rightarrow> files \<Rightarrow> files" where
  [go_defs]: "remove_tmp flt tmp fs = (if flt SRemove tmp then fs else fs(tmp := None))"

definition write_file_atomic ::
    "faults \<Rightarrow> string \<Rightarrow> bytes \<Rightarrow> string \<Rightarrow> bytes \<Rightarrow> nat \<Rightarrow> files \<Rightarrow> string option \<times> files" where
  [go_defs]: "write_file_atomic flt tmp part path data mode fs =
     (if flt SCreate tmp then (Some ''create'', fs)
      else
        let fs1 = fs(tmp \<mapsto> ([], 0x180)) in
        if flt SWrite tmp then (Some ''write'', remove_tmp flt tmp (fs1(tmp \<mapsto> (part, 0x180))))
        else
          let fs2 = fs1(tmp \<mapsto> (data, 0x180)) in
          if flt SSync tmp then (Some ''sync'', remove_tmp flt tmp fs2)
          else if flt SClose tmp then (Some ''close'', remove_tmp flt tmp fs2)
          else if flt SChmod tmp then (Some ''chmod'', remove_tmp flt tmp fs2)
          else
            let fs3 = fs2(tmp \<mapsto> (data, mode)) in
            if flt SRename path then (Some ''rename'', remove_tmp flt tmp fs3)
            else (None, fs3(tmp := None, path \<mapsto> (data, mode))))"

text \<open>\<^verbatim>\<open>filepath.Clean\<close> on segments, and \<^verbatim>\<open>filepath.Join\<close> of two non-empty elements.\<close>

fun clean_segs :: "bool \<Rightarrow> string list \<Rightarrow> string list \<Rightarrow> string list" where
  "clean_segs rooted [] out = out"
| "clean_segs rooted (s # ss) out =
     (if s = '''' \<or> s = ''.'' then clean_segs rooted ss out
      else if s = ''..'' then
        (if out \<noteq> [] \<and> last out \<noteq> ''..'' then clean_segs rooted ss (butlast out)
         else if rooted then clean_segs rooted ss out
         else clean_segs rooted ss (out @ [''..'']))
      else clean_segs rooted ss (out @ [s]))"

definition path_clean :: "string \<Rightarrow> string" where
  [go_defs]: "path_clean p =
     (let rooted = prefix ''/'' p; segs = clean_segs rooted (go_split CHR ''/'' p) []
      in if rooted then CHR ''/'' # (if segs = [] then '''' else go_join CHR ''/'' segs)
         else if segs = [] then ''.'' else go_join CHR ''/'' segs)"

definition path_join :: "string \<Rightarrow> string \<Rightarrow> string" where
  [go_defs]: "path_join dir name = path_clean (dir @ ''/'' @ name)"

section \<open>The environment file\<close>

definition quote_byte :: "char \<Rightarrow> string" where
  [go_defs]: "quote_byte c =
     (if c = CHR 0x5C \<or> c = CHR 0x22 \<or> c = CHR 0x60 \<or> c = CHR ''$'' then [CHR 0x5C, c] else [c])"

definition shell_quote :: "string \<Rightarrow> string" where
  [go_defs]: "shell_quote v = CHR 0x22 # concat (map quote_byte v) @ [CHR 0x22]"

definition env_line :: "string \<times> string \<Rightarrow> string" where
  [go_defs]: "env_line = (\<lambda>(k, v). k @ ''='' @ shell_quote v @ [CHR 0x0A])"

text \<open>The values map as an association list without repeated keys.\<close>

definition put_value :: "string \<Rightarrow> string \<Rightarrow> (string \<times> string) list \<Rightarrow> (string \<times> string) list" where
  [go_defs]: "put_value k v m = (k, v) # filter (\<lambda>(k', _). k' \<noteq> k) m"

definition env_file :: "(string \<times> string) list \<Rightarrow> string" where
  [go_defs]: "env_file vals = concat (map env_line (sort_key fst vals))"

section \<open>The fetcher\<close>

text \<open>\<open>dial\<close>, \<open>host_of\<close> and \<open>new_identity\<close> are those of the client.\<close>

definition new_fetcher ::
    "(string \<Rightarrow> string option) \<Rightarrow> (string \<Rightarrow> string \<Rightarrow> string \<Rightarrow> 'i \<Rightarrow> string option) \<Rightarrow>
     (string \<Rightarrow> string \<Rightarrow> kc_err + 'i) \<Rightarrow> environ \<Rightarrow> string \<Rightarrow> kc_err + kms_client" where
  [go_defs]: "new_fetcher host_of dial new_identity E kms_env =
     (let addr = E ''KMS_ZAP'' in
      if addr \<noteq> '''' then
        let org = (if E ''IAM_ORG'' = '''' then ''hanzo'' else E ''IAM_ORG'') in
        if E ''KMS_SERVICE_PATH'' = '''' then
          Inl (KInvalid ''KMS_ZAP set but KMS_SERVICE_PATH is missing (need a service path for envelope identity)'')
        else
          (case identity_from_env new_identity E (E ''KMS_SERVICE_PATH'') of
             Inl e \<Rightarrow> Inl (KWrap ''kms-fetch: identity'' e)
           | Inr ident \<Rightarrow>
               (case kc_new host_of dial
                       \<lparr>kf_endpoint = ''zap://'' @ addr, kf_iam_endpoint = '''', kf_client_id = '''',
                        kf_client_secret = '''', kf_org = org, kf_env = kms_env,
                        kf_identity = Some ident, kf_node_id = ''kms-fetch''\<rparr> of
                  Inl e \<Rightarrow> Inl (KWrap (''kms-fetch: zap dial '' @ addr) e)
                | Inr c \<Rightarrow> Inr c))
      else if E ''KMS_ENDPOINT'' = '''' \<or> E ''IAM_URL'' = '''' \<or> E ''IAM_ORG'' = '''' \<or>
              E ''IAM_CLIENT_ID'' = '''' \<or> E ''IAM_CLIENT_SECRET'' = '''' then
        Inl (KInvalid ''KMS_ZAP unset and HTTP fallback missing one of KMS_ENDPOINT, IAM_URL, IAM_ORG, IAM_CLIENT_ID, IAM_CLIENT_SECRET'')
      else kc_new host_of dial
             \<lparr>kf_endpoint = E ''KMS_ENDPOINT'', kf_iam_endpoint = E ''IAM_URL'',
              kf_client_id = E ''IAM_CLIENT_ID'', kf_client_secret = E ''IAM_CLIENT_SECRET'',
              kf_org = E ''IAM_ORG'', kf_env = '''', kf_identity = None, kf_node_id = ''''\<rparr>)"

text \<open>The fetch loop: stops at the first failure, with nothing written.\<close>

fun fetch_all ::
    "'s zap_client \<Rightarrow> 's hnet \<Rightarrow> (nat \<Rightarrow> int \<times> int) \<Rightarrow> spec list \<Rightarrow> kms_client \<Rightarrow> (string \<times> string) list \<Rightarrow> 's \<Rightarrow>
     (run_err + (string \<times> string) list) \<times> kms_client \<times> 's" where
  "fetch_all z net tms [] c vals s = (Inr vals, c, s)"
| "fetch_all z net tms (sp # sps) c vals s =
     (case kc_get z net (tms (length sps)) c (sp_path sp) (sp_name sp) s of
        (Inl e, r) \<Rightarrow> (Inl (FetchErr (sp_env sp) e), r)
      | (Inr v, c1, s1) \<Rightarrow> fetch_all z net tms sps c1 (put_value (sp_env sp) v vals) s1)"

text \<open>The write loop over the map, in iteration order; \<open>tmp\<close> names the temporary file of a target.\<close>

fun write_all ::
    "faults \<Rightarrow> (string \<Rightarrow> string) \<Rightarrow> (string \<Rightarrow> bytes) \<Rightarrow> string \<Rightarrow> (string \<times> string) list \<Rightarrow> files \<Rightarrow>
     run_err option \<times> files" where
  "write_all flt tmp part out_dir [] fs = (None, fs)"
| "write_all flt tmp part out_dir ((k, v) # kvs) fs =
     (let dst = path_join out_dir k in
      case write_file_atomic flt (tmp dst) (part dst) dst v 0x100 fs of
        (Some err, fs1) \<Rightarrow> (Some (OtherErr (''write '' @ dst @ '': '' @ err)), fs1)
      | (None, fs1) \<Rightarrow> write_all flt tmp part out_dir kvs fs1)"

definition write_outputs ::
    "faults \<Rightarrow> (string \<Rightarrow> string) \<Rightarrow> (string \<Rightarrow> bytes) \<Rightarrow> string \<Rightarrow> bool \<Rightarrow> (string \<times> string) list \<Rightarrow> files \<Rightarrow>
     run_err option \<times> files" where
  [go_defs]: "write_outputs flt tmp part out_dir env_too vals fs =
     (if flt SMkdir out_dir then (Some (OtherErr (''mkdir '' @ out_dir)), fs)
      else
        (case write_all flt tmp part out_dir vals fs of
           (Some err, fs1) \<Rightarrow> (Some err, fs1)
         | (None, fs1) \<Rightarrow>
             if env_too then
               let dst = path_join out_dir ''env'' in
               (case write_file_atomic flt (tmp dst) (part dst) dst (env_file vals) 0x100 fs1 of
                  (Some err, fs2) \<Rightarrow> (Some (OtherErr (''write env: '' @ err)), fs2)
                | (None, fs2) \<Rightarrow> (None, fs2))
             else (None, fs1)))"

record ('s, 'i) fetch_sys =
  fy_zap :: "'s zap_client"
  fy_net :: "'s hnet"
  fy_times :: "nat \<Rightarrow> int \<times> int"
  fy_host_of :: "string \<Rightarrow> string option"
  fy_dial :: "string \<Rightarrow> string \<Rightarrow> string \<Rightarrow> 'i \<Rightarrow> string option"
  fy_identity :: "string \<Rightarrow> string \<Rightarrow> kc_err + 'i"
  fy_faults :: faults
  fy_tmp :: "string \<Rightarrow> string"
  fy_part :: "string \<Rightarrow> bytes"
  fy_order :: "(string \<times> string) list \<Rightarrow> (string \<times> string) list"

text \<open>\<open>fy_order\<close> is the order in which Go iterates the map.  The result is the error, if any.\<close>

definition fetch_run ::
    "('s, 'i) fetch_sys \<Rightarrow> environ \<Rightarrow> 's \<Rightarrow> files \<Rightarrow> run_err option \<times> 's \<times> files" where
  [go_defs]: "fetch_run y E s fs =
     (if E ''KMS_SECRETS'' = '''' then (Some CfgMissing, s, fs)
      else
        case parse_specs (E ''KMS_SECRETS'') of
          Inl e \<Rightarrow> (Some (CfgErr e), s, fs)
        | Inr specs \<Rightarrow>
            let kms_env = env_or E ''KMS_ENV'' ''dev''; out_dir = env_or E ''OUT_DIR'' ''/secrets'';
                env_too = (env_or E ''WRITE_ENV_FILE'' ''true'' = ''true'') in
            (case new_fetcher (fy_host_of y) (fy_dial y) (fy_identity y) E kms_env of
               Inl e \<Rightarrow> (Some (AuthErr e), s, fs)
             | Inr c \<Rightarrow>
                 (case fetch_all (fy_zap y) (fy_net y) (fy_times y) specs c [] s of
                    (Inl e, c1, s1) \<Rightarrow> (Some e, s1, fs)
                  | (Inr vals, c1, s1) \<Rightarrow>
                      (case write_outputs (fy_faults y) (fy_tmp y) (fy_part y) out_dir env_too
                              (fy_order y vals) fs of
                         (r, fs1) \<Rightarrow> (r, s1, fs1)))))"

definition fetch_main :: "('s, 'i) fetch_sys \<Rightarrow> environ \<Rightarrow> 's \<Rightarrow> files \<Rightarrow> nat \<times> 's \<times> files" where
  [go_defs]: "fetch_main y E s fs =
     (case fetch_run y E s fs of
        (r, s1, fs1) \<Rightarrow> (case r of None \<Rightarrow> 0 | Some e \<Rightarrow> exit_code_for e, s1, fs1))"

end
