(* ===== verification/FetchFacts.thy ===== *)
theory FetchFacts
  imports Fetch
begin

text \<open>
  Facts of the init container: what a POSIX shell reads back from the environment file (the
  shell is the locale \<open>posix_shell\<close>, with the rules it is documented to follow), what the
  list of secrets may contain, that a file is replaced whole or not at all, and that nothing
  is written before everything was fetched.
\<close>

section \<open>Quoting\<close>

text \<open>
  What POSIX says of a shell that reads a file of assignments (Shell Command Language, 2.2.3,
  2.9.1 and 3.231): a name is made of letters, digits and underscores and does not start with
  a digit; between double quotes every character stands for itself, but for the dollar sign,
  the backquote, the double quote and the backslash, and a backslash before one of these four
  makes it stand for itself.  (NUL cannot occur in a value.  The rest of the rules, expansions
  and joined lines, is left out: it is not needed.)
\<close>

definition name_char :: "char \<Rightarrow> bool" where
  "name_char c \<longleftrightarrow> c = CHR ''_'' \<or> of_char c \<in> {48..57 :: nat} \<union> {65..90} \<union> {97..122}"

definition posix_name :: "string \<Rightarrow> bool" where
  "posix_name k \<longleftrightarrow> k \<noteq> '''' \<and> list_all name_char k \<and> of_char (hd k) \<notin> {48..57 :: nat}"

definition quoting_special :: "char \<Rightarrow> bool" where
  "quoting_special c \<longleftrightarrow> c \<in> {CHR ''$'', CHR 0x60, CHR 0x22, CHR 0x5C}"

inductive dquoted :: "string \<Rightarrow> string \<Rightarrow> bool" where
  dq_empty: "dquoted [] []"
| dq_plain: "\<not> quoting_special c \<Longrightarrow> c \<noteq> CHR 0x00 \<Longrightarrow> dquoted s v \<Longrightarrow> dquoted (c # s) (c # v)"
| dq_escaped: "quoting_special c \<Longrightarrow> dquoted s v \<Longrightarrow> dquoted (CHR 0x5C # c # s) (c # v)"

text \<open>
  The interface of such a shell: \<open>assigned text\<close> are the assignments the text makes, in order,
  and \<^const>\<open>None\<close> if it is more than assignments.
\<close>

locale posix_shell =
  fixes assigned :: "string \<Rightarrow> (string \<times> string) list option"
  assumes assigned_empty: "assigned [] = Some []"
    and assigned_line: "posix_name k \<Longrightarrow> dquoted body v \<Longrightarrow>
      assigned (k @ CHR ''='' # CHR 0x22 # body @ CHR 0x22 # CHR 0x0A # rest) = map_option (Cons (k, v)) (assigned rest)"

lemma quoted_dquoted: "CHR 0x00 \<notin> set v \<Longrightarrow> dquoted (concat (map quote_byte v)) v"
proof (induction v)
  case (Cons c v)
  show ?case
  proof (cases "quoting_special c")
    case True
    then have "quote_byte c = [CHR 0x5C, c]" by (auto simp: quote_byte_def quoting_special_def)
    with True Cons show ?thesis by (simp add: dq_escaped)
  next
    case False
    then have "quote_byte c = [c]" by (auto simp: quote_byte_def quoting_special_def)
    with False Cons show ?thesis by (auto intro!: dq_plain)
  qed
qed (simp add: dq_empty)

context posix_shell
begin

lemma assigned_env_line:
  "posix_name k \<Longrightarrow> CHR 0x00 \<notin> set v \<Longrightarrow>
     assigned (env_line (k, v) @ rest) = map_option (Cons (k, v)) (assigned rest)"
  using assigned_line [OF _ quoted_dquoted, of k v rest] by (simp add: env_line_def shell_quote_def)

lemma assigned_lines:
  "\<forall>(k, v)\<in>set kvs. posix_name k \<and> CHR 0x00 \<notin> set v \<Longrightarrow> assigned (concat (map env_line kvs)) = Some kvs"
  by (induction kvs) (auto simp: assigned_empty assigned_env_line)

lemma assigned_env_file:
  assumes "\<forall>(k, v)\<in>set vals. posix_name k \<and> CHR 0x00 \<notin> set v"
  shows "assigned (env_file vals) = Some (sort_key fst vals)"
  unfolding env_file_def by (rule assigned_lines) (use assms in simp)

end

text \<open>A reader of assignments that keeps these rules.\<close>

fun sh_dquoted :: "string \<Rightarrow> (string \<times> string) option" where
  "sh_dquoted [] = None"
| "sh_dquoted (c # s) =
     (if c = CHR 0x22 then Some ([], s)
      else if c = CHR ''$'' \<or> c = CHR 0x60 \<or> c = CHR 0x00 then None
      else if c = CHR 0x5C then
        (case s of
           [] \<Rightarrow> None
         | d # t \<Rightarrow> if quoting_special d then map_option (\<lambda>(v, r). (d # v, r)) (sh_dquoted t) else None)
      else map_option (\<lambda>(v, r). (c # v, r)) (sh_dquoted s))"

lemma sh_dquoted_shorter: "sh_dquoted s = Some (v, r) \<Longrightarrow> length r < length s"
  by (induction s arbitrary: v r rule: sh_dquoted.induct)
    (fastforce split: if_splits list.splits)+

lemma sh_dquoted_closed: "dquoted body v \<Longrightarrow> sh_dquoted (body @ CHR 0x22 # rest) = Some (v, rest)"
  by (induction rule: dquoted.induct) (auto simp: quoting_special_def)

definition sh_line :: "string \<Rightarrow> ((string \<times> string) \<times> string) option" where
  "sh_line s =
     (case index_byte CHR ''='' s of
        None \<Rightarrow> None
      | Some i \<Rightarrow>
          if \<not> posix_name (take i s) then None
          else case drop (Suc i) s of
            [] \<Rightarrow> None
          | q # t \<Rightarrow>
              if q \<noteq> CHR 0x22 then None
              else case sh_dquoted t of
                Some (v, c # rest) \<Rightarrow> if c = CHR 0x0A then Some ((take i s, v), rest) else None
              | _ \<Rightarrow> None)"

lemma sh_line_shorter:
  assumes "sh_line s = Some (kv, rest)"
  shows "length rest < length s"
proof -
  from assms obtain i q t v c where "drop (Suc i) s = q # t" "sh_dquoted t = Some (v, c # rest)"
    by (auto simp: sh_line_def split: option.splits if_splits list.splits)
  with sh_dquoted_shorter [of t v "c # rest"] show ?thesis
    using length_drop [of "Suc i" s] by simp
qed

function sh_source :: "string \<Rightarrow> (string \<times> string) list option" where
  "sh_source s =
     (if s = [] then Some []
      else case sh_line s of
             None \<Rightarrow> None
           | Some (kv, rest) \<Rightarrow> map_option (Cons kv) (sh_source rest))"
  by pat_completeness auto

termination
  by (relation "measure length") (auto dest: sh_line_shorter)

declare sh_source.simps [simp del]

interpretation posix: posix_shell sh_source
proof
  show "sh_source [] = Some []" by (simp add: sh_source.simps)
  fix k body v rest
  assume k: "posix_name k" and q: "dquoted body v"
  let ?tail = "CHR 0x22 # body @ CHR 0x22 # CHR 0x0A # rest"
  have "\<not> name_char CHR ''=''" by (simp add: name_char_def)
  with k have "CHR ''='' \<notin> set k" by (auto simp: posix_name_def list_all_iff)
  then have i: "index_byte CHR ''='' (k @ CHR ''='' # ?tail) = Some (length k)" by (rule index_byte_append)
  have "sh_line (k @ CHR ''='' # ?tail) = Some ((k, v), rest)"
    unfolding sh_line_def i using k sh_dquoted_closed [OF q] by simp
  then show "sh_source (k @ CHR ''='' # CHR 0x22 # body @ CHR 0x22 # CHR 0x0A # rest) =
      map_option (Cons (k, v)) (sh_source rest)"
    by (subst sh_source.simps) simp
qed

section \<open>The list of secrets\<close>

definition spec_ok :: "spec \<Rightarrow> bool" where
  "spec_ok sp \<longleftrightarrow> sp_env sp \<noteq> '''' \<and> CHR ''='' \<notin> set (sp_env sp) \<and> CHR '','' \<notin> set (sp_env sp) \<and>
     sp_path sp \<noteq> '''' \<and> sp_name sp \<noteq> '''' \<and> CHR ''/'' \<notin> set (sp_name sp)"

lemma take_index_free: "index_byte c s = Some i \<Longrightarrow> c \<notin> set (take i s)"
  using index_byte_SomeD [of c s i] by auto

lemma parse_spec_ok:
  assumes "parse_spec item = Inr sp" "CHR '','' \<notin> set item"
  shows "spec_ok sp"
proof -
  from assms(1) obtain eq slash where eq: "index_byte CHR ''='' item = Some eq"
    and sl: "last_index CHR ''/'' (trim_space (drop (Suc eq) item)) = Some slash" "slash \<noteq> 0"
      "Suc slash \<noteq> length (trim_space (drop (Suc eq) item))"
    and ne: "trim_space (take eq item) \<noteq> ''''"
    and sp: "sp = \<lparr>sp_env = trim_space (take eq item), sp_path = take slash (trim_space (drop (Suc eq) item)),
                sp_name = drop (Suc slash) (trim_space (drop (Suc eq) item))\<rparr>"
    by (auto simp: parse_spec_def Let_def split: option.splits if_splits)
  let ?f = "trim_space (drop (Suc eq) item)"
  from last_index_SomeD [OF sl(1)] have f: "slash < length ?f" "CHR ''/'' \<notin> set (drop (Suc slash) ?f)" by blast+
  have "CHR ''='' \<notin> set (trim_space (take eq item))" "CHR '','' \<notin> set (trim_space (take eq item))"
    using trim_space_subset [of "take eq item"] take_index_free [OF eq] assms(2) set_take_subset [of eq item] by auto
  then show ?thesis using ne f sl(2,3) by (auto simp: spec_ok_def sp)
qed

lemma parse_items_ok:
  assumes "parse_items raws out = Inr sps" "\<forall>raw\<in>set raws. CHR '','' \<notin> set raw" "list_all spec_ok out"
  shows "list_all spec_ok sps \<and> sps \<noteq> []"
  using assms
proof (induction raws out rule: parse_items.induct)
  case (2 raw raws out)
  have c: "CHR '','' \<notin> set (trim_space raw)" using 2(4) trim_space_subset [of raw] by auto
  show ?case
  proof (cases "trim_space raw = ''''")
    case False
    with 2(3) obtain sp where sp: "parse_spec (trim_space raw) = Inr sp" and rest: "parse_items raws (out @ [sp]) = Inr sps"
      by (auto simp: Let_def split: sum.splits)
    from 2(2) [OF refl False sp rest] 2(4,5) parse_spec_ok [OF sp c] show ?thesis by simp
  qed (use 2 in simp)
qed (auto split: if_splits)

lemma parse_specs_ok:
  assumes "parse_specs raw = Inr sps"
  shows "list_all spec_ok sps \<and> sps \<noteq> []"
  using parse_items_ok [OF assms [unfolded parse_specs_def]] go_split_no_sep [of _ "CHR '',''" raw] by auto

text \<open>A list in normal form is read back exactly.\<close>

definition render_spec :: "spec \<Rightarrow> string" where
  "render_spec sp = sp_env sp @ ''='' @ sp_path sp @ ''/'' @ sp_name sp"

definition spec_normal :: "spec \<Rightarrow> bool" where
  "spec_normal sp \<longleftrightarrow> spec_ok sp \<and> trim_space (sp_env sp) = sp_env sp \<and>
     trim_space (sp_path sp @ ''/'' @ sp_name sp) = sp_path sp @ ''/'' @ sp_name sp \<and>
     trim_space (render_spec sp) = render_spec sp \<and> CHR '','' \<notin> set (render_spec sp)"

lemma parse_spec_render:
  assumes "spec_normal sp"
  shows "parse_spec (render_spec sp) = Inr sp"
proof -
  have ok: "sp_env sp \<noteq> []" "CHR ''='' \<notin> set (sp_env sp)" "sp_path sp \<noteq> []" "sp_name sp \<noteq> []"
    "CHR ''/'' \<notin> set (sp_name sp)" "trim_space (sp_env sp) = sp_env sp"
    "trim_space (sp_path sp @ CHR ''/'' # sp_name sp) = sp_path sp @ CHR ''/'' # sp_name sp"
    using assms by (auto simp: spec_normal_def spec_ok_def)
  have "index_byte CHR ''='' (sp_env sp @ CHR ''='' # (sp_path sp @ CHR ''/'' # sp_name sp)) = Some (length (sp_env sp))"
    using ok(2) by (rule index_byte_append)
  moreover have "last_index CHR ''/'' (sp_path sp @ CHR ''/'' # sp_name sp) = Some (length (sp_path sp))"
    using ok(5) by (rule last_index_append)
  ultimately show ?thesis
    using ok by (simp add: parse_spec_def render_spec_def Let_def)
qed

lemma parse_items_render:
  assumes "list_all spec_normal sps" "out @ sps \<noteq> []"
  shows "parse_items (map render_spec sps) out = Inr (out @ sps)"
  using assms
proof (induction sps arbitrary: out)
  case (Cons sp sps)
  then have n: "spec_normal sp" by simp
  then have "trim_space (render_spec sp) = render_spec sp" "render_spec sp \<noteq> ''''"
    by (auto simp: spec_normal_def render_spec_def)
  with Cons parse_spec_render [OF n] show ?case by (simp add: Let_def)
qed simp

lemma parse_specs_render:
  assumes "list_all spec_normal sps" "sps \<noteq> []"
  shows "parse_specs (go_join CHR '','' (map render_spec sps)) = Inr sps"
proof -
  have "go_split CHR '','' (go_join CHR '','' (map render_spec sps)) = map render_spec sps"
    using assms by (intro go_split_join) (auto simp: list_all_iff spec_normal_def)
  with parse_items_render [of sps "[]"] assms show ?thesis by (simp add: parse_specs_def)
qed

section \<open>Files\<close>

text \<open>On success the target holds the data; on failure it is as before, as is every other file.\<close>

text \<open>The three shapes of the file system afterwards.\<close>

lemma write_file_cases:
  assumes "write_file_atomic flt tmp part path data mode fs = (r, fs')"
  obtains (unchanged) e where "r = Some e" "fs' = fs"
    | (temporary) e x where "r = Some e" "fs' = fs(tmp := x)"
    | (replaced) "r = None" "fs' = fs(tmp := None, path \<mapsto> (data, mode))"
proof -
  have "r \<noteq> None \<and> (fs' = fs \<or> (\<exists>x. fs' = fs(tmp := x))) \<or>
      r = None \<and> fs' = fs(tmp := None, path \<mapsto> (data, mode))"
    using assms unfolding write_file_atomic_def remove_tmp_def Let_def
    by (simp split: if_splits; metis)
  with that show thesis by blast
qed

lemma write_file_ok:
  assumes "write_file_atomic flt tmp part path data mode fs = (None, fs')" "tmp \<noteq> path" "fs tmp = None"
  shows "fs' = fs(path \<mapsto> (data, mode))"
proof -
  have "fs' = fs(tmp := None, path \<mapsto> (data, mode))"
    using assms(1) by (cases rule: write_file_cases) simp_all
  moreover have "fs(tmp := None) = fs" using assms(3) by (metis fun_upd_idem)
  ultimately show ?thesis by simp
qed

lemma write_file_error:
  assumes "write_file_atomic flt tmp part path data mode fs = (Some e, fs')" "q \<noteq> tmp"
  shows "fs' q = fs q"
  using assms by (elim write_file_cases) auto

lemma write_file_frame:
  assumes "write_file_atomic flt tmp part path data mode fs = (r, fs')" "q \<noteq> tmp" "q \<noteq> path"
  shows "fs' q = fs q"
  using assms by (elim write_file_cases) auto

abbreviation targets :: "string \<Rightarrow> (string \<times> string) list \<Rightarrow> string set" where
  "targets dir kvs \<equiv> path_join dir ` fst ` set kvs"

lemma write_all_frame:
  assumes "write_all flt tmp part dir kvs fs = (r, fs')" "q \<notin> targets dir kvs" "q \<notin> tmp ` targets dir kvs"
  shows "fs' q = fs q"
  using assms
proof (induction kvs arbitrary: fs)
  case (Cons kv kvs)
  let ?d = "path_join dir (fst kv)"
  obtain e fs1 where w: "write_file_atomic flt (tmp ?d) (part ?d) ?d (snd kv) 0x100 fs = (e, fs1)"
    by (cases "write_file_atomic flt (tmp ?d) (part ?d) ?d (snd kv) 0x100 fs")
  from write_file_frame [OF w, of q] Cons.prems(2,3) have "fs1 q = fs q" by auto
  with Cons.IH [of fs1] Cons.prems w show ?case by (cases kv; cases e) auto
qed simp

definition written :: "string \<Rightarrow> (string \<times> string) list \<Rightarrow> (string \<times> bytes \<times> nat) list" where
  "written dir kvs = rev (map (\<lambda>(k, v). (path_join dir k, v, 0x100)) kvs)"

lemma write_all_ok:
  assumes "write_all flt tmp part dir kvs fs = (None, fs')"
    and "tmp ` targets dir kvs \<inter> targets dir kvs = {}" "\<forall>q\<in>tmp ` targets dir kvs. fs q = None"
  shows "fs' = fs ++ map_of (written dir kvs)"
  using assms
proof (induction kvs arbitrary: fs)
  case Nil
  then show ?case by (simp add: written_def)
next
  case (Cons kv kvs)
  obtain k v where kv: "kv = (k, v)" by (cases kv)
  let ?d = "path_join dir k"
  obtain e fs1 where w: "write_file_atomic flt (tmp ?d) (part ?d) ?d v 0x100 fs = (e, fs1)"
    by (cases "write_file_atomic flt (tmp ?d) (part ?d) ?d v 0x100 fs")
  with Cons.prems(1) kv have e: "e = None" and rest: "write_all flt tmp part dir kvs fs1 = (None, fs')"
    by (auto simp: Let_def split: option.splits)
  have "tmp ?d \<noteq> ?d" "fs (tmp ?d) = None" using Cons.prems(2,3) kv by auto
  with w e have fs1: "fs1 = fs(?d \<mapsto> (v, 0x100))" by (simp add: write_file_ok)
  have "fs' = fs1 ++ map_of (written dir kvs)"
  proof (rule Cons.IH [OF rest])
    show "tmp ` targets dir kvs \<inter> targets dir kvs = {}" using Cons.prems(2) kv by auto
    have "?d \<notin> tmp ` targets dir kvs" using Cons.prems(2) kv by auto
    moreover have "\<forall>q\<in>tmp ` targets dir kvs. fs q = None" using Cons.prems(3) by simp
    ultimately show "\<forall>q\<in>tmp ` targets dir kvs. fs1 q = None" unfolding fs1 by (metis fun_upd_other)
  qed
  then show ?case by (simp add: written_def kv fs1 map_add_upd_left)
qed

lemma written_lookup:
  assumes "(k, v) \<in> set kvs" "distinct (map (path_join dir \<circ> fst) kvs)"
  shows "map_of (written dir kvs) (path_join dir k) = Some (v, 0x100)"
proof -
  have "distinct (map fst (written dir kvs))"
    using assms(2) by (simp add: written_def rev_map [symmetric] comp_def case_prod_unfold)
  moreover have "(path_join dir k, v, 0x100) \<in> set (written dir kvs)"
    using assms(1) by (force simp: written_def)
  ultimately show ?thesis by (rule map_of_is_SomeI)
qed

section \<open>The fetch loop\<close>

lemma put_value_lookup: "map_of (put_value k v m) k' = (if k' = k then Some v else map_of m k')"
proof -
  have "map_of (filter (\<lambda>(k'', _). k'' \<noteq> k) m) k' = (if k' = k then None else map_of m k')"
    by (induction m) auto
  then show ?thesis by (simp add: put_value_def)
qed

lemma put_value_keys:
  "fst ` set (put_value k v m) = insert k (fst ` set m)"
  "distinct (map fst m) \<Longrightarrow> distinct (map fst (put_value k v m))"
proof -
  show "fst ` set (put_value k v m) = insert k (fst ` set m)" by (force simp: put_value_def)
  have "distinct (map fst m) \<Longrightarrow> distinct (map fst (filter (\<lambda>(k', _). k' \<noteq> k) m))"
    by (induction m) auto
  then show "distinct (map fst m) \<Longrightarrow> distinct (map fst (put_value k v m))"
    by (auto simp: put_value_def)
qed

lemma fetch_all_keys:
  "fetch_all z net tms sps c vals s = (Inr vals', c', s') \<Longrightarrow> distinct (map fst vals) \<Longrightarrow>
     distinct (map fst vals') \<and> fst ` set vals' = fst ` set vals \<union> sp_env ` set sps"
proof (induction sps arbitrary: c vals s)
  case (Cons sp sps)
  obtain r c1 s1 where g: "kc_get z net (tms (length sps)) c (sp_path sp) (sp_name sp) s = (r, c1, s1)"
    by (metis prod_cases3)
  with Cons.prems(1) obtain v where r: "r = Inr v"
    and rest: "fetch_all z net tms sps c1 (put_value (sp_env sp) v vals) s1 = (Inr vals', c', s')"
    by (cases r) auto
  from Cons.IH [OF rest] put_value_keys [where m = vals] Cons.prems(2) show ?case by auto
qed simp

lemma fetch_all_error:
  "fetch_all z net tms sps c vals s = (Inl e, r) \<Longrightarrow> \<exists>n k. e = FetchErr n k \<and> n \<in> sp_env ` set sps"
proof (induction sps arbitrary: c vals s)
  case (Cons sp sps)
  obtain x c1 s1 where "kc_get z net (tms (length sps)) c (sp_path sp) (sp_name sp) s = (x, c1, s1)"
    by (metis prod_cases3)
  with Cons.prems Cons.IH [of c1] show ?case by (cases x) (fastforce, fastforce)
qed simp

text \<open>Configuration, authentication and fetch failures leave every file as it was.\<close>

lemma fetch_run_early:
  assumes "fetch_run y E s fs = (Some e, s', fs')" "exit_code_for e \<noteq> 1"
  shows "fs' = fs"
proof -
  have other: "\<exists>m. e = OtherErr m" if "write_outputs flt tmp part d b vals fs0 = (Some e, fs1)" for flt tmp part d b vals fs0 fs1
  proof -
    have "\<exists>m. e' = OtherErr m" if "write_all flt tmp part d kvs fs0 = (Some e', fs1)" for e' kvs fs0 fs1
      using that by (induction kvs arbitrary: fs0) (auto simp: Let_def split: prod.splits option.splits)
    with that show ?thesis
      by (auto simp: write_outputs_def Let_def split: if_splits prod.splits option.splits)
  qed
  have "\<nexists>m. e = OtherErr m" using assms(2) by (auto simp: exit_code_for_def)
  with other have no: "\<And>flt tmp part d b vals fs0 fs1. write_outputs flt tmp part d b vals fs0 \<noteq> (Some e, fs1)"
    by blast
  show ?thesis
    using assms(1) no by (auto simp: fetch_run_def Let_def split: if_splits sum.splits prod.splits)
qed

text \<open>Exit code 0 means that there was no error, and that all secrets were fetched and written.\<close>

lemma exit_code_pos: "exit_code_for e \<noteq> 0"
  by (cases e) (simp_all add: exit_code_for_def)

lemma fetch_run_ok:
  assumes "fetch_run y E s fs = (None, s', fs')"
  obtains sps c vals c1 where "parse_specs (E ''KMS_SECRETS'') = Inr sps"
    "new_fetcher (fy_host_of y) (fy_dial y) (fy_identity y) E (env_or E ''KMS_ENV'' ''dev'') = Inr c"
    "fetch_all (fy_zap y) (fy_net y) (fy_times y) sps c [] s = (Inr vals, c1, s')"
    "write_outputs (fy_faults y) (fy_tmp y) (fy_part y) (env_or E ''OUT_DIR'' ''/secrets'')
       (env_or E ''WRITE_ENV_FILE'' ''true'' = ''true'') (fy_order y vals) fs = (None, fs')"
  using assms by (auto simp: fetch_run_def Let_def split: if_splits sum.splits prod.splits)

section \<open>Names and paths\<close>

lemma clean_segs_plain:
  "\<forall>s\<in>set ss. s \<noteq> '''' \<and> s \<noteq> ''.'' \<and> s \<noteq> ''..'' \<Longrightarrow> clean_segs b ss out = out @ ss"
  by (induction ss arbitrary: out) auto

lemma clean_segs_append: "clean_segs b (ss @ ts) out = clean_segs b ts (clean_segs b ss out)"
  by (induction b ss out rule: clean_segs.induct) auto

lemma clean_segs_free:
  assumes "\<forall>t\<in>set ss. c \<notin> set t" "\<forall>t\<in>set out. c \<notin> set t" "c \<noteq> CHR ''.''"
  shows "\<forall>t\<in>set (clean_segs b ss out). c \<notin> set t"
  using assms
proof (induction ss arbitrary: out)
  case (Cons s ss)
  have IH: "\<forall>t\<in>set (clean_segs b ss xs). c \<notin> set t" if "\<forall>t\<in>set xs. c \<notin> set t" for xs
    using Cons.IH Cons.prems that by simp
  show ?case
    unfolding clean_segs.simps
    by (simp only: split: if_split, intro conjI impI IH)
      (use Cons.prems in \<open>auto dest: in_set_butlastD\<close>)
qed simp

text \<open>A plain name stays directly below the output directory.\<close>

lemma path_join_plain:
  assumes "prefix ''/'' dir" "CHR ''/'' \<notin> set name" "name \<notin> {'''', ''.'', ''..''}"
  shows "go_split CHR ''/'' (path_join dir name) =
    '''' # clean_segs True (go_split CHR ''/'' dir) [] @ [name]"
proof -
  let ?cs = "clean_segs True (go_split CHR ''/'' dir) []"
  have s: "go_split CHR ''/'' (dir @ ''/'' @ name) = go_split CHR ''/'' dir @ [name]"
    using go_split_app [of "CHR ''/''" dir name] go_split_free [OF assms(2)] by simp
  have c: "clean_segs True (go_split CHR ''/'' (dir @ ''/'' @ name)) [] = ?cs @ [name]"
    using assms(3) unfolding s clean_segs_append by simp
  have rooted: "prefix ''/'' (dir @ ''/'' @ name)" using assms(1) by (auto simp: prefix_def)
  have "\<forall>t\<in>set (?cs @ [name]). CHR ''/'' \<notin> set t"
    using clean_segs_free [of "go_split CHR ''/'' dir" "CHR ''/''" "[]"] go_split_no_sep [of _ "CHR ''/''" dir]
      assms(2) by auto
  then have "go_split CHR ''/'' (go_join CHR ''/'' (?cs @ [name])) = ?cs @ [name]"
    by (intro go_split_join) auto
  moreover have "path_join dir name = '''' @ CHR ''/'' # go_join CHR ''/'' (?cs @ [name])"
    by (simp only: path_join_def path_clean_def Let_def c rooted if_True) simp
  ultimately show ?thesis
    using go_split_append [of "CHR ''/''" "''''"] by simp
qed

text \<open>A name with dot-dot segments leaves it; the parser lets it through.\<close>

lemma path_join_escape:
  "path_join ''/secrets'' ''../etc/x'' = ''/etc/x''"
  "parse_specs ''../etc/x=p/k'' = Inr [\<lparr>sp_env = ''../etc/x'', sp_path = ''p'', sp_name = ''k''\<rparr>]"
  by code_simp+

end
