(* ===== verification/ClientClaims.thy ===== *)
theory ClientClaims
  imports Wire Demo Daemon FetchFacts
begin

text \<open>
  The properties of the service client, alone and against the server, of the admin command
  and of the init container, with the lemmas only they need and a small deployment for their
  witnesses.
\<close>

section \<open>The token cache\<close>

lemma token_lifetime_short:
  assumes "0 < sint n"
  shows "token_lifetime n = sint n * 1000000000 \<longleftrightarrow> sint n \<le> 9223372036"
proof -
  have pos: "0 <s n" using assms by (simp add: word_sless_alt)
  have hi: "sint (n * 1000000000) < 2 ^ 63" using sint_less [of "n * 1000000000"] by simp
  have "sint (n * 1000000000) = sint n * 1000000000" if "sint n \<le> 9223372036"
  proof -
    have "sint (n * 1000000000) = signed_take_bit 63 (sint n * 1000000000)"
      by (simp add: sint_word_ariths)
    moreover have "- (2 ^ 63) \<le> sint n * 1000000000" "sint n * 1000000000 < 2 ^ 63" using that assms by simp_all
    ultimately show ?thesis by (simp only: signed_take_bit_int_eq_self)
  qed
  with pos hi show ?thesis unfolding token_lifetime_def by auto
qed

lemma token_lifetime_default: "sint n \<le> 0 \<Longrightarrow> token_lifetime n = 3600 * 1000000000"
  by (simp add: token_lifetime_def word_sless_alt)

lemma token_lifetime_long:
  assumes "9223372036 < sint n"
  shows "token_lifetime n < sint n * 1000000000"
proof -
  have "0 <s n" using assms by (simp add: word_sless_alt)
  moreover have "sint (n * 1000000000) < 2 ^ 63" using sint_less [of "n * 1000000000"] by simp
  ultimately show ?thesis using assms by (simp add: token_lifetime_def)
qed

text \<open>
  The member of a JSON object that Go's decoder takes for a field: the last one whose name
  is the field's up to case and whose value is not null.
\<close>

definition last_member :: "string \<Rightarrow> (string \<times> json) list \<Rightarrow> json" where
  "last_member f ms =
     fold (\<lambda>(k, v) cur. if fold_name k = fold_name f \<and> v \<noteq> JNull then v else cur) ms JNull"

lemma token_field:
  "match_field [''access_token'', ''expires_in''] k =
     (if fold_name k = fold_name ''access_token'' then Some ''access_token''
      else if fold_name k = fold_name ''expires_in'' then Some ''expires_in'' else None)"
proof -
  have ne: "fold_name ''access_token'' \<noteq> fold_name ''expires_in''" by code_simp
  show ?thesis
  proof (cases "k = ''access_token'' \<or> k = ''expires_in''")
    case True
    with ne show ?thesis by (auto simp only: match_field_def if_True list.set insert_iff simp_thms if_False refl split: if_split)
  next
    case False
    then show ?thesis by (auto simp: match_field_def simp del: fold_name.simps)
  qed
qed

lemma store_token_fields:
  "store_token ''access_token'' v t = store_str v (\<lambda>s. t\<lparr>tr_token := s\<rparr>) t"
  "store_token ''expires_in'' v t = store_i64 v (\<lambda>i. t\<lparr>tr_expires := i\<rparr>) t"
  by (simp_all add: store_token_def)

lemma decode_token_members:
  assumes "decode_members [''access_token'', ''expires_in''] store_token ms t = (True, t')"
    and "cur_a = JNull \<or> cur_a = JStr (tr_token t)"
    and "cur_n = JNull \<or> cur_n = JInt (sint (tr_expires t))"
  shows "(let a = fold (\<lambda>(k, v) cur. if fold_name k = fold_name ''access_token'' \<and> v \<noteq> JNull then v else cur) ms cur_a;
              n = fold (\<lambda>(k, v) cur. if fold_name k = fold_name ''expires_in'' \<and> v \<noteq> JNull then v else cur) ms cur_n
          in (a = JStr (tr_token t') \<or> a = JNull \<and> cur_a = JNull \<and> tr_token t' = tr_token t) \<and>
             (n = JInt (sint (tr_expires t')) \<or> n = JNull \<and> cur_n = JNull \<and> tr_expires t' = tr_expires t))"
  using assms
proof (induction ms arbitrary: t cur_a cur_n)
  case Nil
  then show ?case by auto
next
  case (Cons m ms)
  obtain k v where m: "m = (k, v)" by (cases m)
  have ne: "fold_name ''access_token'' \<noteq> fold_name ''expires_in''" by code_simp
  consider (a) "fold_name k = fold_name ''access_token''" | (n) "fold_name k = fold_name ''expires_in''"
    | (other) "fold_name k \<noteq> fold_name ''access_token''" "fold_name k \<noteq> fold_name ''expires_in''" by blast
  then show ?case
  proof cases
    case a
    with Cons.prems(1) m have st: "fst (store_str v (\<lambda>s. t\<lparr>tr_token := s\<rparr>) t)"
      and rest: "decode_members [''access_token'', ''expires_in''] store_token ms
        (snd (store_str v (\<lambda>s. t\<lparr>tr_token := s\<rparr>) t)) = (True, t')"
      by (auto simp: token_field store_token_fields simp del: fold_name.simps split: prod.splits)
    have k: "fold_name k \<noteq> fold_name ''expires_in''" using a ne by simp
    show ?thesis
    proof (cases v)
      case JNull
      with Cons.IH [OF rest, of cur_a cur_n] Cons.prems(2,3) a k show ?thesis
        by (simp add: m store_str_def Let_def del: fold_name.simps)
    next
      case (JStr x)
      with Cons.IH [OF rest, of "JStr x" cur_n] Cons.prems(2,3) a k show ?thesis
        by (simp add: m store_str_def Let_def del: fold_name.simps)
    qed (use st in \<open>simp_all add: store_str_def\<close>)
  next
    case n
    have k: "fold_name k \<noteq> fold_name ''access_token''" using n ne by simp
    with Cons.prems(1) m n have st: "fst (store_i64 v (\<lambda>i. t\<lparr>tr_expires := i\<rparr>) t)"
      and rest: "decode_members [''access_token'', ''expires_in''] store_token ms
        (snd (store_i64 v (\<lambda>i. t\<lparr>tr_expires := i\<rparr>) t)) = (True, t')"
      by (auto simp: token_field store_token_fields simp del: fold_name.simps split: prod.splits)
    show ?thesis
    proof (cases v)
      case JNull
      with Cons.IH [OF rest, of cur_a cur_n] Cons.prems(2,3) n k show ?thesis
        by (simp add: m store_i64_def Let_def del: fold_name.simps)
    next
      case (JInt i)
      with st have i: "- (2 ^ 63) \<le> i" "i < 2 ^ 63" by (auto simp: store_i64_def split: if_splits)
      have "sint (word_of_int i :: int64) = signed_take_bit 63 i" by (simp add: sint_sbintrunc')
      also have "\<dots> = i" using i by (simp add: signed_take_bit_int_eq_self)
      finally have w: "sint (word_of_int i :: int64) = i" .
      from Cons.IH [OF rest, of cur_a "JInt i"] Cons.prems(2) JInt i w n k show ?thesis
        by (simp add: m store_i64_def Let_def del: fold_name.simps)
    qed (use st in \<open>simp_all add: store_i64_def\<close>)
  next
    case other
    with Cons.prems(1) m have rest: "decode_members [''access_token'', ''expires_in''] store_token ms t = (True, t')"
      by (simp add: token_field del: fold_name.simps)
    from Cons.IH [OF rest Cons.prems(2,3)] other show ?thesis by (simp add: m del: fold_name.simps)
  qed
qed

lemma decode_token_Some:
  assumes "decode_token doc = Some t" "tr_token t \<noteq> ''''"
  shows "\<exists>ms. doc = Some (JObj ms) \<and> last_member ''access_token'' ms = JStr (tr_token t) \<and>
     (last_member ''expires_in'' ms = JInt (sint (tr_expires t)) \<or>
      last_member ''expires_in'' ms = JNull \<and> tr_expires t = 0)"
proof -
  let ?t0 = "\<lparr>tr_token = '''', tr_expires = 0\<rparr> :: token_resp"
  from assms obtain ms where ms: "doc = Some (JObj ms)"
    "decode_members [''access_token'', ''expires_in''] store_token ms ?t0 = (True, t)"
    by (auto simp: decode_token_def decode_struct_def split: option.splits json.splits prod.splits if_splits)
  from decode_token_members [OF ms(2), of JNull JNull] assms(2) ms(1) show ?thesis
    by (simp add: last_member_def Let_def del: fold_name.simps)
qed

lemma get_token_cases:
  assumes "get_token net tm c s = (Inr tok, c1, s1)"
  obtains (cached) "c1 = c" "s1 = s" "tok = kc_token c" "tok \<noteq> ''''" "fst tm < kc_expiry c - 60 * 1000000000"
  | (fresh) re t where "\<not> (kc_token c \<noteq> '''' \<and> fst tm < kc_expiry c - 60 * 1000000000)"
      "net ''POST'' (kc_iam_endpoint c @ ''/v1/iam/oauth/token'')
         [(''Content-Type'', ''application/x-www-form-urlencoded'')]
         (FormBody [(''client_id'', kc_client_id c), (''client_secret'', kc_client_secret c),
            (''grant_type'', ''client_credentials'')]) s = (Replied re, s1)"
      "re_status re = 200" "decode_token (re_first re) = Some t" "tr_token t = tok" "tok \<noteq> ''''"
      "c1 = c\<lparr>kc_token := tok, kc_expiry := snd tm + token_lifetime (tr_expires t)\<rparr>"
  using assms
  by (auto simp: get_token_def Let_def split: if_splits prod.splits outcome.splits option.splits)

section \<open>Fetching into the environment\<close>

lemma set_env_keeps:
  assumes "set_env_if_empty vs k0 v0 = (r, vs')" "vs k = Some v" "v \<noteq> ''''"
  shows "vs' k = Some v"
  using assms by (auto simp: set_env_if_empty_def set_env_def split: option.splits if_splits)

lemma first_err_sel:
  "fs_vars (first_err e st) = fs_vars st" "fs_count (first_err e st) = fs_count st" "fs_err (first_err e st) \<noteq> None"
  by (simp_all add: first_err_def)

lemma fetch_one_vars:
  assumes "fs_vars st k = Some v" "v \<noteq> ''''"
  shows "fs_vars (fetch_one z net tm e st) k = Some v"
  using assms set_env_keeps
  by (auto simp: fetch_one_def first_err_sel split: prod.splits sum.splits option.splits)

lemma fetch_one_count:
  "fs_count (fetch_one z net tm e st) = Suc (fs_count st) \<and> fs_err (fetch_one z net tm e st) = fs_err st \<or>
   fs_count (fetch_one z net tm e st) = fs_count st \<and> fs_err (fetch_one z net tm e st) \<noteq> None"
  by (auto simp: fetch_one_def first_err_sel simp del: not_None_eq split: prod.splits sum.splits option.splits)

lemma fetch_one_err: "fs_err st \<noteq> None \<Longrightarrow> fs_err (fetch_one z net tm e st) \<noteq> None"
  using fetch_one_count [of z net tm e st] by auto

lemma fetch_env_err: "fs_err st \<noteq> None \<Longrightarrow> fs_err (fetch_env z net tms es st) \<noteq> None"
  by (induction es arbitrary: st) (simp_all add: fetch_one_err del: not_None_eq)

lemma fetch_env_vars:
  "fs_vars st k = Some v \<Longrightarrow> v \<noteq> '''' \<Longrightarrow> fs_vars (fetch_env z net tms es st) k = Some v"
  by (induction es arbitrary: st) (simp_all add: fetch_one_vars)

lemma fetch_env_count:
  "fs_count (fetch_env z net tms es st) \<le> fs_count st + length es \<and>
   (fs_err (fetch_env z net tms es st) = None \<longrightarrow> fs_count (fetch_env z net tms es st) = fs_count st + length es) \<and>
   (fs_err st = None \<longrightarrow> fs_count (fetch_env z net tms es st) = fs_count st + length es \<longrightarrow>
      fs_err (fetch_env z net tms es st) = None)"
proof (induction es arbitrary: st)
  case (Cons e es)
  let ?st1 = "fetch_one z net (tms (length es)) e st"
  show ?case
    using Cons.IH [of ?st1] fetch_one_count [of z net "tms (length es)" e st]
      fetch_env_err [of ?st1 z net tms es]
    by auto
qed simp

section \<open>A small deployment\<close>

definition demo_link :: "(mem, unit, unit) link" where
  [go_defs]: "demo_link = \<lparr>wi_server = demo_server, wi_base = ''http://k'', wi_iam_base = ''http://i'',
     wi_iam = (\<lambda>b. Unbuilt ''iam''), wi_size = (\<lambda>v. 9), wi_render = (\<lambda>p. '''')\<rparr>"

definition demo_client :: kms_client where
  [go_defs]: "demo_client = \<lparr>kc_org = ''acme'', kc_env = ''prod'', kc_endpoint = ''http://k'',
     kc_iam_endpoint = ''http://i'', kc_client_id = ''id'', kc_client_secret = ''s'', kc_token = ''acme'',
     kc_expiry = 900 * 1000000000, kc_zap = False, kc_transport = HttpT\<rparr>"


lemma demo_linked: "linked demo_link demo_client" "holds_token demo_client 0"
  by (simp_all add: linked_def holds_token_def demo_link_def demo_client_def)

text \<open>A ZAP server that answers every read with the name it was asked for.\<close>

definition echo_zap :: "unit zap_client" where
  [go_defs]: "echo_zap = \<lparr>z_get = (\<lambda>h p n e s. (Inr n, s)), z_put = (\<lambda>h p n e v s. (None, s)),
     z_delete = (\<lambda>h p n e s. (None, s)), z_list = (\<lambda>h p e s. (Inr [], s))\<rparr>"

definition zap_only :: kms_client where
  [go_defs]: "zap_only = demo_client\<lparr>kc_transport := ZapT, kc_zap := True, kc_token := ''''\<rparr>"

definition no_net :: "unit hnet" where
  [go_defs]: "no_net m url hs b s = (Failed ''down'', s)"

section \<open>Properties of the client and the server\<close>



text \<open>C39: against this server two calls of the client never deliver anything: \<^verbatim>\<open>List\<close> over HTTP
  returns no name, whatever is stored, because it reads a member the server does not send; and
  \<^verbatim>\<open>GetByID\<close> returns the empty value, because its URL reaches the environment endpoint.\<close>

theorem client_reads_nothing:
  assumes "linked wi c" "holds_token c (fst tm)"
  shows "(\<forall>pre xs r. http_list (wire wi now) tm c pre s = (Inr xs, r) \<longrightarrow> xs = []) \<and>
     (\<forall>i v r. get_by_id (wire wi now) tm c i s = (Inr v, r) \<longrightarrow> v = '''')"
proof (intro conjI allI impI)
  fix pre xs r
  assume "http_list (wire wi now) tm c pre s = (Inr xs, r)"
  then show "xs = []" using wire_list_empty [OF assms] by (cases r) blast
next
  fix i v r
  assume "get_by_id (wire wi now) tm c i s = (Inr v, r)"
  then obtain ks where "read_secret (wire wi now) tm c i s = (Inr ks, fst r, snd r)" "v = ks_value ks"
    by (auto simp: get_by_id_def map_sum_def split: prod.splits sum.splits)
  with wire_read_by_id [OF assms] show "v = ''''" by blast
qed

theorem client_reads_nothing_witness:
  "fst (http_list (wire demo_link 6) (0, 0) demo_client ''brand/acme'' (demo_ns_world, ())) = Inr []"
proof -
  have h: "holds_token demo_client (fst (0 :: int, 0 :: int))" using demo_linked(2) by simp
  let ?r = "http_list (wire demo_link 6) (0, 0) demo_client ''brand/acme'' (demo_ns_world, ())"
  have "\<not> isl (fst ?r)" by code_simp
  then obtain xs where xs: "fst ?r = Inr xs" by (cases "fst ?r") auto
  then have "?r = (Inr xs, snd ?r)" by (metis prod.collapse)
  with client_reads_nothing [OF demo_linked(1) h] have "xs = []" by blast
  with xs show ?thesis by simp
qed

section \<open>Properties of the client alone\<close>

text \<open>C33: a cached token is used only while at least a minute of its life is left, and then nothing
  is sent; otherwise the token is the one in the IAM's answer to the client's credentials, and
  it is cached for exactly the lifetime in that answer: its \<^verbatim>\<open>expires_in\<close> seconds up to
  9223372036, one hour when there is none or it is not positive.  A longer lifetime is cut
  short, because the multiplication wraps around.\<close>

theorem token_cache_sound:
  assumes "get_token net tm c s = (Inr tok, c1, s1)"
  shows "tok \<noteq> '''' \<and>
     (if kc_token c \<noteq> '''' \<and> fst tm < kc_expiry c - 60 * 1000000000 then c1 = c \<and> s1 = s \<and> kc_token c = tok
      else \<exists>re ms n. net ''POST'' (kc_iam_endpoint c @ ''/v1/iam/oauth/token'')
            [(''Content-Type'', ''application/x-www-form-urlencoded'')]
            (FormBody [(''client_id'', kc_client_id c), (''client_secret'', kc_client_secret c),
               (''grant_type'', ''client_credentials'')]) s = (Replied re, s1) \<and>
          re_status re = 200 \<and> re_first re = Some (JObj ms) \<and>
          last_member ''access_token'' ms = JStr tok \<and>
          (last_member ''expires_in'' ms = JInt n \<or> last_member ''expires_in'' ms = JNull \<and> n = 0) \<and>
          c1 = c\<lparr>kc_token := tok, kc_expiry := kc_expiry c1\<rparr> \<and>
          (n \<le> 0 \<longrightarrow> kc_expiry c1 = snd tm + 3600 * 1000000000) \<and>
          (0 < n \<longrightarrow> n \<le> 9223372036 \<longrightarrow> kc_expiry c1 = snd tm + n * 1000000000) \<and>
          (9223372036 < n \<longrightarrow> kc_expiry c1 < snd tm + n * 1000000000))"
  using assms
proof (cases rule: get_token_cases)
  case cached
  then show ?thesis by simp
next
  case (fresh re t)
  let ?n = "sint (tr_expires t)"
  from decode_token_Some [OF fresh(4)] fresh(5,6) obtain ms where
    ms: "re_first re = Some (JObj ms)" "last_member ''access_token'' ms = JStr tok"
      "last_member ''expires_in'' ms = JInt ?n \<or> last_member ''expires_in'' ms = JNull \<and> ?n = 0"
    by auto
  have life: "?n \<le> 0 \<longrightarrow> kc_expiry c1 = snd tm + 3600 * 1000000000"
    "0 < ?n \<longrightarrow> ?n \<le> 9223372036 \<longrightarrow> kc_expiry c1 = snd tm + ?n * 1000000000"
    "9223372036 < ?n \<longrightarrow> kc_expiry c1 < snd tm + ?n * 1000000000"
    using token_lifetime_short [of "tr_expires t"] token_lifetime_default [of "tr_expires t"]
      token_lifetime_long [of "tr_expires t"] by (simp_all add: fresh(7))
  have "c1 = c\<lparr>kc_token := tok, kc_expiry := kc_expiry c1\<rparr>" by (simp add: fresh(7))
  with fresh(1,2,3,6) ms life show ?thesis unfolding if_not_P [OF fresh(1)] by blast
qed

definition token_reply :: "json \<Rightarrow> (mem, unit, unit) link" where
  "token_reply n = demo_link\<lparr>wi_iam := (\<lambda>b. Replied \<lparr>re_status = 200, re_raw = '''', re_doc = None,
     re_first = Some (JObj [(''access_token'', JStr ''t''), (''expires_in'', n)])\<rparr>)\<rparr>"

theorem token_cache_sound_witness:
  "\<exists>c1. get_token (wire (token_reply (JInt 60)) 5) (0, 7) (demo_client\<lparr>kc_token := ''''\<rparr>) (demo_world, ()) =
      (Inr ''t'', c1, demo_world, ()) \<and> kc_expiry c1 = 7 + 60 * 1000000000"
proof -
  let ?g = "get_token (wire (token_reply (JInt 60)) 5) (0, 7) (demo_client\<lparr>kc_token := ''''\<rparr>) (demo_world, ())"
  let ?url = "''http://i/v1/iam/oauth/token''" and ?h = "[(''Content-Type'', ''application/x-www-form-urlencoded'')]"
  let ?b = "FormBody [(''client_id'', ''id''), (''client_secret'', ''s''), (''grant_type'', ''client_credentials'')]"
  have e: "fst ?g = Inr ''t'' \<and> snd (snd ?g) = (demo_world, ())" by code_simp
  then have g: "?g = (Inr ''t'', fst (snd ?g), demo_world, ())" by (metis prod.collapse)
  have w: "wire (token_reply (JInt 60)) 5 ''POST'' ?url ?h ?b (demo_world, ()) =
      (Replied \<lparr>re_status = 200, re_raw = '''', re_doc = None,
         re_first = Some (JObj [(''access_token'', JStr ''t''), (''expires_in'', JInt 60)])\<rparr>, demo_world, ())"
    by code_simp
  have l: "last_member ''expires_in'' [(''access_token'', JStr ''t''), (''expires_in'', JInt 60)] = JInt 60" by code_simp
  from token_cache_sound [OF g] have "kc_expiry (fst (snd ?g)) = 7 + 60 * 1000000000"
    by (auto simp: demo_client_def w l)
  with g show ?thesis by blast
qed

text \<open>C34: \<^verbatim>\<open>FetchEnv\<close> never changes a variable that is set and not empty, whatever the order of its
  map; its count is the number of paths exactly when it reports no error, and never more.\<close>

theorem fetch_env_respects_environment:
  assumes "fetch_env z net tms es st = st'" "fs_count st = 0" "fs_err st = None"
  shows "(\<forall>k v. fs_vars st k = Some v \<longrightarrow> v \<noteq> '''' \<longrightarrow> fs_vars st' k = Some v) \<and>
     fs_count st' \<le> length es \<and> (fs_err st' = None \<longleftrightarrow> fs_count st' = length es)"
  using assms(2,3) fetch_env_vars [of st] fetch_env_count [of z net tms es st] unfolding assms(1) [symmetric]
  by auto

theorem fetch_env_respects_environment_witness:
  "fs_vars (fetch_env echo_zap no_net (\<lambda>i. (0, 0)) [(''A'', ''p/x''), (''B'', ''p/y'')]
      \<lparr>fs_client = zap_only, fs_net = (), fs_vars = [''A'' \<mapsto> ''mine''], fs_count = 0, fs_err = None\<rparr>) ''A'' = Some ''mine''"
proof -
  let ?st = "\<lparr>fs_client = zap_only, fs_net = (), fs_vars = [''A'' \<mapsto> ''mine''], fs_count = 0, fs_err = None\<rparr>"
  have "fs_count ?st = 0" "fs_err ?st = None" "fs_vars ?st ''A'' = Some ''mine''" by simp_all
  with fetch_env_respects_environment [OF refl this(1,2), of echo_zap no_net "\<lambda>i. (0, 0)" "[(''A'', ''p/x''), (''B'', ''p/y'')]"]
  show ?thesis by blast
qed

section \<open>Properties of the commands\<close>

text \<open>C35: a run of \<^verbatim>\<open>kms-fetch\<close> that fails in its configuration, its authentication or a fetch, which
  is what its exit codes 2, 3 and 4 say, has touched no file.\<close>

theorem no_file_before_all_fetched:
  assumes "fetch_main y E s fs = (ec, s', fs')" "ec \<in> {2, 3, 4}"
  shows "fs' = fs"
proof -
  obtain r s1 fs1 where run: "fetch_run y E s fs = (r, s1, fs1)" by (metis prod_cases3)
  with assms obtain e where "r = Some e" "exit_code_for e \<noteq> 1" "fs' = fs1"
    by (auto simp: fetch_main_def split: option.splits)
  with fetch_run_early [of y E s fs e s1 fs1] run show ?thesis by simp
qed

definition demo_fetch_sys :: "(unit, unit) fetch_sys" where
  [go_defs]: "demo_fetch_sys = \<lparr>fy_zap = echo_zap, fy_net = no_net, fy_times = (\<lambda>i. (0, 0)), fy_host_of = (\<lambda>e. Some ''h''),
     fy_dial = (\<lambda>n h p i. None), fy_identity = (\<lambda>m p. Inr ()), fy_faults = (\<lambda>f p. False),
     fy_tmp = (\<lambda>p. ''/secrets/.kms-fetch-1''), fy_part = (\<lambda>p. []), fy_order = (\<lambda>vs. vs)\<rparr>"

definition demo_fetch_env :: "string \<Rightarrow> environ" where
  [go_defs]: "demo_fetch_env secrets k =
     (if k = ''KMS_SECRETS'' then secrets
      else if k = ''KMS_ZAP'' then ''h:1'' else if k = ''KMS_SERVICE_PATH'' then ''s'' else if k = ''MNEMONIC'' then ''m''
      else '''')"

theorem no_file_before_all_fetched_witness:
  "snd (snd (fetch_main demo_fetch_sys (demo_fetch_env ''KEY'') () (\<lambda>p. None))) = (\<lambda>p. None)"
proof -
  let ?r = "fetch_main demo_fetch_sys (demo_fetch_env ''KEY'') () (\<lambda>p. None)"
  have "fst ?r = 2" by code_simp
  then have "?r = (2, fst (snd ?r), snd (snd ?r))" by (metis prod.collapse)
  from no_file_before_all_fetched [OF this] show ?thesis by simp
qed

text \<open>Every run of the admin command ends with exit code 0 and no diagnostic, or with exit code 1
  and at least one; and a run that names no command, or an unknown one, changes nothing.\<close>

lemma cli_exit_reports:
  assumes "cli_main y argv s = (out, s')"
  shows "(co_exit out = 0 \<and> co_err out = [] \<or> co_exit out = 1 \<and> co_err out \<noteq> []) \<and>
     (snd (parse_globals (cy_env y) (tl argv)) = [] \<or>
      hd (snd (parse_globals (cy_env y) (tl argv))) \<notin> {''status'', ''put'', ''get'', ''list'', ''rotate''} \<longrightarrow> s' = s)"
proof -
  have "s' = s" if "snd (parse_globals (cy_env y) (tl argv)) = [] \<or>
      hd (snd (parse_globals (cy_env y) (tl argv))) \<notin> {''status'', ''put'', ''get'', ''list'', ''rotate''}"
    using assms that
    by (cases "snd (parse_globals (cy_env y) (tl argv))")
      (auto simp: cli_main_def split: if_splits prod.splits)
  with cli_exit_diag [OF assms] show ?thesis by (cases "co_exit out") auto
qed

definition demo_cli :: "(unit, unit) cli_sys" where
  [go_defs]: "demo_cli = \<lparr>cy_zap = echo_zap, cy_net = no_net, cy_time = (0, 0), cy_host_of = (\<lambda>e. None),
     cy_dial = (\<lambda>n h p i. None), cy_env = (\<lambda>k. ''''), cy_stdin = None\<rparr>"

lemma cli_exit_reports_witness:
  "co_exit (fst (cli_main demo_cli [''kms'', ''--org'', ''acme'', ''frob''] ())) = 1"
proof -
  let ?r = "cli_main demo_cli [''kms'', ''--org'', ''acme'', ''frob''] ()"
  have "co_err (fst ?r) \<noteq> []" by code_simp
  with cli_exit_reports [OF prod.collapse [symmetric], of demo_cli "[''kms'', ''--org'', ''acme'', ''frob'']" "()"]
  show ?thesis by blast
qed

section \<open>What a successful run of the init container leaves\<close>








end
