(* ===== verification/Steps.thy ===== *)
theory Steps
  imports Prelude
begin

text \<open>
  Labelled step relations: runs, and the interface \<open>protocol\<close> of a step relation that keeps an
  invariant, makes progress until it is done, and cannot go on for ever.  What follows from
  the three laws (invariants of reachable states, a bound on the length of runs, and that
  every run can be completed) is proved here once.
\<close>

inductive runs :: "('l \<Rightarrow> 's \<Rightarrow> 's \<Rightarrow> bool) \<Rightarrow> 's \<Rightarrow> 'l list \<Rightarrow> 's \<Rightarrow> bool"
  for step :: "'l \<Rightarrow> 's \<Rightarrow> 's \<Rightarrow> bool"
where
  runs_refl: "runs step s [] s"
| runs_step: "step l s s1 \<Longrightarrow> runs step s1 ls s' \<Longrightarrow> runs step s (l # ls) s'"

inductive_simps runs_Nil [simp]: "runs step s [] s'"
inductive_simps runs_Cons: "runs step s (l # ls) s'"

lemma runs_append:
  "runs step s (ls @ ls') s' \<longleftrightarrow> (\<exists>s1. runs step s ls s1 \<and> runs step s1 ls' s')"
  by (induction ls arbitrary: s) (auto simp: runs_Cons)

lemma runs_snoc:
  "runs step s (ls @ [l]) s' \<longleftrightarrow> (\<exists>s1. runs step s ls s1 \<and> step l s1 s')"
  by (auto simp: runs_append runs_Cons)

lemma runs_invariant:
  assumes "runs step s ls s'" "I s" "\<And>l s s'. I s \<Longrightarrow> step l s s' \<Longrightarrow> I s'"
  shows "I s'"
  using assms by (induction rule: runs.induct) auto

text \<open>The sum of a measure over a list, when one element is replaced.\<close>

lemma sum_list_update_less:
  assumes "i < length xs" "(f :: 'a \<Rightarrow> nat) y < f (xs ! i)"
  shows "sum_list (map f (xs[i := y])) < sum_list (map f xs)"
  using assms
proof (induction xs arbitrary: i)
  case (Cons x xs)
  then show ?case by (cases i) auto
qed simp

locale protocol =
  fixes step :: "'l \<Rightarrow> 's \<Rightarrow> 's \<Rightarrow> bool"
    and inv :: "'s \<Rightarrow> bool"
    and rank :: "'s \<Rightarrow> nat"
    and finished :: "'s \<Rightarrow> bool"
  assumes inv_step: "inv s \<Longrightarrow> step l s s' \<Longrightarrow> inv s'"
    and rank_step: "inv s \<Longrightarrow> step l s s' \<Longrightarrow> rank s' < rank s"
    and progress: "inv s \<Longrightarrow> \<not> finished s \<Longrightarrow> \<exists>l s'. step l s s'"
begin

lemma run_inv: "runs step s ls s' \<Longrightarrow> inv s \<Longrightarrow> inv s'"
  by (rule runs_invariant [of step]) (auto intro: inv_step)

lemma run_length: "runs step s ls s' \<Longrightarrow> inv s \<Longrightarrow> length ls + rank s' \<le> rank s"
proof (induction rule: runs.induct)
  case (runs_step l s s1 ls s')
  with inv_step rank_step [of s l s1] show ?case by force
qed simp

lemma can_finish: "inv s \<Longrightarrow> \<exists>ls s'. runs step s ls s' \<and> finished s'"
proof (induction "rank s" arbitrary: s rule: less_induct)
  case less
  show ?case
  proof (cases "finished s")
    case True
    with runs_refl [of step s] show ?thesis by (intro exI conjI)
  next
    case False
    with progress less.prems obtain l s1 where "step l s s1" by blast
    with less inv_step rank_step show ?thesis using runs_step by metis
  qed
qed

text \<open>A run that can no longer be extended is finished.\<close>

lemma maximal_finished:
  assumes "runs step s ls s'" "inv s" "\<And>l s2. \<not> step l s' s2"
  shows "finished s'"
  using progress run_inv [OF assms(1,2)] assms(3) by blast

end

end
