(* ===== verification/Flight.thy ===== *)
theory Flight
  imports Steps Jwks
begin

text \<open>
  Concurrent calls of \<^verbatim>\<open>resolve\<close> (\<^verbatim>\<open>jwks.go\<close>).  A call reads the cache under the
  read lock, queues for the refresh mutex, reads again, fetches, installs the keys under the
  write lock, and reads once more before its deferred unlock.  A step of one call is one of
  these sections; the steps of different calls interleave in any order, at any time that does
  not run backwards.  The calls are linearizable, at the times of their own sections; calls
  for a key that the provider serves share one fetch; and every call returns.
\<close>

section \<open>The parts of a refresh\<close>

text \<open>Before the write lock is taken, and under it.\<close>

definition fetched_keys :: "string \<Rightarrow> string + nat \<times> json option \<Rightarrow> string + (string \<times> rsa_key) list" where
  [go_defs]: "fetched_keys url answer =
     (if url = '''' then Inl ''jwks: IAM_KEYS_URL not configured''
      else case answer of
             Inl err \<Rightarrow> Inl (''jwks: GET '' @ url @ '': '' @ err)
           | Inr (status, body) \<Rightarrow>
               if status \<noteq> 200 then Inl (''jwks: '' @ url @ '' returned '' @ dec_nat status)
               else case Option.bind body decode_jwks of
                      None \<Rightarrow> Inl ''jwks: decode''
                    | Some doc \<Rightarrow>
                        let out = usable_keys doc [] in
                        if out = [] then Inl ''jwks: no usable RSA signing keys'' else Inr out)"

definition install_keys :: "int \<Rightarrow> (string \<times> rsa_key) list \<Rightarrow> jwks_cache \<Rightarrow> jwks_cache" where
  [go_defs]: "install_keys now out c = c\<lparr>jc_keys := out, jc_expiry := now + jwks_cache_ttl\<rparr>"

lemma refresh_parts:
  "refresh fetch now c =
     (case fetched_keys (jc_url c) (fetch now (jc_url c)) of
        Inl err \<Rightarrow> (Some err, c)
      | Inr out \<Rightarrow> (None, install_keys now out c))"
  by (auto simp: refresh_def fetched_keys_def install_keys_def Let_def split: sum.split option.split)

definition lookup_result :: "string \<Rightarrow> jwks_cache \<Rightarrow> string + rsa_key" where
  [go_defs]: "lookup_result kid c =
     (case map_of (jc_keys c) kid of
        None \<Rightarrow> Inl (''jwks: kid '' @ kid @ '' not found in keyset'')
      | Some k \<Rightarrow> Inr k)"

section \<open>Calls in flight\<close>

datatype call_phase =
    Arrived
  | AwaitLock
  | Recheck
  | Fetching
  | Installing "(string \<times> rsa_key) list"
  | Reading
  | Returned "string + rsa_key"

record flight_call =
  fc_kid :: string
  fc_phase :: call_phase

text \<open>
  \<open>fl_mutex\<close> is the holder of \<^verbatim>\<open>refreshMu\<close>.  Three history variables, which no step reads:
  the number of requests sent to the provider; the steps taken, each with its call and the
  clock it read; and the calls in the order of the step at which each took effect, with that
  step's clock and their results.
\<close>

record flight =
  fl_cache :: jwks_cache
  fl_mutex :: "nat option"
  fl_calls :: "flight_call list"
  fl_now :: int
  fl_fetches :: nat
  fl_steps :: "(nat \<times> int) list"
  fl_order :: "(nat \<times> int \<times> string \<times> (string + rsa_key)) list"

definition launch :: "jwks_cache \<Rightarrow> int \<Rightarrow> string list \<Rightarrow> flight" where
  [go_defs]: "launch c now kids =
     \<lparr>fl_cache = c, fl_mutex = None, fl_calls = map (\<lambda>k. \<lparr>fc_kid = k, fc_phase = Arrived\<rparr>) kids,
      fl_now = now, fl_fetches = 0, fl_steps = [], fl_order = []\<rparr>"

definition call_at :: "flight \<Rightarrow> nat \<Rightarrow> string \<Rightarrow> call_phase \<Rightarrow> bool" where
  [go_defs]: "call_at s i kid ph \<longleftrightarrow>
     i < length (fl_calls s) \<and> fl_calls s ! i = \<lparr>fc_kid = kid, fc_phase = ph\<rparr>"

definition move :: "nat \<Rightarrow> int \<Rightarrow> call_phase \<Rightarrow> flight \<Rightarrow> flight" where
  [go_defs]: "move i t ph s =
     s\<lparr>fl_calls := (fl_calls s)[i := (fl_calls s ! i)\<lparr>fc_phase := ph\<rparr>], fl_now := t,
       fl_steps := fl_steps s @ [(i, t)]\<rparr>"

definition took_effect :: "nat \<Rightarrow> string \<Rightarrow> string + rsa_key \<Rightarrow> flight \<Rightarrow> flight" where
  [go_defs]: "took_effect i kid r s = s\<lparr>fl_order := fl_order s @ [(i, fl_now s, kid, r)]\<rparr>"

definition unlock_refresh :: "flight \<Rightarrow> flight" where
  [go_defs]: "unlock_refresh s = s\<lparr>fl_mutex := None\<rparr>"

definition sent_fetch :: "flight \<Rightarrow> flight" where
  [go_defs]: "sent_fetch s = (if jc_url (fl_cache s) = '''' then s else s\<lparr>fl_fetches := Suc (fl_fetches s)\<rparr>)"

text \<open>The label is the call that moves and the clock it reads.\<close>

inductive flight_step :: "fetcher \<Rightarrow> nat \<times> int \<Rightarrow> flight \<Rightarrow> flight \<Rightarrow> bool"
  for net :: fetcher
where
  no_kid: "call_at s i '''' Arrived \<Longrightarrow> fl_now s \<le> t \<Longrightarrow>
     r = Inl ''jwks: JWT missing kid header'' \<Longrightarrow>
     flight_step net (i, t) s (took_effect i '''' r (move i t (Returned r) s))"
| fast_hit: "call_at s i kid Arrived \<Longrightarrow> fl_now s \<le> t \<Longrightarrow> kid \<noteq> '''' \<Longrightarrow>
     cached_key t kid (fl_cache s) = Some k \<Longrightarrow>
     flight_step net (i, t) s (took_effect i kid (Inr k) (move i t (Returned (Inr k)) s))"
| fast_miss: "call_at s i kid Arrived \<Longrightarrow> fl_now s \<le> t \<Longrightarrow> kid \<noteq> '''' \<Longrightarrow>
     cached_key t kid (fl_cache s) = None \<Longrightarrow>
     flight_step net (i, t) s (move i t AwaitLock s)"
| lock_refresh: "call_at s i kid AwaitLock \<Longrightarrow> fl_now s \<le> t \<Longrightarrow> fl_mutex s = None \<Longrightarrow>
     flight_step net (i, t) s ((move i t Recheck s)\<lparr>fl_mutex := Some i\<rparr>)"
| slow_hit: "call_at s i kid Recheck \<Longrightarrow> fl_now s \<le> t \<Longrightarrow>
     cached_key t kid (fl_cache s) = Some k \<Longrightarrow>
     flight_step net (i, t) s (unlock_refresh (took_effect i kid (Inr k) (move i t (Returned (Inr k)) s)))"
| slow_miss: "call_at s i kid Recheck \<Longrightarrow> fl_now s \<le> t \<Longrightarrow>
     cached_key t kid (fl_cache s) = None \<Longrightarrow>
     flight_step net (i, t) s (move i t Fetching s)"
| fetch_failed: "call_at s i kid Fetching \<Longrightarrow> fl_now s \<le> t \<Longrightarrow>
     fetched_keys (jc_url (fl_cache s)) (net t (jc_url (fl_cache s))) = Inl err \<Longrightarrow>
     flight_step net (i, t) s
       (sent_fetch (unlock_refresh (took_effect i kid (Inl err) (move i t (Returned (Inl err)) s))))"
| fetch_ok: "call_at s i kid Fetching \<Longrightarrow> fl_now s \<le> t \<Longrightarrow>
     fetched_keys (jc_url (fl_cache s)) (net t (jc_url (fl_cache s))) = Inr out \<Longrightarrow>
     flight_step net (i, t) s (sent_fetch (move i t (Installing out) s))"
| install: "call_at s i kid (Installing out) \<Longrightarrow> fl_now s \<le> t \<Longrightarrow>
     c = install_keys t out (fl_cache s) \<Longrightarrow>
     flight_step net (i, t) s ((took_effect i kid (lookup_result kid c) (move i t Reading s))\<lparr>fl_cache := c\<rparr>)"
| read_key: "call_at s i kid Reading \<Longrightarrow> fl_now s \<le> t \<Longrightarrow>
     flight_step net (i, t) s (unlock_refresh (move i t (Returned (lookup_result kid (fl_cache s))) s))"

inductive_cases flight_stepE: "flight_step net (i, t) s s'"

definition all_returned :: "flight \<Rightarrow> bool" where
  [go_defs]: "all_returned s \<longleftrightarrow>
     list_all (\<lambda>c. case fc_phase c of Returned r \<Rightarrow> True | _ \<Rightarrow> False) (fl_calls s)"

lemmas flight_ops = move_def took_effect_def unlock_refresh_def sent_fetch_def call_at_def

section \<open>The invariant\<close>

text \<open>
  One call by itself that took effect at \<open>te\<close>, on cache \<open>c\<close>: it finds a key that has not
  expired at \<open>te\<close>; or there was none when it looked at \<open>t1\<close>, and it asks the provider at
  \<open>t2\<close> and installs the answer at \<open>te\<close>, or fails.  All three are times at which the call itself
  took a step (\<open>L\<close> are the steps of the run).
\<close>

definition one_call ::
    "fetcher \<Rightarrow> (nat \<times> int) set \<Rightarrow> nat \<Rightarrow> int \<Rightarrow> string \<Rightarrow> jwks_cache \<Rightarrow> string + rsa_key \<Rightarrow> jwks_cache \<Rightarrow> bool" where
  "one_call net L i te kid c r c' \<longleftrightarrow>
     (i, te) \<in> L \<and>
     (if kid = '''' then r = Inl ''jwks: JWT missing kid header'' \<and> c' = c
      else
        (\<exists>k. te < jc_expiry c \<and> map_of (jc_keys c) kid = Some k \<and> r = Inr k \<and> c' = c) \<or>
        (\<exists>t1 t2. (i, t1) \<in> L \<and> (i, t2) \<in> L \<and> t1 \<le> t2 \<and> t2 \<le> te \<and>
           (t1 < jc_expiry c \<longrightarrow> map_of (jc_keys c) kid = None) \<and>
           (case fetched_keys (jc_url c) (net t2 (jc_url c)) of
              Inl err \<Rightarrow> r = Inl err \<and> c' = c
            | Inr out \<Rightarrow> c' = c\<lparr>jc_keys := out, jc_expiry := te + 15 * 60 * 1000000000\<rparr> \<and>
                         r = lookup_result kid c')))"

text \<open>With a clock that stands still, this is \<open>resolve\<close>.\<close>

lemma one_call_resolve: "resolve net t kid c = (r, c') \<Longrightarrow> (i, t) \<in> L \<Longrightarrow> one_call net L i t kid c r c'"
  unfolding one_call_def
  by (auto simp: resolve_def cached_key_def refresh_parts install_keys_def jwks_cache_ttl_def lookup_result_def
      split: if_splits option.splits sum.splits intro!: exI [of _ t])

text \<open>The calls that took effect, one after the other.\<close>

fun serial ::
    "fetcher \<Rightarrow> (nat \<times> int) set \<Rightarrow> jwks_cache \<Rightarrow> (nat \<times> int \<times> string \<times> (string + rsa_key)) list \<Rightarrow> jwks_cache \<Rightarrow> bool"
where
  "serial net L c [] c' \<longleftrightarrow> c' = c"
| "serial net L c ((i, te, kid, r) # es) c' \<longleftrightarrow>
     (\<exists>c1. one_call net L i te kid c r c1 \<and> serial net L c1 es c')"

lemma serial_snoc:
  "serial net L c (es @ [(i, te, kid, r)]) c' \<longleftrightarrow>
     (\<exists>c1. serial net L c es c1 \<and> one_call net L i te kid c1 r c')"
proof (induction es arbitrary: c)
  case (Cons e es)
  obtain i' te' kid' r' where "e = (i', te', kid', r')" by (cases e)
  with Cons show ?case by simp blast
qed simp

lemma one_call_mono: "one_call net L i te kid c r c' \<Longrightarrow> L \<subseteq> L' \<Longrightarrow> one_call net L' i te kid c r c'"
  unfolding one_call_def by (auto split: if_splits) blast

lemma serial_mono: "serial net L c es c' \<Longrightarrow> L \<subseteq> L' \<Longrightarrow> serial net L' c es c'"
proof (induction es arbitrary: c)
  case (Cons e es)
  obtain i te kid r where "e = (i, te, kid, r)" by (cases e)
  with Cons one_call_mono show ?case by simp blast
qed simp

definition in_section :: "call_phase \<Rightarrow> bool" where
  [go_defs]: "in_section ph \<longleftrightarrow>
     (case ph of Recheck \<Rightarrow> True | Fetching \<Rightarrow> True | Installing out \<Rightarrow> True | Reading \<Rightarrow> True | _ \<Rightarrow> False)"

text \<open>What holds of a call in each phase, given the calls that took effect and the cache.\<close>

fun call_ok ::
    "fetcher \<Rightarrow> (nat \<times> int) set \<Rightarrow> (nat \<times> int \<times> string \<times> (string + rsa_key)) list \<Rightarrow> jwks_cache \<Rightarrow>
     int \<Rightarrow> nat \<Rightarrow> string \<Rightarrow> call_phase \<Rightarrow> bool"
where
  "call_ok net L es c now i kid Arrived \<longleftrightarrow> i \<notin> fst ` set es"
| "call_ok net L es c now i kid AwaitLock \<longleftrightarrow> i \<notin> fst ` set es \<and> kid \<noteq> ''''"
| "call_ok net L es c now i kid Recheck \<longleftrightarrow> i \<notin> fst ` set es \<and> kid \<noteq> ''''"
| "call_ok net L es c now i kid Fetching \<longleftrightarrow>
     i \<notin> fst ` set es \<and> kid \<noteq> '''' \<and> (\<exists>t1\<le>now. (i, t1) \<in> L \<and> cached_key t1 kid c = None)"
| "call_ok net L es c now i kid (Installing out) \<longleftrightarrow>
     i \<notin> fst ` set es \<and> kid \<noteq> '''' \<and>
     (\<exists>t1 t2. (i, t1) \<in> L \<and> (i, t2) \<in> L \<and> t1 \<le> t2 \<and> t2 \<le> now \<and> cached_key t1 kid c = None \<and>
        fetched_keys (jc_url c) (net t2 (jc_url c)) = Inr out)"
| "call_ok net L es c now i kid Reading \<longleftrightarrow> (\<exists>te. (i, te, kid, lookup_result kid c) \<in> set es)"
| "call_ok net L es c now i kid (Returned r) \<longleftrightarrow> (\<exists>te. (i, te, kid, r) \<in> set es)"

definition mutex_ok :: "nat option \<Rightarrow> flight_call list \<Rightarrow> bool" where
  "mutex_ok m cs \<longleftrightarrow> (\<forall>i. m = Some i \<longleftrightarrow> i < length cs \<and> in_section (fc_phase (cs ! i)))"

definition in_time :: "(nat \<times> int \<times> string \<times> (string + rsa_key)) list \<Rightarrow> int \<Rightarrow> bool" where
  "in_time es now \<longleftrightarrow> sorted (map (\<lambda>(i, te, kid, r). te) es @ [now])"

lemma in_time_later: "in_time es now \<Longrightarrow> now \<le> now' \<Longrightarrow> in_time es now'"
  by (auto simp: in_time_def sorted_append)

lemma in_time_snoc: "in_time es now \<Longrightarrow> now \<le> t \<Longrightarrow> in_time (es @ [(i, t, kid, r)]) t"
  by (auto simp: in_time_def sorted_append)

definition flight_inv :: "fetcher \<Rightarrow> jwks_cache \<Rightarrow> flight \<Rightarrow> bool" where
  "flight_inv net c0 s \<longleftrightarrow>
     serial net (set (fl_steps s)) c0 (fl_order s) (fl_cache s) \<and> distinct (map fst (fl_order s)) \<and>
     in_time (fl_order s) (fl_now s) \<and> mutex_ok (fl_mutex s) (fl_calls s) \<and>
     (\<forall>i<length (fl_calls s).
        call_ok net (set (fl_steps s)) (fl_order s) (fl_cache s) (fl_now s) i
          (fc_kid (fl_calls s ! i)) (fc_phase (fl_calls s ! i)))"

lemma flight_inv_launch: "flight_inv net c0 (launch c0 now kids)"
  by (auto simp: flight_inv_def launch_def mutex_ok_def in_section_def in_time_def)

text \<open>Calls that do not move keep what they know, as long as the cache stays.\<close>

lemma call_ok_later:
  assumes "call_ok net L es c now i kid ph" "now \<le> now'" "L \<subseteq> L'"
  shows "call_ok net L' es c now' i kid ph"
  using assms by (cases ph) (auto, (blast intro: order_trans)+)

lemma call_ok_others:
  assumes "call_ok net L es c now i kid ph" "now \<le> now'" "L \<subseteq> L'" "j \<noteq> i"
  shows "call_ok net L' (es @ [(j, te, kid', r)]) c now' i kid ph"
  using call_ok_later [OF assms(1-3)] assms(4) by (cases ph) auto

lemma call_ok_outside:
  assumes "call_ok net L es c now i kid ph" "j \<noteq> i" "\<not> in_section ph"
  shows "call_ok net L' (es @ [(j, te, kid', r)]) c' now' i kid ph"
  using assms by (cases ph) (auto simp: in_section_def)

lemma call_at_ok:
  assumes "flight_inv net c0 s" "call_at s i kid ph"
  shows "call_ok net (set (fl_steps s)) (fl_order s) (fl_cache s) (fl_now s) i kid ph"
proof -
  have "call_ok net (set (fl_steps s)) (fl_order s) (fl_cache s) (fl_now s) i
      (fc_kid (fl_calls s ! i)) (fc_phase (fl_calls s ! i))"
    using assms unfolding flight_inv_def call_at_def by blast
  with assms(2) show ?thesis by (simp add: call_at_def)
qed

lemma fresh_entry:
  assumes "flight_inv net c0 s" "call_at s i kid ph" "ph \<noteq> Reading" "\<And>r. ph \<noteq> Returned r"
  shows "i \<notin> fst ` set (fl_order s)"
  using call_at_ok [OF assms(1,2)] assms(3,4) by (cases ph) auto

lemma mutex_holder:
  assumes "flight_inv net c0 s" "call_at s i kid ph" "in_section ph"
  shows "fl_mutex s = Some i"
  using assms by (auto simp: flight_inv_def mutex_ok_def call_at_def)

lemma one_in_section:
  assumes "mutex_ok m cs" "i < length cs" "in_section (fc_phase (cs ! i))"
    and "j < length cs" "in_section (fc_phase (cs ! j))"
  shows "i = j"
  using assms unfolding mutex_ok_def by (metis option.inject)

text \<open>What a step has to show: of the call that moves, of the lock, and of the order.\<close>

lemma flight_inv_update:
  assumes inv: "flight_inv net c0 s" and at: "call_at s i kid ph" and now: "fl_now s \<le> t"
    and s': "fl_calls s' = (fl_calls s)[i := \<lparr>fc_kid = kid, fc_phase = ph'\<rparr>]" "fl_now s' = t"
      "fl_steps s' = fl_steps s @ [(i, t)]"
    and order: "fl_order s' = fl_order s \<or> (\<exists>r. fl_order s' = fl_order s @ [(i, t, kid, r)] \<and> i \<notin> fst ` set (fl_order s))"
    and cache: "fl_cache s' = fl_cache s \<or> in_section ph"
    and serial: "serial net (insert (i, t) (set (fl_steps s))) c0 (fl_order s') (fl_cache s')"
    and ok: "call_ok net (insert (i, t) (set (fl_steps s))) (fl_order s') (fl_cache s') t i kid ph'"
    and mutex: "fl_mutex s' = (if in_section ph' then Some i else if in_section ph then None else fl_mutex s)"
    and enter: "in_section ph' \<Longrightarrow> in_section ph \<or> fl_mutex s = None"
  shows "flight_inv net c0 s'"
proof -
  have m: "mutex_ok (fl_mutex s) (fl_calls s)" using inv by (simp add: flight_inv_def)
  have i: "i < length (fl_calls s)" "fl_calls s ! i = \<lparr>fc_kid = kid, fc_phase = ph\<rparr>"
    using at by (simp_all add: call_at_def)
  have holder: "fl_mutex s = Some i \<longleftrightarrow> in_section ph" using m i by (simp add: mutex_ok_def)
  have others: "fl_mutex s = Some j \<longleftrightarrow> j < length (fl_calls s) \<and> in_section (fc_phase (fl_calls s ! j))" for j
    using m by (simp add: mutex_ok_def)
  have "mutex_ok (fl_mutex s') (fl_calls s')"
    unfolding mutex_ok_def s' mutex
  proof (intro allI)
    fix j
    show "((if in_section ph' then Some i else if in_section ph then None else fl_mutex s) = Some j) =
      (j < length ((fl_calls s)[i := \<lparr>fc_kid = kid, fc_phase = ph'\<rparr>]) \<and>
       in_section (fc_phase ((fl_calls s)[i := \<lparr>fc_kid = kid, fc_phase = ph'\<rparr>] ! j)))"
      using others [of j] holder enter i by (cases "j = i") auto
  qed
  moreover have "distinct (map fst (fl_order s'))"
    using order inv by (auto simp: flight_inv_def)
  moreover have "in_time (fl_order s') (fl_now s')"
    using order inv in_time_later [OF _ now] in_time_snoc [OF _ now] by (auto simp: flight_inv_def s')
  moreover have "call_ok net (set (fl_steps s')) (fl_order s') (fl_cache s') (fl_now s') j
      (fc_kid (fl_calls s' ! j)) (fc_phase (fl_calls s' ! j))"
    if j: "j < length (fl_calls s')" for j
  proof (cases "j = i")
    case True
    with ok i s' show ?thesis by simp
  next
    case False
    let ?c = "fl_calls s ! j" and ?L = "insert (i, t) (set (fl_steps s))"
    have sub: "set (fl_steps s) \<subseteq> ?L" by blast
    have same: "fl_calls s' ! j = ?c" using False s' by simp
    have old: "call_ok net (set (fl_steps s)) (fl_order s) (fl_cache s) (fl_now s) j (fc_kid ?c) (fc_phase ?c)"
      using inv j s' by (simp add: flight_inv_def)
    show ?thesis
    proof (cases "in_section ph")
      case True
      with others [of j] holder False j s' have out: "\<not> in_section (fc_phase ?c)" by auto
      have "call_ok net ?L (fl_order s) c' t j (fc_kid ?c) (fc_phase ?c)" for c'
        using call_ok_later [OF old now sub] out by (cases "fc_phase ?c") (auto simp: in_section_def)
      with order call_ok_outside [OF old _ out, of i] False show ?thesis
        by (auto simp: same s')
    next
      case out: False
      with cache order call_ok_later [OF old now sub] call_ok_others [OF old now sub, of i] False show ?thesis
        by (auto simp: same s')
    qed
  qed
  ultimately show ?thesis using serial by (simp add: flight_inv_def s')
qed

text \<open>A call that takes effect at its last step, in the four ways the code has.\<close>

lemma serial_append:
  assumes "serial net L c0 es c" "L' = insert (i, te) L" "one_call net L' i te kid c r c'"
  shows "serial net L' c0 (es @ [(i, te, kid, r)]) c'"
  unfolding serial_snoc using serial_mono [OF assms(1)] assms(2,3) by blast

lemma one_call_hit:
  "kid \<noteq> '''' \<Longrightarrow> cached_key t kid c = Some k \<Longrightarrow> (i, t) \<in> L \<Longrightarrow> one_call net L i t kid c (Inr k) c"
  by (auto simp: one_call_def cached_key_def split: if_splits)

lemma one_call_fetch:
  assumes "kid \<noteq> ''''" "cached_key t1 kid c = None" "(i, t1) \<in> L" "(i, t2) \<in> L" "(i, te) \<in> L" "t1 \<le> t2" "t2 \<le> te"
  shows "fetched_keys (jc_url c) (net t2 (jc_url c)) = Inl err \<Longrightarrow> one_call net L i te kid c (Inl err) c"
    and "fetched_keys (jc_url c) (net t2 (jc_url c)) = Inr out \<Longrightarrow>
      one_call net L i te kid c (lookup_result kid (install_keys te out c)) (install_keys te out c)"
proof -
  have "t1 < jc_expiry c \<longrightarrow> map_of (jc_keys c) kid = None"
    using assms(2) by (auto simp: cached_key_def)
  with assms(1,3-7) show "one_call net L i te kid c (Inl err) c"
    if "fetched_keys (jc_url c) (net t2 (jc_url c)) = Inl err"
    unfolding one_call_def using that
    by (intro conjI, simp, subst if_not_P, simp, intro disjI2 exI [of _ t1] exI [of _ t2], simp)
  from \<open>t1 < jc_expiry c \<longrightarrow> map_of (jc_keys c) kid = None\<close> assms(1,3-7)
  show "one_call net L i te kid c (lookup_result kid (install_keys te out c)) (install_keys te out c)"
    if "fetched_keys (jc_url c) (net t2 (jc_url c)) = Inr out"
    unfolding one_call_def using that
    by (intro conjI, simp, subst if_not_P, simp, intro disjI2 exI [of _ t1] exI [of _ t2], simp add: install_keys_def jwks_cache_ttl_def)
qed

lemma flight_inv_step:
  assumes "flight_inv net c0 s" "flight_step net (i, t) s s'"
  shows "flight_inv net c0 s'"
proof -
  note inv = assms(1)
  let ?L = "insert (i, t) (set (fl_steps s))"
  have sub: "set (fl_steps s) \<subseteq> ?L" and here: "(i, t) \<in> ?L" by blast+
  have sr: "serial net (set (fl_steps s)) c0 (fl_order s) (fl_cache s)" using inv by (simp add: flight_inv_def)
  note stay = serial_mono [OF sr sub] and append = serial_append [OF sr refl]
  note rule = flight_inv_update [OF inv] and fresh = fresh_entry [OF inv] and known = call_at_ok [OF inv]
  note sections = in_section_def
  show ?thesis
    using assms(2)
  proof (cases rule: flight_step.cases)
    case (no_kid r)
    have "one_call net ?L i t '''' (fl_cache s) r (fl_cache s)" using no_kid by (simp add: one_call_def)
    from append [OF this] show ?thesis
      by (intro rule [OF no_kid(2,3), of _ "Returned r"])
        (use no_kid fresh [OF no_kid(2)] in \<open>auto simp: flight_ops sections\<close>)
  next
    case (fast_hit kid k)
    from append [OF one_call_hit [OF fast_hit(4,5) here]] show ?thesis
      by (intro rule [OF fast_hit(2,3), of _ "Returned (Inr k)"])
        (use fast_hit fresh [OF fast_hit(2)] in \<open>auto simp: flight_ops sections\<close>)
  next
    case (fast_miss kid)
    show ?thesis
      by (rule rule [OF fast_miss(2,3), of _ AwaitLock])
        (use fast_miss fresh [OF fast_miss(2)] stay in \<open>auto simp: flight_ops sections\<close>)
  next
    case (lock_refresh kid)
    show ?thesis
      by (rule rule [OF lock_refresh(2,3), of _ Recheck])
        (use lock_refresh known [OF lock_refresh(2)] stay in \<open>auto simp: flight_ops sections\<close>)
  next
    case (slow_hit kid k)
    have "kid \<noteq> ''''" using known [OF slow_hit(2)] by simp
    from append [OF one_call_hit [OF this slow_hit(4) here]] show ?thesis
      by (intro rule [OF slow_hit(2,3), of _ "Returned (Inr k)"])
        (use slow_hit fresh [OF slow_hit(2)] in \<open>auto simp: flight_ops sections\<close>)
  next
    case (slow_miss kid)
    show ?thesis
      by (rule rule [OF slow_miss(2,3), of _ Fetching])
        (use slow_miss known [OF slow_miss(2)] mutex_holder [OF inv slow_miss(2)] stay in
          \<open>auto simp: flight_ops sections\<close>)
  next
    case (fetch_failed kid err)
    from call_ok_later [OF known [OF fetch_failed(2)] fetch_failed(3) sub] obtain t1 where
      t1: "kid \<noteq> ''''" "cached_key t1 kid (fl_cache s) = None" "(i, t1) \<in> ?L" "t1 \<le> t"
      by (simp only: call_ok.simps) blast
    from append [OF one_call_fetch(1) [where net = net, OF t1(1,2,3) here here t1(4) order_refl fetch_failed(4)]] show ?thesis
      by (intro rule [OF fetch_failed(2,3), of _ "Returned (Inl err)"])
        (use fetch_failed fresh [OF fetch_failed(2)] in \<open>auto simp: flight_ops sections\<close>)
  next
    case (fetch_ok kid out)
    from call_ok_later [OF known [OF fetch_ok(2)] fetch_ok(3) sub] obtain t1 where
      t1: "kid \<noteq> ''''" "cached_key t1 kid (fl_cache s) = None" "(i, t1) \<in> ?L" "t1 \<le> t"
      by (simp only: call_ok.simps) blast
    have "call_ok net ?L (fl_order s) (fl_cache s) t i kid (Installing out)"
      unfolding call_ok.simps using t1 fetch_ok(4) fresh [OF fetch_ok(2)] here by blast
    then show ?thesis
      by (intro rule [OF fetch_ok(2,3), of _ "Installing out"])
        (use fetch_ok mutex_holder [OF inv fetch_ok(2)] stay in
          \<open>simp_all add: flight_ops sections del: call_ok.simps\<close>)
  next
    case (install kid out c)
    from call_ok_later [OF known [OF install(2)] install(3) sub] obtain t1 t2 where
      t1: "kid \<noteq> ''''" "cached_key t1 kid (fl_cache s) = None" "(i, t1) \<in> ?L" "(i, t2) \<in> ?L" "t1 \<le> t2" "t2 \<le> t"
        "fetched_keys (jc_url (fl_cache s)) (net t2 (jc_url (fl_cache s))) = Inr out"
      by (simp only: call_ok.simps) blast
    from append [OF one_call_fetch(2) [where net = net, OF t1(1-4) here t1(5-7)]] show ?thesis
      by (intro rule [OF install(2,3), of _ Reading])
        (use install fresh [OF install(2)] mutex_holder [OF inv install(2)] in
          \<open>auto simp: flight_ops sections\<close>)
  next
    case (read_key kid)
    show ?thesis
      by (rule rule [OF read_key(2,3), of _ "Returned (lookup_result kid (fl_cache s))"])
        (use read_key known [OF read_key(2)] stay in \<open>auto simp: flight_ops sections\<close>)
  qed
qed

lemma flight_steps_run:
  assumes "runs (flight_step net) s ls s'"
  shows "fl_steps s' = fl_steps s @ ls"
  using assms
proof (induction rule: runs.induct)
  case (runs_step l s s1 ls s')
  obtain i t where "l = (i, t)" by (cases l)
  with runs_step(1) have "fl_steps s1 = fl_steps s @ [l]" by (auto elim!: flight_stepE simp: flight_ops)
  with runs_step.IH show ?case by simp
qed simp

section \<open>Every call returns\<close>

fun phase_rank :: "call_phase \<Rightarrow> nat" where
  "phase_rank Arrived = 6"
| "phase_rank AwaitLock = 5"
| "phase_rank Recheck = 4"
| "phase_rank Fetching = 3"
| "phase_rank (Installing out) = 2"
| "phase_rank Reading = 1"
| "phase_rank (Returned r) = 0"

definition flight_rank :: "flight \<Rightarrow> nat" where
  "flight_rank s = sum_list (map (\<lambda>c. phase_rank (fc_phase c)) (fl_calls s))"

lemma flight_rank_launch: "flight_rank (launch c now kids) = 6 * length kids"
  by (simp add: flight_rank_def launch_def comp_def sum_list_triv)

lemma flight_rank_step:
  assumes "flight_step net (i, t) s s'"
  shows "flight_rank s' < flight_rank s"
proof -
  have "\<exists>c. i < length (fl_calls s) \<and> fl_calls s' = (fl_calls s)[i := c] \<and>
      phase_rank (fc_phase c) < phase_rank (fc_phase (fl_calls s ! i))"
    using assms by (rule flight_stepE) (auto simp: flight_ops)
  then show ?thesis
    unfolding flight_rank_def by (auto intro: sum_list_update_less)
qed

lemma call_atI: "i < length (fl_calls s) \<Longrightarrow> call_at s i (fc_kid (fl_calls s ! i)) (fc_phase (fl_calls s ! i))"
  by (simp add: call_at_def)

text \<open>The holder of the lock can always go on, and without a holder everyone can.\<close>

lemma section_moves:
  assumes "call_at s i kid ph" "in_section ph"
  shows "\<exists>s'. flight_step net (i, fl_now s) s s'"
proof (cases ph)
  case Recheck
  with assms slow_hit [OF _ order_refl] slow_miss [OF _ order_refl] show ?thesis
    by (cases "cached_key (fl_now s) kid (fl_cache s)") blast+
next
  case Fetching
  let ?url = "jc_url (fl_cache s)"
  from Fetching assms fetch_failed [OF _ order_refl] fetch_ok [OF _ order_refl] show ?thesis
    by (cases "fetched_keys ?url (net (fl_now s) ?url)") blast+
next
  case (Installing out)
  with assms install [OF _ order_refl refl] show ?thesis by blast
next
  case Reading
  with assms read_key [OF _ order_refl] show ?thesis by blast
qed (use assms in \<open>simp_all add: in_section_def\<close>)

lemma flight_progress:
  assumes "flight_inv net c0 s" "\<not> all_returned s"
  shows "\<exists>l s'. flight_step net l s s'"
proof (cases "fl_mutex s")
  case (Some j)
  then have "j < length (fl_calls s)" "in_section (fc_phase (fl_calls s ! j))"
    using assms(1) by (auto simp: flight_inv_def mutex_ok_def)
  with section_moves [OF call_atI] show ?thesis by blast
next
  case None
  from assms(2) obtain i where i: "i < length (fl_calls s)"
    and ph: "\<not> (case fc_phase (fl_calls s ! i) of Returned r \<Rightarrow> True | _ \<Rightarrow> False)"
    unfolding all_returned_def list_all_length by blast
  note at = call_atI [OF i]
  let ?kid = "fc_kid (fl_calls s ! i)"
  show ?thesis
  proof (cases "fc_phase (fl_calls s ! i)")
    case Arrived
    note here = at [unfolded Arrived]
    consider "?kid = ''''" | "?kid \<noteq> ''''" "cached_key (fl_now s) ?kid (fl_cache s) = None"
      | k where "?kid \<noteq> ''''" "cached_key (fl_now s) ?kid (fl_cache s) = Some k" by blast
    then show ?thesis
      using here no_kid [OF _ order_refl refl, of s i net] fast_miss [OF here order_refl]
        fast_hit [OF here order_refl]
      by cases (metis, blast+)
  next
    case AwaitLock
    with at lock_refresh [OF _ order_refl None] show ?thesis by metis
  next
    case (Returned r)
    with ph show ?thesis by simp
  qed (use assms(1) None i in \<open>auto simp: flight_inv_def mutex_ok_def in_section_def\<close>)
qed

interpretation fl: protocol "flight_step net" "flight_inv net c0" flight_rank all_returned for net c0
proof
  fix s s' l
  assume inv: "flight_inv net c0 s"
  show "flight_inv net c0 s'" if "flight_step net l s s'"
    using flight_inv_step [OF inv] that by (cases l) simp
  show "flight_rank s' < flight_rank s" if "flight_step net l s s'"
    using flight_rank_step that by (cases l) simp
  show "\<exists>l s'. flight_step net l s s'" if "\<not> all_returned s"
    using flight_progress [OF inv that] .
qed

section \<open>Calls for one key share one fetch\<close>

definition serves :: "fetcher \<Rightarrow> string \<Rightarrow> string \<Rightarrow> int \<Rightarrow> bool" where
  "serves net url kid t \<longleftrightarrow> (\<exists>out. fetched_keys url (net t url) = Inr out \<and> map_of out kid \<noteq> None)"

definition good_return :: "call_phase \<Rightarrow> bool" where
  "good_return ph \<longleftrightarrow> (\<forall>r. ph = Returned r \<longrightarrow> \<not> isl r)"

definition calls_all :: "(call_phase \<Rightarrow> bool) \<Rightarrow> string \<Rightarrow> flight \<Rightarrow> bool" where
  "calls_all P kid s \<longleftrightarrow> (\<forall>c\<in>set (fl_calls s). fc_kid c = kid \<and> good_return (fc_phase c) \<and> P (fc_phase c))"

text \<open>Before the fetch, between fetch and install, and after the install.\<close>

fun before_fetch :: "call_phase \<Rightarrow> bool" where
  "before_fetch (Installing out) = False"
| "before_fetch Reading = False"
| "before_fetch _ = True"

definition holds_key :: "string \<Rightarrow> call_phase \<Rightarrow> bool" where
  "holds_key kid ph \<longleftrightarrow> (in_section ph \<longrightarrow> (\<exists>out. ph = Installing out \<and> map_of out kid \<noteq> None))"

fun after_install :: "call_phase \<Rightarrow> bool" where
  "after_install Fetching = False"
| "after_install (Installing out) = False"
| "after_install _ = True"

definition shared :: "string \<Rightarrow> string \<Rightarrow> int \<Rightarrow> flight \<Rightarrow> bool" where
  "shared url kid t0 s \<longleftrightarrow>
     jc_url (fl_cache s) = url \<and> t0 \<le> fl_now s \<and>
     (fl_fetches s = 0 \<and> calls_all before_fetch kid s \<or>
      fl_fetches s = 1 \<and> calls_all (holds_key kid) kid s \<and> fl_mutex s \<noteq> None \<or>
      fl_fetches s = 1 \<and> calls_all after_install kid s \<and>
        map_of (jc_keys (fl_cache s)) kid \<noteq> None \<and> t0 + jwks_cache_ttl \<le> jc_expiry (fl_cache s))"

lemma calls_all_at:
  assumes "calls_all P kid s" "call_at s i kid' ph"
  shows "kid' = kid \<and> P ph"
  using assms unfolding calls_all_def call_at_def by (metis flight_call.select_convs nth_mem)

lemma calls_all_move:
  assumes "calls_all P kid s" "call_at s i kid' ph" "good_return ph'" "P ph'"
    and "fl_calls s' = (fl_calls s)[i := \<lparr>fc_kid = kid', fc_phase = ph'\<rparr>]"
  shows "calls_all P kid s'"
proof -
  have "set (fl_calls s') \<subseteq> insert \<lparr>fc_kid = kid', fc_phase = ph'\<rparr> (set (fl_calls s))"
    unfolding assms(5) by (rule set_update_subset_insert)
  moreover have "kid' = kid" using calls_all_at [OF assms(1,2)] by simp
  ultimately show ?thesis using assms(1,3,4) by (auto simp: calls_all_def)
qed

text \<open>When the holder of the lock moves, all other calls are outside.\<close>

lemma calls_all_holder:
  assumes "flight_inv net c0 s" "calls_all Q kid s" "call_at s i kid' ph" "in_section ph"
    and "good_return ph'" "P ph'" "\<And>ph. \<not> in_section ph \<Longrightarrow> P ph"
    and "fl_calls s' = (fl_calls s)[i := \<lparr>fc_kid = kid', fc_phase = ph'\<rparr>]"
  shows "calls_all P kid s'"
proof -
  have m: "mutex_ok (fl_mutex s) (fl_calls s)" using assms(1) by (simp add: flight_inv_def)
  have i: "i < length (fl_calls s)" "in_section (fc_phase (fl_calls s ! i))"
    using assms(3,4) by (simp_all add: call_at_def)
  have "kid' = kid" using calls_all_at [OF assms(2,3)] by simp
  moreover have "fc_kid (fl_calls s ! j) = kid \<and> good_return (fc_phase (fl_calls s ! j)) \<and> P (fc_phase (fl_calls s ! j))"
    if j: "j < length (fl_calls s)" "j \<noteq> i" for j
  proof -
    have "\<not> in_section (fc_phase (fl_calls s ! j))" using one_in_section [OF m i j(1)] j(2) by blast
    with assms(2,7) nth_mem [OF j(1)] show ?thesis by (auto simp: calls_all_def)
  qed
  ultimately have "fc_kid (fl_calls s' ! j) = kid \<and> good_return (fc_phase (fl_calls s' ! j)) \<and> P (fc_phase (fl_calls s' ! j))"
    if "j < length (fl_calls s')" for j
    using that assms(5,6) i by (cases "j = i") (simp_all add: assms(8))
  then show ?thesis by (auto simp: calls_all_def in_set_conv_nth)
qed

lemma cached_later:
  "map_of (jc_keys c) kid \<noteq> None \<Longrightarrow> t0 + jwks_cache_ttl \<le> jc_expiry c \<Longrightarrow> t < t0 + jwks_cache_ttl \<Longrightarrow>
     cached_key t kid c \<noteq> None"
  by (auto simp: cached_key_def)

lemma flight_step_frame:
  assumes "flight_step net (i, t) s s'"
  shows "jc_url (fl_cache s') = jc_url (fl_cache s)" "fl_now s' = t" "fl_now s \<le> t"
  using assms by (auto elim!: flight_stepE simp: flight_ops install_keys_def)

lemma shared_step:
  assumes "flight_inv net c0 s" "shared url kid t0 s" "flight_step net (i, t) s s'"
    and "kid \<noteq> ''''" "url \<noteq> ''''" "serves net url kid t" "t < t0 + jwks_cache_ttl"
  shows "shared url kid t0 s'"
proof -
  note inv = assms(1) and frame = flight_step_frame [OF assms(3)]
  have url: "jc_url (fl_cache s) = url" "t0 \<le> fl_now s" using assms(2) by (simp_all add: shared_def)
  have base: "jc_url (fl_cache s') = url \<and> t0 \<le> fl_now s'" using frame url by simp
  note at = calls_all_at and mv = calls_all_move and hold = calls_all_holder [OF inv]
  note sec = in_section_def and good = good_return_def
  consider (before) "fl_fetches s = 0" "calls_all before_fetch kid s"
    | (between) "fl_fetches s = 1" "calls_all (holds_key kid) kid s" "fl_mutex s \<noteq> None"
    | (after) "fl_fetches s = 1" "calls_all after_install kid s" "map_of (jc_keys (fl_cache s)) kid \<noteq> None"
        "t0 + jwks_cache_ttl \<le> jc_expiry (fl_cache s)"
    using assms(2) unfolding shared_def by argo
  then show ?thesis
  proof cases
    case before
    have "fl_fetches s' = 0 \<and> calls_all before_fetch kid s' \<or>
        fl_fetches s' = 1 \<and> calls_all (holds_key kid) kid s' \<and> fl_mutex s' \<noteq> None"
      using assms(3)
    proof (cases rule: flight_step.cases)
      case (no_kid r)
      with at [OF before(2) no_kid(2)] assms(4) show ?thesis by simp
    next
      case (fast_hit k x)
      with before mv [OF before(2) fast_hit(2), of "Returned (Inr x)" s'] show ?thesis
        by (simp add: flight_ops good)
    next
      case (fast_miss k)
      with before mv [OF before(2) fast_miss(2), of AwaitLock s'] show ?thesis by (simp add: flight_ops good)
    next
      case (lock_refresh k)
      with before mv [OF before(2) lock_refresh(2), of Recheck s'] show ?thesis by (simp add: flight_ops good)
    next
      case (slow_hit k x)
      with before mv [OF before(2) slow_hit(2), of "Returned (Inr x)" s'] show ?thesis
        by (simp add: flight_ops good)
    next
      case (slow_miss k)
      with before mv [OF before(2) slow_miss(2), of Fetching s'] show ?thesis by (simp add: flight_ops good)
    next
      case (fetch_failed k err)
      with assms(6) url show ?thesis by (simp add: serves_def)
    next
      case (fetch_ok k out)
      have "map_of out kid \<noteq> None" using fetch_ok(4) assms(6) url by (simp add: serves_def)
      with fetch_ok before url assms(5) hold [OF before(2) fetch_ok(2), of "Installing out" "holds_key kid" s']
        mutex_holder [OF inv fetch_ok(2)]
      show ?thesis by (simp add: flight_ops good sec holds_key_def)
    next
      case (install k out c)
      with at [OF before(2) install(2)] show ?thesis by simp
    next
      case (read_key k)
      with at [OF before(2) read_key(2)] show ?thesis by simp
    qed
    with base show ?thesis unfolding shared_def by metis
  next
    case between
    have "fl_fetches s' = 1 \<and> calls_all (holds_key kid) kid s' \<and> fl_mutex s' \<noteq> None \<or>
        fl_fetches s' = 1 \<and> calls_all after_install kid s' \<and> map_of (jc_keys (fl_cache s')) kid \<noteq> None \<and>
          t0 + jwks_cache_ttl \<le> jc_expiry (fl_cache s')"
      using assms(3)
    proof (cases rule: flight_step.cases)
      case (no_kid r)
      with at [OF between(2) no_kid(2)] assms(4) show ?thesis by simp
    next
      case (fast_hit k x)
      with between mv [OF between(2) fast_hit(2), of "Returned (Inr x)" s'] show ?thesis
        by (simp add: flight_ops good holds_key_def sec)
    next
      case (fast_miss k)
      with between mv [OF between(2) fast_miss(2), of AwaitLock s'] show ?thesis
        by (simp add: flight_ops good holds_key_def sec)
    next
      case (lock_refresh k)
      with between show ?thesis by simp
    next
      case (install k out c)
      have "map_of out kid \<noteq> None" using at [OF between(2) install(2)] by (simp add: holds_key_def sec)
      moreover have "calls_all after_install kid s'"
      proof (rule hold [OF between(2) install(2), of Reading])
        show "after_install ph" if "\<not> in_section ph" for ph
          using that by (cases ph) (simp_all add: sec)
      qed (use install in \<open>simp_all add: flight_ops good sec\<close>)
      ultimately show ?thesis
        using install between(1) url(2) frame by (simp add: flight_ops install_keys_def)
    next
      case (slow_hit k x)
      with at [OF between(2) slow_hit(2)] show ?thesis by (simp add: holds_key_def sec)
    next
      case (slow_miss k)
      with at [OF between(2) slow_miss(2)] show ?thesis by (simp add: holds_key_def sec)
    next
      case (fetch_failed k err)
      with at [OF between(2) fetch_failed(2)] show ?thesis by (simp add: holds_key_def sec)
    next
      case (fetch_ok k out)
      with at [OF between(2) fetch_ok(2)] show ?thesis by (simp add: holds_key_def sec)
    next
      case (read_key k)
      with at [OF between(2) read_key(2)] show ?thesis by (simp add: holds_key_def sec)
    qed
    with base show ?thesis unfolding shared_def by metis
  next
    case after
    have hit: "cached_key t kid (fl_cache s) \<noteq> None" using cached_later [OF after(3,4) assms(7)] .
    have "fl_fetches s' = 1 \<and> calls_all after_install kid s' \<and> fl_cache s' = fl_cache s"
      using assms(3)
    proof (cases rule: flight_step.cases)
      case (no_kid r)
      with at [OF after(2) no_kid(2)] assms(4) show ?thesis by simp
    next
      case (fast_hit k x)
      with after mv [OF after(2) fast_hit(2), of "Returned (Inr x)" s'] show ?thesis
        by (simp add: flight_ops good)
    next
      case (fast_miss k)
      with hit at [OF after(2) fast_miss(2)] show ?thesis by simp
    next
      case (lock_refresh k)
      with after mv [OF after(2) lock_refresh(2), of Recheck s'] show ?thesis by (simp add: flight_ops good)
    next
      case (slow_hit k x)
      with after mv [OF after(2) slow_hit(2), of "Returned (Inr x)" s'] show ?thesis
        by (simp add: flight_ops good)
    next
      case (slow_miss k)
      with hit at [OF after(2) slow_miss(2)] show ?thesis by simp
    next
      case (fetch_failed k err)
      with at [OF after(2) fetch_failed(2)] show ?thesis by simp
    next
      case (fetch_ok k out)
      with at [OF after(2) fetch_ok(2)] show ?thesis by simp
    next
      case (install k out c)
      with at [OF after(2) install(2)] show ?thesis by simp
    next
      case (read_key k)
      have "k = kid" using at [OF after(2) read_key(2)] by simp
      with after(3) obtain x where "lookup_result k (fl_cache s) = Inr x" by (auto simp: lookup_result_def)
      with read_key after mv [OF after(2) read_key(2), of "Returned (Inr x)" s'] show ?thesis
        by (simp add: flight_ops good)
    qed
    with base after(3,4) show ?thesis unfolding shared_def by simp
  qed
qed

lemma shared_launch:
  assumes "\<forall>k\<in>set kids. k = kid"
  shows "shared (jc_url c0) kid t0 (launch c0 t0 kids)"
  using assms by (auto simp: shared_def launch_def calls_all_def good_return_def)

lemma shared_run:
  assumes "runs (flight_step net) (launch c0 t0 kids) ls s" "\<forall>k\<in>set kids. k = kid"
    and "kid \<noteq> ''''" "jc_url c0 \<noteq> ''''"
    and "\<forall>t. t0 \<le> t \<longrightarrow> t \<le> fl_now s \<longrightarrow> serves net (jc_url c0) kid t"
    and "fl_now s < t0 + jwks_cache_ttl"
  shows "shared (jc_url c0) kid t0 s"
proof -
  define T where "T = fl_now s"
  let ?I = "\<lambda>s. flight_inv net c0 s \<and> (fl_now s \<le> T \<longrightarrow> shared (jc_url c0) kid t0 s)"
  have "?I s"
  proof (rule runs_invariant [OF assms(1)])
    show "?I (launch c0 t0 kids)" using flight_inv_launch shared_launch [OF assms(2)] by blast
  next
    fix l and u u' :: flight
    assume u: "?I u" and step: "flight_step net l u u'"
    obtain i t where l: "l = (i, t)" by (cases l)
    note frame = flight_step_frame [OF step [unfolded l]]
    have "shared (jc_url c0) kid t0 u'" if "fl_now u' \<le> T"
    proof -
      have sh: "shared (jc_url c0) kid t0 u" using u that frame by simp
      then have "t0 \<le> t" using frame by (simp add: shared_def)
      with that frame assms(5,6) have "serves net (jc_url c0) kid t" "t < t0 + jwks_cache_ttl"
        by (simp_all add: T_def)
      with shared_step [OF _ sh step [unfolded l] assms(3,4)] u show ?thesis by blast
    qed
    with flight_inv_step [OF _ step [unfolded l]] u show "?I u'" by blast
  qed
  then show ?thesis by (simp add: T_def)
qed

lemma shared_returns:
  assumes "shared url kid t0 s" "c \<in> set (fl_calls s)" "fc_phase c = Returned r"
  shows "fl_fetches s \<le> 1 \<and> \<not> isl r"
  using assms unfolding shared_def calls_all_def good_return_def by fastforce

lemma shared_fetches: "shared url kid t0 s \<Longrightarrow> fl_fetches s \<le> 1"
  by (auto simp: shared_def)

lemma flight_step_kids:
  "flight_step net (i, t) s s' \<Longrightarrow> map fc_kid (fl_calls s') = map fc_kid (fl_calls s)"
  by (erule flight_stepE) (auto simp: flight_ops map_update list_update_same_conv)

lemma run_kids:
  assumes "runs (flight_step net) (launch c0 t0 kids) ls s"
  shows "map fc_kid (fl_calls s) = kids"
proof (rule runs_invariant [OF assms, of "\<lambda>s. map fc_kid (fl_calls s) = kids"])
  show "map fc_kid (fl_calls (launch c0 t0 kids)) = kids" by (simp add: launch_def comp_def)
next
  fix u l u'
  assume "map fc_kid (fl_calls u) = kids" "flight_step net l u u'"
  then show "map fc_kid (fl_calls u') = kids" using flight_step_kids by (cases l) simp
qed

end
