(* ===== verification/FlightClaims.thy ===== *)
theory FlightClaims
  imports Flight Demo
begin

text \<open>
  The properties of concurrent key lookups, with witnesses on the provider of the small
  deployment.
\<close>

text \<open>C12: however the sections of concurrent \<^verbatim>\<open>resolve\<close> calls interleave, the outcome is that of
  sequential calls in the order of the clock times at which they took effect: the same results
  and the same cache, each call at most once and with its own result.  Each of these calls took
  effect at a step of its own, and its key was in the cache and not expired at that step's
  clock; or it looked at a step where no such key was there, asked the provider at a later step
  of its own, and took effect with that answer.  At most one call is inside the section that
  the refresh mutex protects.\<close>

theorem jwks_calls_linearizable:
  assumes "runs (flight_step net) (launch c0 t0 kids) ls s"
  shows "serial net (set ls) c0 (fl_order s) (fl_cache s) \<and> distinct (map fst (fl_order s)) \<and>
     sorted (map (\<lambda>(i, te, kid, r). te) (fl_order s)) \<and>
     (\<forall>i<length kids. \<forall>r. fc_phase (fl_calls s ! i) = Returned r \<longrightarrow>
        (\<exists>te. (i, te, kids ! i, r) \<in> set (fl_order s))) \<and>
     (\<forall>i<length kids. \<forall>j<length kids. in_section (fc_phase (fl_calls s ! i)) \<longrightarrow>
        in_section (fc_phase (fl_calls s ! j)) \<longrightarrow> i = j)"
proof -
  from fl.run_inv [OF assms flight_inv_launch] have inv: "flight_inv net c0 s" .
  have kids: "kids = map fc_kid (fl_calls s)" using run_kids [OF assms] by simp
  have steps: "fl_steps s = ls" using flight_steps_run [OF assms] by (simp add: launch_def)
  have "\<exists>te. (i, te, kids ! i, r) \<in> set (fl_order s)" if "i < length kids" "fc_phase (fl_calls s ! i) = Returned r" for i r
    using call_at_ok [OF inv call_atI, of i] that kids by simp
  moreover have "i = j" if "i < length kids" "j < length kids" "in_section (fc_phase (fl_calls s ! i))"
    "in_section (fc_phase (fl_calls s ! j))" for i j
    using one_in_section [of "fl_mutex s" "fl_calls s" i j] inv that kids by (simp add: flight_inv_def)
  ultimately show ?thesis using inv by (simp add: flight_inv_def in_time_def sorted_append steps)
qed

theorem jwks_calls_linearizable_witness:
  "\<exists>ls s. runs (flight_step demo_fetch) (launch (new_jwks_cache ''u'') 5 [''k1'', ''k2'', '''']) ls s \<and>
     serial demo_fetch (set ls) (new_jwks_cache ''u'') (fl_order s) (fl_cache s) \<and> all_returned s"
proof -
  obtain ls s where r: "runs (flight_step demo_fetch) (launch (new_jwks_cache ''u'') 5 [''k1'', ''k2'', '''']) ls s"
    and "all_returned s"
    using fl.can_finish [OF flight_inv_launch] by blast
  with jwks_calls_linearizable [OF r] show ?thesis by blast
qed

text \<open>C13: concurrent lookups of a key that the provider serves, within one lifetime of the cache, send
  at most one request to the provider however many they are, and none of them fails.\<close>

theorem jwks_one_fetch:
  assumes "runs (flight_step net) (launch c0 t0 (replicate n kid)) ls s"
    and "kid \<noteq> ''''" "jc_url c0 \<noteq> ''''"
    and "\<forall>t. t0 \<le> t \<longrightarrow> t \<le> fl_now s \<longrightarrow> serves net (jc_url c0) kid t"
    and "fl_now s < t0 + jwks_cache_ttl"
  shows "fl_fetches s \<le> 1 \<and> (\<forall>c\<in>set (fl_calls s). \<forall>r. fc_phase c = Returned r \<longrightarrow> \<not> isl r)"
proof -
  have sh: "shared (jc_url c0) kid t0 s" by (rule shared_run [OF assms(1) _ assms(2-5)]) simp
  with shared_fetches [OF sh] shared_returns [OF sh] show ?thesis by blast
qed

text \<open>Two calls for one key: the first fetches, the second finds the key when it gets the lock.\<close>

fun demo_flight :: "nat \<Rightarrow> flight" where
  "demo_flight 0 = launch (new_jwks_cache ''u'') 5 (replicate 2 ''k1'')"
| "demo_flight (Suc n) =
     (let s = demo_flight n; c = install_keys 8 [(''k1'', demo_key)] (fl_cache s) in
      if n = 0 then move 0 5 AwaitLock s
      else if n = 1 then (move 0 6 Recheck s)\<lparr>fl_mutex := Some 0\<rparr>
      else if n = 2 then move 0 6 Fetching s
      else if n = 3 then sent_fetch (move 0 7 (Installing [(''k1'', demo_key)]) s)
      else if n = 4 then move 1 7 AwaitLock s
      else if n = 5 then (took_effect 0 ''k1'' (lookup_result ''k1'' c) (move 0 8 Reading s))\<lparr>fl_cache := c\<rparr>
      else if n = 6 then unlock_refresh (move 0 8 (Returned (lookup_result ''k1'' (fl_cache s))) s)
      else if n = 7 then (move 1 9 Recheck s)\<lparr>fl_mutex := Some 1\<rparr>
      else unlock_refresh (took_effect 1 ''k1'' (Inr demo_key) (move 1 9 (Returned (Inr demo_key)) s)))"

declare demo_flight.simps(2) [simp del]

lemma demo_flight_run:
  "runs (flight_step demo_fetch) (demo_flight 0)
     [(0, 5), (0, 6), (0, 6), (0, 7), (1, 7), (0, 8), (0, 8), (1, 9), (1, 9)] (demo_flight 9)"
proof -
  let ?st = "\<lambda>l n. flight_step demo_fetch l (demo_flight n) (demo_flight (Suc n))"
  have s0: "?st (0, 5) 0"
    by (simp only: demo_flight.simps(2) Let_def, simp, rule fast_miss [where kid = "''k1''"]) code_simp+
  have s1: "?st (0, 6) 1"
    by (simp only: demo_flight.simps(2) Let_def, simp, rule lock_refresh [where kid = "''k1''"]) code_simp+
  have s2: "?st (0, 6) 2"
    by (simp only: demo_flight.simps(2) Let_def, simp, rule slow_miss [where kid = "''k1''"]) code_simp+
  have s3: "?st (0, 7) 3"
    by (simp only: demo_flight.simps(2) Let_def, simp, rule fetch_ok [where kid = "''k1''"]) code_simp+
  have s4: "?st (1, 7) 4"
    by (simp only: demo_flight.simps(2) Let_def, simp, rule fast_miss [where kid = "''k1''"]) code_simp+
  have s5: "?st (0, 8) 5"
    by (simp only: demo_flight.simps(2) Let_def, simp, rule install [where kid = "''k1''"]) code_simp+
  have s6: "?st (0, 8) 6"
    by (simp only: demo_flight.simps(2) Let_def, simp, rule read_key [where kid = "''k1''"]) code_simp+
  have s7: "?st (1, 9) 7"
    by (simp only: demo_flight.simps(2) Let_def, simp, rule lock_refresh [where kid = "''k1''"]) code_simp+
  have s8: "?st (1, 9) 8"
    by (simp only: demo_flight.simps(2) Let_def, simp, rule slow_hit [where kid = "''k1''"]) code_simp+
  show ?thesis
    using s0 s1 s2 s3 s4 s5 s6 s7 s8 by (simp add: runs_Cons eval_nat_numeral) blast
qed

theorem jwks_one_fetch_witness:
  "fl_fetches (demo_flight 9) \<le> 1"
proof -
  have s: "demo_flight 0 = launch (new_jwks_cache ''u'') 5 (replicate 2 ''k1'')"
    by simp
  have u: "jc_url (new_jwks_cache ''u'') = ''u''" by (simp add: new_jwks_cache_def)
  have "serves demo_fetch ''u'' ''k1'' t" for t
    unfolding serves_def by (intro exI [of _ "[(''k1'', demo_key)]"]) code_simp
  moreover have "fl_now (demo_flight 9) < 5 + jwks_cache_ttl" by code_simp
  ultimately show ?thesis
    using jwks_one_fetch [OF demo_flight_run [unfolded s]] u by simp
qed

text \<open>C14: every schedule of \<^verbatim>\<open>resolve\<close> calls is finite, with at most six sections per call; no
  state is a deadlock; and from every reachable state all calls can be brought to return.\<close>

theorem jwks_calls_return:
  assumes "runs (flight_step net) (launch c0 t0 kids) ls s"
  shows "length ls \<le> 6 * length kids \<and>
     ((\<forall>l s'. \<not> flight_step net l s s') \<longrightarrow> all_returned s) \<and>
     (\<exists>ls' s'. runs (flight_step net) s ls' s' \<and> all_returned s')"
proof -
  note inv = flight_inv_launch [of net c0 t0 kids]
  from fl.run_length [OF assms inv] have "length ls \<le> 6 * length kids"
    by (simp add: flight_rank_launch)
  moreover have "(\<forall>l s'. \<not> flight_step net l s s') \<longrightarrow> all_returned s"
    using fl.maximal_finished [OF assms inv] by blast
  moreover have "\<exists>ls' s'. runs (flight_step net) s ls' s' \<and> all_returned s'"
    using fl.can_finish [OF fl.run_inv [OF assms inv]] .
  ultimately show ?thesis by blast
qed

theorem jwks_calls_return_witness:
  "\<exists>ls s. runs (flight_step demo_fetch) (launch (new_jwks_cache ''u'') 5 [''k1'', ''k1'']) ls s \<and> all_returned s"
  using jwks_calls_return [OF runs_refl, where net = demo_fetch and ?c0.0 = "new_jwks_cache ''u''" and ?t0.0 = 5 and kids = "[''k1'', ''k1'']"] by blast

end
