(* ===== verification/Service.thy ===== *)
theory Service
  imports Mux Secrets
begin

text \<open>
  What the secret service promises, without tokens, routes, JSON, storage keys or transactions:
  a table of cells with a value, a version and a time, and five operations on it.  On a store
  that does not fail the HTTP server refines it: each request either is one operation of the
  service, answered as the service answers, or leaves the table alone.
\<close>

section \<open>The abstract service\<close>

record cell =
  ce_value :: "bytes option"
  ce_version :: int64
  ce_time :: int64

text \<open>The table is indexed by \<open>path/env/name\<close>.\<close>

type_synonym service = "string \<Rightarrow> cell"

datatype svc_op =
    OpRead string
  | OpWrite string bytes
  | OpUpdate string bytes int64
  | OpRemove string
  | OpEnum string string

datatype svc_answer =
    Value bytes int64
  | Missing
  | Accepted int64
  | Updated int64
  | Stale int64 int64
  | Removed
  | Rows "meta_row list" bool

definition empty_cell :: cell where
  "empty_cell = \<lparr>ce_value = None, ce_version = 0, ce_time = 0\<rparr>"

definition svc_row :: "service \<Rightarrow> string \<times> string \<times> string \<Rightarrow> meta_row" where
  "svc_row S pen =
     (let c = S (rel_key pen) in
      \<lparr>row_path = fst pen, row_name = snd (snd pen), row_env = fst (snd pen), row_version = ce_version c,
       row_updated = (if 0 < sint (ce_time c) then rfc3339 (nat (sint (ce_time c))) else '''')\<rparr>)"

definition svc_ref :: "string \<Rightarrow> string \<Rightarrow> (string \<times> string \<times> string) option" where
  "svc_ref env k =
     (case parse_secret_rel_key k of
        None \<Rightarrow> None
      | Some (p, e, n) \<Rightarrow> if env \<noteq> '''' \<and> e \<noteq> env then None else Some (p, e, n))"

fun svc_step :: "int \<Rightarrow> svc_op \<Rightarrow> service \<Rightarrow> svc_answer \<times> service" where
  "svc_step now (OpRead k) S =
     (case ce_value (S k) of None \<Rightarrow> Missing | Some v \<Rightarrow> Value v (ce_version (S k)), S)"
| "svc_step now (OpWrite k v) S =
     (let ver = ce_version (S k) + 1 in
      (Accepted ver, S(k := \<lparr>ce_value = Some v, ce_version = ver, ce_time = word_of_int now\<rparr>)))"
| "svc_step now (OpUpdate k v x) S =
     (let ver = ce_version (S k) in
      if ce_value (S k) = None then (Missing, S)
      else if x \<noteq> ver then (Stale ver x, S)
      else (Updated (ver + 1), S(k := \<lparr>ce_value = Some v, ce_version = ver + 1, ce_time = word_of_int now\<rparr>)))"
| "svc_step now (OpRemove k) S =
     (if ce_value (S k) = None then (Missing, S) else (Removed, S(k := empty_cell)))"
| "svc_step now (OpEnum root env) S =
     (let ks = sorted_list_of_set {k. ce_value (S k) \<noteq> None \<and> prefix (root @ ''/'') k};
          refs = List.map_filter (svc_ref env) ks
      in (Rows (map (svc_row S) (take max_list_rows refs)) (max_list_rows < length refs), S))"

section \<open>Requests and answers\<close>

definition render :: "svc_answer \<Rightarrow> response" where
  "render a =
     (case a of
        Value v ver \<Rightarrow> write_json 200
          (JObj [(''secret'', JObj [(''value'', JStr v)]), (''version'', JInt (sint ver))])
      | Missing \<Rightarrow> write_json 404 (message ''not found'')
      | Accepted ver \<Rightarrow> write_json 201 (JObj [(''ok'', JBool True), (''version'', JInt (sint ver))])
      | Updated ver \<Rightarrow> write_json 200 (JObj [(''ok'', JBool True), (''version'', JInt (sint ver))])
      | Stale cur x \<Rightarrow> write_json 409 (JObj
          [(''currentVersion'', JInt (sint cur)), (''expectedVersion'', JInt (sint x)),
           (''message'', JStr (''version mismatch '' @ em_dash @ '' replayed or stale update''))])
      | Removed \<Rightarrow> write_json 200 (JObj [(''ok'', JBool True)])
      | Rows rows tr \<Rightarrow> write_json 200 (JObj
          ([(''count'', JInt (int (length rows))), (''secrets'', JArr (map json_row rows))] @
           (if tr then [(''truncated'', JBool True)] else []))))"

text \<open>The operation a request asks for, if its path, body and guards are in order.\<close>

definition env_filter_ok :: "string \<Rightarrow> bool" where
  "env_filter_ok f \<longleftrightarrow> f = '''' \<or> safe_path f \<and> \<not> sublist ''/'' f"

definition enum_root :: "request \<Rightarrow> string option" where
  "enum_root r =
     (if safe_path (path_value r ''org'') \<and> env_filter_ok (query_get r ''env'')
      then (case list_path (path_value r ''org'') (query_get r ''prefix'') of Inl x \<Rightarrow> None | Inr lp \<Rightarrow> Some lp)
      else None)"

definition put_acceptable :: "request \<Rightarrow> bool" where
  "put_acceptable r \<longleftrightarrow>
     (case put_fields r of (ok, q) \<Rightarrow>
        ok \<and> pr_name q \<noteq> '''' \<and> safe_path (pr_path q) \<and> safe_path (pr_name q) \<and> env_required (pr_env q))"

definition update_guard :: "request \<Rightarrow> int64 option" where
  "update_guard r =
     (if fst (patch_fields r) \<and> env_required (patch_env r) then
        (case expected_version (header_get (rq_headers r) ''If-Match'') (qr_version (snd (patch_fields r))) of
           Inl x \<Rightarrow> None
         | Inr x \<Rightarrow> Some x)
      else None)"

fun request_op :: "route \<Rightarrow> request \<Rightarrow> svc_op option" where
  "request_op RGet r =
     (case split_secret_path (path_value r ''rest'') of
        Inl x \<Rightarrow> None
      | Inr (p, n) \<Rightarrow> Some (OpRead (rel_key (p, read_env r, n))))"
| "request_op RPut r =
     (let q = snd (put_fields r) in
      if put_acceptable r then Some (OpWrite (rel_key (pr_path q, pr_env q, pr_name q)) (pr_value q)) else None)"
| "request_op RPatch r =
     (case split_secret_path (path_value r ''rest'') of
        Inl x \<Rightarrow> None
      | Inr (p, n) \<Rightarrow>
          map_option (OpUpdate (rel_key (p, patch_env r, n)) (qr_value (snd (patch_fields r)))) (update_guard r))"
| "request_op RDelete r =
     (case split_secret_path (path_value r ''rest'') of
        Inl x \<Rightarrow> None
      | Inr (p, n) \<Rightarrow> Some (OpRemove (rel_key (p, read_env r, n))))"
| "request_op RList r = map_option (\<lambda>lp. OpEnum lp (query_get r ''env'')) (enum_root r)"
| "request_op _ r = None"

section \<open>The table a database holds\<close>

definition u64_or_zero :: "bytes option \<Rightarrow> int64" where
  "u64_or_zero b = (case Option.bind b get_u64 of None \<Rightarrow> 0 | Some v \<Rightarrow> v)"

definition value_at :: "string \<Rightarrow> bytes" where
  "value_at k = ''kms/secrets/'' @ k"

definition version_at :: "string \<Rightarrow> bytes" where
  "version_at k = ''kms/versions/'' @ k"

definition time_at :: "string \<Rightarrow> bytes" where
  "time_at k = ''kms/mtimes/'' @ k"

lemma record_at:
  "secret_key p n e = value_at (rel_key (p, e, n))" "version_key p n e = version_at (rel_key (p, e, n))"
  "mtime_key p n e = time_at (rel_key (p, e, n))"
  by (simp_all add: secret_key_def version_key_def mtime_key_def value_at_def version_at_def time_at_def)

lemma at_distinct [simp]:
  "value_at k = value_at k' \<longleftrightarrow> k = k'" "version_at k = version_at k' \<longleftrightarrow> k = k'" "time_at k = time_at k' \<longleftrightarrow> k = k'"
  "value_at k \<noteq> version_at k'" "version_at k \<noteq> value_at k'" "value_at k \<noteq> time_at k'" "time_at k \<noteq> value_at k'"
  "version_at k \<noteq> time_at k'" "time_at k \<noteq> version_at k'"
  by (simp_all add: value_at_def version_at_def time_at_def)

definition table_of :: "(bytes \<Rightarrow> bytes option) \<Rightarrow> (bytes \<Rightarrow> bytes option) \<Rightarrow> service" where
  "table_of val m k =
     \<lparr>ce_value = Option.bind (m (value_at k)) val,
      ce_version = u64_or_zero (m (version_at k)),
      ce_time = u64_or_zero (m (time_at k))\<rparr>"

text \<open>Every blob can be read and every counter is eight bytes long.\<close>

definition counter_ok :: "bytes option \<Rightarrow> bool" where
  "counter_ok b \<longleftrightarrow> (case b of None \<Rightarrow> True | Some x \<Rightarrow> get_u64 x \<noteq> None)"

definition well_formed :: "(bytes \<Rightarrow> bytes option) \<Rightarrow> (bytes \<Rightarrow> bytes option) \<Rightarrow> bool" where
  "well_formed val m \<longleftrightarrow>
     (\<forall>k. (case m (value_at k) of None \<Rightarrow> True | Some b \<Rightarrow> val b \<noteq> None) \<and>
        counter_ok (m (version_at k)) \<and> counter_ok (m (time_at k)))"

lemma counter_ok_read:
  "counter_ok b \<Longrightarrow> (case b of None \<Rightarrow> Some 0 | Some x \<Rightarrow> get_u64 x) = Some (u64_or_zero b)"
  by (auto simp: counter_ok_def u64_or_zero_def split: option.splits)

lemma counter_put [simp]: "counter_ok (Some (put_u64 x))" "u64_or_zero (Some (put_u64 x)) = x"
  "counter_ok None" "u64_or_zero None = 0"
  by (simp_all add: counter_ok_def u64_or_zero_def u64.dec_enc)

lemma table_of_record:
  assumes "well_formed val m"
  shows "ce_value (table_of val m (rel_key (p, e, n))) = stored_value val m p n e"
    and "stored_version m p n e = Some (ce_version (table_of val m (rel_key (p, e, n))))"
    and "stored_mtime m p n e = Some (ce_time (table_of val m (rel_key (p, e, n))))"
  using assms
  by (simp_all add: table_of_def stored_value_def stored_version_def stored_mtime_def record_at
      well_formed_def counter_ok_read)

lemma table_present:
  "well_formed val m \<Longrightarrow> ce_value (table_of val m k) = None \<longleftrightarrow> m (value_at k) = None"
  by (cases "m (value_at k)") (auto simp: table_of_def well_formed_def split: option.splits dest: spec [of _ k])

text \<open>Replacing the three entries of one record.\<close>

lemma table_update:
  assumes "\<And>k. k \<notin> record_keys p n e \<Longrightarrow> m' k = m k" "k0 = rel_key (p, e, n)"
    and "Option.bind (m' (value_at k0)) val = v" "m' (value_at k0) = None \<longleftrightarrow> v = None"
    and "counter_ok (m' (version_at k0))" "counter_ok (m' (time_at k0))"
  shows "table_of val m' = (table_of val m)(k0 :=
      \<lparr>ce_value = v, ce_version = u64_or_zero (m' (version_at k0)), ce_time = u64_or_zero (m' (time_at k0))\<rparr>)"
    and "well_formed val m \<Longrightarrow> well_formed val m'"
proof -
  have other: "m' (value_at k) = m (value_at k)" "m' (version_at k) = m (version_at k)" "m' (time_at k) = m (time_at k)"
    if "k \<noteq> k0" for k
    using assms(1,2) that by (simp_all add: record_keys_def record_at)
  show "table_of val m' = (table_of val m)(k0 :=
      \<lparr>ce_value = v, ce_version = u64_or_zero (m' (version_at k0)), ce_time = u64_or_zero (m' (time_at k0))\<rparr>)"
    using other assms(3) by (intro ext) (simp add: table_of_def)
  show "well_formed val m'" if wf: "well_formed val m"
    unfolding well_formed_def
  proof
    fix k
    show "(case m' (value_at k) of None \<Rightarrow> True | Some b \<Rightarrow> val b \<noteq> None) \<and>
        counter_ok (m' (version_at k)) \<and> counter_ok (m' (time_at k))"
    proof (cases "k = k0")
      case True
      with assms(3-6) show ?thesis by (auto split: option.splits)
    next
      case False
      with other wf show ?thesis by (simp add: well_formed_def)
    qed
  qed
qed

section \<open>Bodies refine operations\<close>

abbreviation table :: "('d \<Rightarrow> bytes \<Rightarrow> bytes option) \<Rightarrow> (bytes \<Rightarrow> bytes option) \<Rightarrow> 'd \<Rightarrow> service" where
  "table view val d \<equiv> table_of val (view d)"

definition written ::
    "(bytes \<Rightarrow> bytes option) \<Rightarrow> (bytes \<Rightarrow> bytes option) \<Rightarrow> (bytes \<Rightarrow> bytes option) \<Rightarrow>
     string \<Rightarrow> string \<Rightarrow> string \<Rightarrow> bytes \<Rightarrow> int64 \<Rightarrow> int64 \<Rightarrow> bool" where
  "written val m m' p n e v x t \<longleftrightarrow>
     only_record m m' p n e \<and> Option.bind (m' (secret_key p n e)) val = Some v \<and>
     m' (version_key p n e) = Some (put_u64 x) \<and> m' (mtime_key p n e) = Some (put_u64 t)"

lemma written_table:
  assumes "written val m m' p n e v x t"
  shows "table_of val m' = (table_of val m)(rel_key (p, e, n) := \<lparr>ce_value = Some v, ce_version = x, ce_time = t\<rparr>)"
    and "well_formed val m \<Longrightarrow> well_formed val m'"
  using assms table_update [of p n e m' m "rel_key (p, e, n)" val "Some v"]
  by (auto simp: written_def only_record_def record_at bind_eq_Some_conv)

definition erased :: "(bytes \<Rightarrow> bytes option) \<Rightarrow> (bytes \<Rightarrow> bytes option) \<Rightarrow> string \<Rightarrow> string \<Rightarrow> string \<Rightarrow> bool" where
  "erased m m' p n e \<longleftrightarrow> only_record m m' p n e \<and> (\<forall>k\<in>record_keys p n e. m' k = None)"

lemma erased_table:
  assumes "erased m m' p n e"
  shows "table_of val m' = (table_of val m)(rel_key (p, e, n) := empty_cell)"
    and "well_formed val m \<Longrightarrow> well_formed val m'"
  using assms table_update [of p n e m' m "rel_key (p, e, n)" val None]
  by (auto simp: erased_def only_record_def record_at record_keys_def empty_cell_def)

context reliable_store
begin

lemma put_record_written:
  assumes "st_put ops d \<lparr>sec_name = n, sec_path = p, sec_env = e, sec_ciphertext = v\<rparr> = (None, d1)"
    and "bump_version ops d1 p n e y = (x, None, d2)" "write_mtime ops t d2 p n e = (None, d3)"
  shows "written val (view d) (view d3) p n e v x t"
  using put_effect [OF assms(1), of y x None d2 t None d3] assms(2,3)
    bump_version_ok(2) [OF assms(2)] write_mtime_ok [OF assms(3)]
  by (simp add: written_def stored_value_def)

lemma patch_record_written:
  assumes "bump_version ops d p n e y = (x, None, d1)"
    and "st_put ops d1 \<lparr>sec_name = n, sec_path = p, sec_env = e, sec_ciphertext = v\<rparr> = (None, d2)"
    and "write_mtime ops t d2 p n e = (None, d3)"
  shows "written val (view d) (view d3) p n e v x t"
proof -
  obtain b where b: "val b = Some v" "view d2 = (view d1)(secret_key p n e \<mapsto> b)"
    using st_put_ok [OF assms(2)] by auto
  with bump_version_ok(2) [OF assms(1)] write_mtime_ok [OF assms(3)] show ?thesis
    by (auto simp: written_def only_record_def record_keys_def)
qed

lemma get_refines:
  assumes "well_formed val (view (w_db w))" "split_secret_path (path_value r ''rest'') = Inr (p, n)"
    and [simp]: "pf_ops pf = ops" and "get_body pf now c r w = (resp, w')"
  shows "w_db w' = w_db w \<and>
     resp = render (fst (svc_step now (OpRead (rel_key (p, read_env r, n))) (table view val (w_db w))))"
proof -
  let ?m = "view (w_db w)" and ?k = "rel_key (p, read_env r, n)"
  note rec = table_of_record [OF assms(1), where p = p and n = n and e = "read_env r"]
  have "?m (secret_key p n (read_env r)) = None \<or> stored_value val ?m p n (read_env r) \<noteq> None"
    using table_present [OF assms(1), of ?k] rec(1) by (auto simp: record_at)
  from get_body_answer [OF assms(2) this rec(2) assms(3), of now c] assms(4)
  have "resp = read_answer (stored_value val ?m p n (read_env r)) (ce_version (table_of val ?m ?k))"
    by simp
  moreover have "w_db w' = w_db w" using get_body_no_effect [of pf now c r w] assms(4) by simp
  ultimately show ?thesis
    using rec(1) by (simp add: render_def read_answer_def split: option.split)
qed

lemma put_refines:
  assumes "well_formed val (view (w_db w))" "put_fields r = (True, q)" "put_acceptable r"
    and [simp]: "pf_ops pf = ops" and "put_body pf now c r w = (resp, w')"
    and "svc_step now (OpWrite (rel_key (pr_path q, pr_env q, pr_name q)) (pr_value q)) (table view val (w_db w)) = (a, S)"
  shows "well_formed val (view (w_db w')) \<and> table view val (w_db w') = S \<and> resp = render a"
proof -
  let ?p = "pr_path q" and ?n = "pr_name q" and ?e = "pr_env q" and ?d = "w_db w"
  let ?s = "\<lparr>sec_name = ?n, sec_path = ?p, sec_env = ?e, sec_ciphertext = pr_value q\<rparr>"
  let ?ver = "ce_version (table view val ?d (rel_key (?p, ?e, ?n)))"
  note rec = table_of_record [OF assms(1), where p = ?p and n = ?n and e = ?e]
  obtain d1 where d1: "st_put ops ?d ?s = (None, d1)"
    using st_put_total [of ?d ?s] by (cases "st_put ops ?d ?s") auto
  have "stored_version (view d1) ?p ?n ?e = Some ?ver" using rec(2) put_other_records [OF d1] by simp
  from bump_version_total [OF this, of "- 1"] obtain d2 where
    d2: "bump_version ops d1 ?p ?n ?e (- 1) = (?ver + 1, None, d2)" by auto
  obtain d3 where d3: "write_mtime ops (word_of_int now) d2 ?p ?n ?e = (None, d3)"
    using write_mtime_total by blast
  have body: "resp = write_json 201 (JObj [(''ok'', JBool True), (''version'', JInt (sint (?ver + 1)))])" "w_db w' = d3"
    using assms(2,3,5) d1 d2 d3 by (auto simp: put_body_def put_acceptable_def)
  note t = written_table [OF put_record_written [OF d1 d2 d3]]
  from assms(6) t assms(1) show ?thesis
    by (auto simp: Let_def body render_def)
qed

lemma update_refines:
  assumes "well_formed val (view (w_db w))" "0 \<le> sint x"
    and [simp]: "pf_ops pf = ops" and "patch_update pf now c p n e v x r w = (resp, w')"
    and "svc_step now (OpUpdate (rel_key (p, e, n)) v x) (table view val (w_db w)) = (a, S)"
  shows "well_formed val (view (w_db w')) \<and> table view val (w_db w') = S \<and> resp = render a"
proof -
  let ?d = "w_db w" and ?s = "\<lparr>sec_name = n, sec_path = p, sec_env = e, sec_ciphertext = v\<rparr>"
  let ?cell = "table view val ?d (rel_key (p, e, n))"
  note rec = table_of_record [OF assms(1), where p = p and n = n and e = e]
  have absent: "ce_value ?cell = None \<longleftrightarrow> view ?d (secret_key p n e) = None"
    using table_present [OF assms(1)] by (simp add: record_at)
  show ?thesis
  proof (cases "ce_value ?cell")
    case None
    with absent obtain y where "st_get ops ?d p n e = Inl y" using st_get_absent by blast
    with assms(1,4,5) None show ?thesis by (auto simp: patch_update_def render_def Let_def)
  next
    case (Some old)
    with rec(1) have "stored_value val (view ?d) p n e = Some old" by simp
    from st_get_iff [OF this] obtain s where s: "st_get ops ?d p n e = Inr s" by blast
    show ?thesis
    proof (cases "x = ce_version ?cell")
      case False
      with bump_version_stale [OF rec(2) assms(2)] s assms(1,4,5) Some read_version_total [OF rec(2)]
      show ?thesis by (auto simp: patch_update_def render_def Let_def)
    next
      case True
      from bump_version_total [OF rec(2), of x] True obtain d1 where
        d1: "bump_version ops ?d p n e x = (x + 1, None, d1)" by auto
      obtain d2 where d2: "st_put ops d1 ?s = (None, d2)"
        using st_put_total [of d1 ?s] by (cases "st_put ops d1 ?s") auto
      obtain d3 where d3: "write_mtime ops (word_of_int now) d2 p n e = (None, d3)"
        using write_mtime_total by blast
      have body: "resp = write_json 200 (JObj [(''ok'', JBool True), (''version'', JInt (sint (x + 1)))])" "w_db w' = d3"
        using assms(4) s d1 d2 d3 by (auto simp: patch_update_def)
      note t = written_table [OF patch_record_written [OF d1 d2 d3]]
      from assms(5) t assms(1) Some True show ?thesis
        by (auto simp: Let_def body render_def)
    qed
  qed
qed

lemma del_refines:
  assumes "well_formed val (view (w_db w))" "split_secret_path (path_value r ''rest'') = Inr (p, n)"
    and [simp]: "pf_ops pf = ops" and "del_body pf now c r w = (resp, w')"
    and "svc_step now (OpRemove (rel_key (p, read_env r, n))) (table view val (w_db w)) = (a, S)"
  shows "well_formed val (view (w_db w')) \<and> table view val (w_db w') = S \<and> resp = render a"
proof -
  let ?e = "read_env r" and ?d = "w_db w"
  have absent: "ce_value (table view val ?d (rel_key (p, ?e, n))) = None \<longleftrightarrow> view ?d (secret_key p n ?e) = None"
    using table_present [OF assms(1)] by (simp add: record_at)
  obtain x d1 where d1: "st_delete ops ?d p n ?e = (x, d1)" by (cases "st_delete ops ?d p n ?e")
  show ?thesis
  proof (cases x)
    case (Some y)
    have same: "view d1 = view ?d" using st_delete_err [OF d1 [unfolded Some]] .
    have "view ?d (secret_key p n ?e) = None"
      using st_delete_total [of ?d p n ?e] d1 Some by force
    with absent have "(a, S) = (Missing, table view val ?d)" using assms(5) by simp
    moreover have "resp = write_json 404 (message ''not found'')" "w_db w' = d1"
      using assms(2,4) d1 Some by (auto simp: del_body_def read_env_def Let_def)
    ultimately show ?thesis using assms(1) same by (simp add: render_def)
  next
    case None
    obtain d2 where d2: "delete_version ops d1 p n ?e = (None, d2)"
      using delete_key_total by (auto simp: delete_version_def)
    obtain d3 where d3: "delete_mtime ops d2 p n ?e = (None, d3)"
      using delete_key_total by (auto simp: delete_mtime_def)
    have body: "resp = write_json 200 (JObj [(''ok'', JBool True)])" "w_db w' = d3"
      using assms(2,4) d1 d2 d3 None by (auto simp: del_body_def read_env_def Let_def)
    have v1: "view ?d (secret_key p n ?e) \<noteq> None" "view d1 = (view ?d)(secret_key p n ?e := None)"
      using st_delete_ok [OF d1 [unfolded None]] by auto
    have "erased (view ?d) (view d3) p n ?e"
      by (auto simp: erased_def only_record_def record_keys_def v1(2) delete_version_ok [OF d2] delete_mtime_ok [OF d3])
    note t = erased_table [OF this]
    from v1(1) absent have "ce_value (table view val ?d (rel_key (p, ?e, n))) \<noteq> None" by simp
    with assms(5) have "a = Removed" "S = (table view val ?d)(rel_key (p, ?e, n) := empty_cell)" by auto
    with t assms(1) show ?thesis by (simp add: body render_def)
  qed
qed

text \<open>The scan sees the keys of the table in their order.\<close>

lemma scan_keys:
  assumes "well_formed val (view d)"
  shows "kv_keys ops d (list_prefix l) =
     map value_at (sorted_list_of_set {k. ce_value (table view val d k) \<noteq> None \<and> prefix (l @ ''/'') k})"
proof -
  let ?K = "{k. ce_value (table view val d k) \<noteq> None \<and> prefix (l @ ''/'') k}"
  have in_K: "value_at k \<in> set (kv_keys ops d (list_prefix l)) \<longleftrightarrow> k \<in> ?K" for k
    using table_present [OF assms, of k]
    by (auto simp: keys_set list_prefix_def value_at_def)
  have set_eq: "set (kv_keys ops d (list_prefix l)) = value_at ` ?K"
  proof (intro set_eqI iffI)
    fix b
    assume b: "b \<in> set (kv_keys ops d (list_prefix l))"
    then obtain k where "b = value_at k"
      using list_prefix_keys [OF b] by (auto simp: prefix_def value_at_def)
    with b in_K show "b \<in> value_at ` ?K" by blast
  qed (use in_K in blast)
  have "inj value_at" by (auto simp: inj_def)
  then have fin: "finite ?K"
    using set_eq by (metis (no_types, lifting) List.finite_set finite_imageD inj_on_subset subset_UNIV)
  have mono: "value_at k \<le> value_at k' \<longleftrightarrow> k \<le> k'" for k k' :: string
    by (simp add: value_at_def)
  have "sorted (map value_at (sorted_list_of_set ?K))"
    unfolding sorted_map by (rule sorted_wrt_mono_rel [OF _ sorted_sorted_list_of_set]) (simp add: mono)
  moreover have "distinct (map value_at (sorted_list_of_set ?K))"
    by (simp add: distinct_map inj_on_def)
  moreover have "set (map value_at (sorted_list_of_set ?K)) = value_at ` ?K"
    using set_sorted_list_of_set [OF fin] by (simp only: set_map)
  ultimately show ?thesis
    by (intro sorted_distinct_set_unique) (simp_all only: keys_sorted keys_distinct set_eq)
qed

lemma read_mtime_total: "stored_mtime (view d) p n e = Some t \<Longrightarrow> read_mtime ops d p n e = (t, None)"
  by (auto simp: read_mtime_def load_u64_eq stored_mtime_def split: option.splits)

lemma enum_refines:
  assumes "well_formed val (view d)" "list_secret_metadata ops d l f = (rows, tr)"
  shows "svc_step now (OpEnum l f) (table view val d) = (Rows rows tr, table view val d)"
proof -
  let ?S = "table view val d"
  let ?ks = "sorted_list_of_set {k. ce_value (?S k) \<noteq> None \<and> prefix (l @ ''/'') k}"
  have "trim_prefix (value_at k) ''kms/secrets/'' = k" for k
    unfolding value_at_def by (rule trim_prefix_append)
  then have ref: "ref_of f (value_at k) = svc_ref f k" for k
    by (simp add: ref_of_def svc_ref_def)
  have "List.map_filter (ref_of f) (map value_at ks) = List.map_filter (svc_ref f) ks" for ks
    by (induction ks) (simp_all add: map_filter_simps ref split: option.split)
  then have refs: "List.map_filter (ref_of f) (kv_keys ops d (list_prefix l)) = List.map_filter (svc_ref f) ?ks"
    by (simp add: scan_keys [OF assms(1)])
  have row: "meta_row_of ops d x = svc_row ?S x" for x
  proof -
    obtain p e n where x: "x = (p, e, n)" by (cases x)
    note rec = table_of_record [OF assms(1), where p = p and n = n and e = e]
    show ?thesis
      using read_version_total [OF rec(2)] read_mtime_total [OF rec(3)]
      by (simp add: x meta_row_of_def svc_row_def Let_def)
  qed
  show ?thesis
    using assms(2) unfolding list_secret_metadata_eq refs by (simp add: Let_def row cong: map_cong)
qed

end

section \<open>The body of a secret handler\<close>

fun secret_body :: "'d platform \<Rightarrow> int \<Rightarrow> route \<Rightarrow> (jwt_claims \<Rightarrow> 'd handler) option" where
  "secret_body pf now RGet = Some (get_body pf now)"
| "secret_body pf now RPut = Some (put_body pf now)"
| "secret_body pf now RPatch = Some (patch_body pf now)"
| "secret_body pf now RDelete = Some (del_body pf now)"
| "secret_body pf now RList = Some (list_body pf now)"
| "secret_body pf now _ = None"

fun_cases secret_bodyE: "secret_body pf now rt = Some body"

lemma secret_op_body: "secret_op pf now rt = map_option (org_gate pf now) (secret_body pf now rt)"
  by (cases rt) (simp_all add: get_secret_def put_secret_def patch_secret_def del_secret_def list_secrets_def)

lemma list_body_pass:
  assumes "enum_root r = Some lp" "list_secret_metadata (pf_ops pf) (w_db w) lp (query_get r ''env'') = (rows, tr)"
  shows "fst (list_body pf now c r w) = render (Rows rows tr)"
  using assms
  by (auto simp: enum_root_def env_filter_ok_def list_body_def render_def Let_def split: if_splits sum.splits)

context reliable_store
begin

lemma body_refines:
  assumes "well_formed val (view (w_db w))" "request_op rt r = Some op" "secret_body pf now rt = Some body"
    and [simp]: "pf_ops pf = ops" and "body c r w = (resp, w')"
    and "svc_step now op (table view val (w_db w)) = (a, S)"
  shows "well_formed val (view (w_db w')) \<and> table view val (w_db w') = S \<and> resp = render a"
proof (cases rt)
  case RGet
  with assms(2,3) obtain p n where "split_secret_path (path_value r ''rest'') = Inr (p, n)"
    "op = OpRead (rel_key (p, read_env r, n))" "body = get_body pf now"
    by (auto split: sum.splits)
  with get_refines [OF assms(1) this(1) assms(4), of now c resp w'] assms(1,5,6) show ?thesis
    by auto
next
  case RPut
  obtain ok q where q: "put_fields r = (ok, q)" by (cases "put_fields r")
  with RPut assms(2,3) have b: "put_acceptable r" "op = OpWrite (rel_key (pr_path q, pr_env q, pr_name q)) (pr_value q)"
    "body = put_body pf now"
    by (auto simp: Let_def split: if_splits)
  with q have "ok" by (auto simp: put_acceptable_def)
  with put_refines [OF assms(1), of r q pf now c resp w' a S] q b assms(4-6) show ?thesis by simp
next
  case RPatch
  with assms(2,3) obtain p n x where sp: "split_secret_path (path_value r ''rest'') = Inr (p, n)"
    and x: "update_guard r = Some x"
    and b: "op = OpUpdate (rel_key (p, patch_env r, n)) (qr_value (snd (patch_fields r))) x" "body = patch_body pf now"
    by (auto split: sum.splits)
  from x have g: "fst (patch_fields r)" "env_required (patch_env r)"
    "expected_version (header_get (rq_headers r) ''If-Match'') (qr_version (snd (patch_fields r))) = Inr x"
    by (auto simp: update_guard_def split: if_splits sum.splits)
  have "patch_update pf now c p n (patch_env r) (qr_value (snd (patch_fields r))) x r w = (resp, w')"
    using assms(5) by (simp only: b patch_body_pass [OF sp g])
  from update_refines [OF assms(1) expected_version_nonneg [OF g(3)] assms(4) this] assms(6) b
  show ?thesis by simp
next
  case RDelete
  with assms(2,3) obtain p n where "split_secret_path (path_value r ''rest'') = Inr (p, n)"
    "op = OpRemove (rel_key (p, read_env r, n))" "body = del_body pf now"
    by (auto split: sum.splits)
  with del_refines [OF assms(1) this(1) assms(4), of now c resp w' a S] assms(5,6) show ?thesis
    by simp
next
  case RList
  with assms(2,3) obtain lp where lp: "enum_root r = Some lp" "op = OpEnum lp (query_get r ''env'')" "body = list_body pf now"
    by auto
  obtain rows tr where rows: "list_secret_metadata ops (w_db w) lp (query_get r ''env'') = (rows, tr)"
    by (cases "list_secret_metadata ops (w_db w) lp (query_get r ''env'')")
  have "a = Rows rows tr" "S = table view val (w_db w)"
    using enum_refines [OF assms(1) rows, of now] assms(6) lp(2) by auto
  moreover have "resp = render (Rows rows tr)" "w_db w' = w_db w"
    using list_body_pass [OF lp(1), of pf w rows tr now c] rows list_body_no_effect [of pf now c r w] assms(5) lp(3)
    by auto
  ultimately show ?thesis using assms(1) by simp
qed (use assms(2) in auto)

lemma body_refuses:
  assumes "request_op rt r = None" "secret_body pf now rt = Some body"
    and [simp]: "pf_ops pf = ops" and "body c r w = (resp, w')"
  shows "view (w_db w') = view (w_db w) \<and> rs_status resp \<in> {400, 403, 428}"
proof (cases rt)
  case RGet
  with assms(1,2,4) show ?thesis by (auto simp: get_body_def split: sum.splits)
next
  case RPut
  with assms(1,2,4) show ?thesis
    by (auto simp: put_body_def put_acceptable_def Let_def split: if_splits prod.splits)
next
  case RPatch
  with assms(2) have "body = patch_body pf now" by simp
  with assms(4) have "patch_body pf now c r w = (resp, w')" by simp
  then show ?thesis
  proof (cases rule: patch_body_cases)
    case update
    with assms(1) RPatch show ?thesis by (simp add: update_guard_def)
  qed auto
next
  case RDelete
  with assms(1,2,4) show ?thesis by (auto simp: del_body_def split: sum.splits)
next
  case RList
  with assms(1,2,4) show ?thesis
    by (auto simp: enum_root_def env_filter_ok_def list_body_def list_path_def Let_def split: if_splits sum.splits)
qed (use assms(2) in auto)

end

section \<open>The server refines the service\<close>

text \<open>The route and the request a handler is given, after the middleware.\<close>

definition routed :: "('d, 'm, 'rot) server \<Rightarrow> string list \<Rightarrow> request \<Rightarrow> (route \<times> request) option" where
  "routed sv segs r =
     (if rq_method r \<in> {''TRACE'', ''CONNECT'', ''OPTIONS''} then None
      else map_option (\<lambda>(pm, pat, rt). (rt, r\<lparr>rq_headers := fold header_del identity_headers (rq_headers r),
             rq_vals := (case match_segs pat segs of None \<Rightarrow> [] | Some b \<Rightarrow> b)\<rparr>))
        (pick_route (sv_keys_on sv) (rq_method r) segs))"

text \<open>The operation of the service a request carries out in a state of the server, if any.\<close>

definition server_op :: "('d, 'm, 'rot) server \<Rightarrow> int \<Rightarrow> string list \<Rightarrow> request \<Rightarrow> 'd world \<Rightarrow> svc_op option" where
  "server_op sv now segs r w =
     (case routed sv segs r of
        None \<Rightarrow> None
      | Some (rt, r1) \<Rightarrow>
          (case verified_claims (sv_pf sv) now r1 w of
             None \<Rightarrow> None
           | Some c \<Rightarrow> if can_act_on_org c (path_value r1 ''org'') then request_op rt r1 else None))"

lemma server_routed:
  "server_handle sv now segs r s =
     (case routed sv segs r of
        None \<Rightarrow> (fst (server_handle sv now segs r s), s)
      | Some (rt, r1) \<Rightarrow> run_route sv now rt r1 s)"
  by (auto simp: server_handle_def method_allowlist_def strip_identity_headers_def routed_def mux_serve_def Let_def
      split: option.split)

lemma admin_only_db:
  assumes "\<And>r s. w_db (fst (snd (h r s))) = w_db (fst s)"
  shows "w_db (fst (snd (admin_only pf now h r s))) = w_db (fst s)"
proof -
  obtain x w1 where a: "authorize pf now r (fst s) = (x, w1)" by (cases "authorize pf now r (fst s)")
  then show ?thesis
    using authorize_frame [OF a] assms by (cases x) (auto simp: admin_only_def)
qed

text \<open>Routes other than those of secrets leave the database alone.\<close>

lemma other_route_db:
  assumes "secret_body (sv_pf sv) now rt = None"
  shows "w_db (fst (snd (run_route sv now rt r s))) = w_db (fst s)"
proof -
  have "env_secret pf now E r w = (x, w') \<Longrightarrow> w_db w' = w_db w" for pf :: "'a platform" and E w x w'
    using env_secret_no_effect [of pf now E r w] by simp
  with assms show ?thesis
    by (cases rt) (auto simp: on_world_def on_keys_def audit_stats_body_def intro!: admin_only_db split: prod.splits)
qed

text \<open>An answer to a request that carried out no operation says so, if its route is one of secrets.\<close>

definition answered :: "('d, 'm, 'rot) server \<Rightarrow> string list \<Rightarrow> request \<Rightarrow> svc_answer option \<Rightarrow> response \<Rightarrow> bool" where
  "answered sv segs r a resp \<longleftrightarrow>
     (case a of
        Some x \<Rightarrow> resp = render x
      | None \<Rightarrow> (case routed sv segs r of
            None \<Rightarrow> True
          | Some (rt, r1) \<Rightarrow> rt \<in> {RGet, RPut, RPatch, RDelete, RList} \<longrightarrow> rs_status resp \<in> {400, 401, 403, 428}))"

fun svc_opt :: "int \<Rightarrow> svc_op option \<Rightarrow> service \<Rightarrow> svc_answer option \<times> service" where
  "svc_opt now None S = (None, S)"
| "svc_opt now (Some op) S = map_prod Some id (svc_step now op S)"

context reliable_store
begin

lemma server_step_refines:
  fixes sv :: "('a, 'm, 'rot) server"
  assumes "well_formed val (view (w_db (fst s)))" and ops: "pf_ops (sv_pf sv) = ops"
    and h: "server_handle sv now segs r s = (resp, s')"
    and step: "svc_opt now (server_op sv now segs r (fst s)) (table view val (w_db (fst s))) = (a, S)"
  shows "well_formed val (view (w_db (fst s'))) \<and> table view val (w_db (fst s')) = S \<and> answered sv segs r a resp"
proof (cases "routed sv segs r")
  case None
  with h have "s' = s" using server_routed [of sv now segs r s] by simp
  moreover from None step have "a = None" "S = table view val (w_db (fst s))" by (auto simp: server_op_def)
  ultimately show ?thesis using assms(1) None by (simp add: answered_def)
next
  case (Some p)
  obtain rt r1 where p: "p = (rt, r1)" by (cases p)
  from h Some p have run: "run_route sv now rt r1 s = (resp, s')"
    using server_routed [of sv now segs r s] by simp
  show ?thesis
  proof (cases "secret_body (sv_pf sv) now rt")
    case None
    then have nr: "rt \<notin> {RGet, RPut, RPatch, RDelete, RList}" by auto
    from None have "request_op rt r1 = None" by (cases rt) simp_all
    with step Some p have "a = None" "S = table view val (w_db (fst s))"
      by (auto simp: server_op_def split: option.splits if_splits)
    moreover have "w_db (fst s') = w_db (fst s)" using other_route_db [OF None, of r1 s] run by simp
    ultimately show ?thesis using assms(1) Some p nr by (simp add: answered_def)
  next
    case body: (Some body)
    from body have "run_route sv now rt r1 s = on_world (org_gate (sv_pf sv) now body) r1 s"
      using run_secret_op [of sv now rt "org_gate (sv_pf sv) now body" r1 s]
      by (simp add: secret_op_body)
    with run obtain w' where w': "org_gate (sv_pf sv) now body r1 (fst s) = (resp, w')" "s' = (w', snd s)"
      using on_world_effects by metis
    show ?thesis
    proof (cases "\<exists>c. verified_claims (sv_pf sv) now r1 (fst s) = Some c \<and> can_act_on_org c (path_value r1 ''org'')")
      case False
      with step Some p have "a = None" "S = table view val (w_db (fst s))"
        by (auto simp: server_op_def split: option.splits if_splits)
      moreover have "w_db w' = w_db (fst s)" "resp = unauthorized \<or> resp = wrong_org"
        using tenant_handler.effect_needs_claims [OF org_gate_tenant w'(1)] False by blast+
      then have "w_db w' = w_db (fst s)" "rs_status resp \<in> {401, 403}"
        by (auto simp: unauthorized_def wrong_org_def)
      ultimately show ?thesis using assms(1) w'(2) Some p by (auto simp: answered_def)
    next
      case True
      then obtain c where c: "verified_claims (sv_pf sv) now r1 (fst s) = Some c"
        "can_act_on_org c (path_value r1 ''org'')" by blast
      from org_gate_pass [OF c, of body] w'(1) obtain w1 where
        b: "body c r1 w1 = (resp, w')" "w_db w1 = w_db (fst s)" by metis
      have op: "server_op sv now segs r (fst s) = request_op rt r1"
        using Some p c by (simp add: server_op_def)
      show ?thesis
      proof (cases "request_op rt r1")
        case None
        with op step have "a = None" "S = table view val (w_db (fst s))" by auto
        with body_refuses [OF None body ops b(1)] b(2) w'(2) assms(1) Some p show ?thesis
          by (auto simp: answered_def)
      next
        case opn: (Some op)
        obtain x where x: "svc_step now op (table view val (w_db (fst s))) = (x, S)" "a = Some x"
          using step \<open>server_op sv now segs r (fst s) = request_op rt r1\<close> opn
          by (cases "svc_step now op (table view val (w_db (fst s)))") auto
        from body_refines [OF _ opn body ops b(1)] b(2) assms(1) x w'(2) show ?thesis
          by (simp add: answered_def)
      qed
    qed
  qed
qed

end

text \<open>Whole histories.\<close>

fun server_run ::
    "('d, 'm, 'rot) server \<Rightarrow> (int \<times> string list \<times> request) list \<Rightarrow> 'd world \<times> 'm \<Rightarrow> response list \<times> 'd world \<times> 'm" where
  "server_run sv [] s = ([], s)"
| "server_run sv ((now, segs, r) # rs) s =
     (case server_handle sv now segs r s of
        (resp, s1) \<Rightarrow> (case server_run sv rs s1 of (resps, s2) \<Rightarrow> (resp # resps, s2)))"

fun server_ops ::
    "('d, 'm, 'rot) server \<Rightarrow> (int \<times> string list \<times> request) list \<Rightarrow> 'd world \<times> 'm \<Rightarrow> (int \<times> svc_op option) list" where
  "server_ops sv [] s = []"
| "server_ops sv ((now, segs, r) # rs) s =
     (now, server_op sv now segs r (fst s)) # server_ops sv rs (snd (server_handle sv now segs r s))"

fun svc_run :: "(int \<times> svc_op option) list \<Rightarrow> service \<Rightarrow> svc_answer option list \<times> service" where
  "svc_run [] S = ([], S)"
| "svc_run ((now, op) # ops) S =
     (case svc_opt now op S of (a, S1) \<Rightarrow> (case svc_run ops S1 of (as, S2) \<Rightarrow> (a # as, S2)))"

fun all_answered ::
    "('d, 'm, 'rot) server \<Rightarrow> (int \<times> string list \<times> request) list \<Rightarrow> svc_answer option list \<Rightarrow> response list \<Rightarrow> bool" where
  "all_answered sv [] [] [] = True"
| "all_answered sv ((now, segs, r) # rs) (a # as) (resp # resps) =
     (answered sv segs r a resp \<and> all_answered sv rs as resps)"
| "all_answered sv _ _ _ = False"

context reliable_store
begin

lemma server_run_refines:
  fixes sv :: "('a, 'm, 'rot) server"
  assumes "well_formed val (view (w_db (fst s)))" "pf_ops (sv_pf sv) = ops"
    and "server_run sv rs s = (resps, s')"
    and "svc_run (server_ops sv rs s) (table view val (w_db (fst s))) = (as, S)"
  shows "well_formed val (view (w_db (fst s'))) \<and> table view val (w_db (fst s')) = S \<and> all_answered sv rs as resps"
  using assms(1,3,4)
proof (induction rs arbitrary: s resps as)
  case (Cons q rs)
  obtain now segs r where q: "q = (now, segs, r)" by (cases q)
  obtain resp s1 where h: "server_handle sv now segs r s = (resp, s1)" by (cases "server_handle sv now segs r s")
  obtain resps1 where r1: "server_run sv rs s1 = (resps1, s')" "resps = resp # resps1"
    using Cons.prems(2) q h by (auto split: prod.splits)
  obtain a S1 where step: "svc_opt now (server_op sv now segs r (fst s)) (table view val (w_db (fst s))) = (a, S1)"
    by (cases "svc_opt now (server_op sv now segs r (fst s)) (table view val (w_db (fst s)))")
  obtain as1 where a1: "svc_run (server_ops sv rs s1) S1 = (as1, S)" "as = a # as1"
    using Cons.prems(3) q h step by (auto split: prod.splits)
  from server_step_refines [OF Cons.prems(1) assms(2) h step]
  have now: "well_formed val (view (w_db (fst s1)))" "table view val (w_db (fst s1)) = S1" "answered sv segs r a resp"
    by auto
  from Cons.IH [OF now(1) r1(1)] a1(1) now(2) show ?case
    using now(3) q r1(2) a1(2) by simp
qed simp

end


end
