(* ===== verification/ServiceClaims.thy ===== *)
theory ServiceClaims
  imports Service Demo
begin

text \<open>
  The properties of the server as a service: it refines the abstract service; a fact about
  histories that the refinement carries over to it; and what the table does not know, the
  organisation a record belongs to.
\<close>

section \<open>Refinement\<close>

text \<open>C2: on a store that does not fail, the whole HTTP server refines the abstract service.
  In any history of requests, whatever their methods, paths, bodies and tokens, each request
  is one operation of the service on the table the database holds, answered as the service
  answers, or it leaves the table alone; on a route of secrets the latter is answered 400,
  401, 403 or 428.\<close>

theorem server_refines_service:
  assumes "reliable_store ops view val" "pf_ops (sv_pf sv) = ops"
    and "well_formed val (view (w_db (fst s)))"
    and "server_run sv rs s = (resps, s')"
    and "svc_run (server_ops sv rs s) (table_of val (view (w_db (fst s)))) = (as, S)"
  shows "table_of val (view (w_db (fst s'))) = S \<and> all_answered sv rs as resps \<and>
    well_formed val (view (w_db (fst s')))"
  using reliable_store.server_run_refines [OF assms(1,3,2,4,5)] by simp

definition demo_history :: "(int \<times> string list \<times> request) list" where
  [go_defs]: "demo_history =
     [(5, demo_segs, demo_put),
      (6, demo_segs @ [''p'', ''n''], demo_patch),
      (7, demo_segs @ [''p'', ''n''], demo_get),
      (8, demo_segs @ [''p'', ''n''], demo_patch)]"

text \<open>The history evaluated, once for both witnesses.\<close>

lemma demo_history_run:
  "(server_ops demo_server demo_history (demo_world, ()),
    map rs_status (fst (server_run demo_server demo_history (demo_world, ())))) =
   ([(5, Some (OpWrite ''p/prod/n'' ''v1'')), (6, Some (OpUpdate ''p/prod/n'' ''v2'' 1)),
     (7, Some (OpRead ''p/prod/n'')), (8, Some (OpUpdate ''p/prod/n'' ''v2'' 1))],
    [201, 200, 200, 409])"
  by code_simp

lemmas demo_history_ops = demo_history_run [THEN prod.inject [THEN iffD1], THEN conjunct1]
lemmas demo_history_statuses = demo_history_run [THEN prod.inject [THEN iffD1], THEN conjunct2]

lemma demo_world_formed: "well_formed Some (mem_view (w_db demo_world))"
  by (simp add: well_formed_def demo_world_def mem_view_def)

theorem server_refines_service_witness:
  "\<exists>as S. svc_run (server_ops demo_server demo_history (demo_world, ())) (\<lambda>k. empty_cell) = (as, S) \<and>
     as = [Some (Accepted 1), Some (Updated 2), Some (Value ''v2'' 2), Some (Stale 2 1)] \<and>
     all_answered demo_server demo_history as (fst (server_run demo_server demo_history (demo_world, ())))"
proof (intro conjI exI)
  let ?as = "[Some (Accepted 1), Some (Updated 2), Some (Value ''v2'' 2), Some (Stale 2 1)]"
  let ?S = "\<lambda>k. if k = ''p/prod/n'' then \<lparr>ce_value = Some ''v2'', ce_version = 2, ce_time = 6\<rparr> else empty_cell"
  have empty: "table_of Some (mem_view (w_db demo_world)) = (\<lambda>k. empty_cell)"
    by (rule ext) (simp add: table_of_def demo_world_def mem_view_def empty_cell_def u64_or_zero_def)
  show run: "svc_run (server_ops demo_server demo_history (demo_world, ())) (\<lambda>k. empty_cell) = (?as, ?S)"
    unfolding demo_history_ops by (auto simp: empty_cell_def)
  show "?as = ?as" ..
  have "pf_ops (sv_pf demo_server) = mem_ops" by (simp add: demo_server_def demo_pf_def)
  from server_refines_service [where s = "(demo_world, ())", OF mem.reliable_store_axioms this _ prod.collapse [symmetric]]
    demo_world_formed run empty
  show "all_answered demo_server demo_history ?as (fst (server_run demo_server demo_history (demo_world, ())))" by simp
qed

section \<open>Versions count writes\<close>

definition wrote :: "string \<Rightarrow> svc_op option \<Rightarrow> response \<Rightarrow> bool" where
  [go_defs]: "wrote k op resp =
     (case op of
        Some (OpWrite k' v) \<Rightarrow> k' = k
      | Some (OpUpdate k' v x) \<Rightarrow> k' = k \<and> rs_status resp = 200
      | _ \<Rightarrow> False)"

fun writes_of :: "string \<Rightarrow> (int \<times> svc_op option) list \<Rightarrow> response list \<Rightarrow> nat" where
  "writes_of k ((now, op) # ops) (resp # resps) = (if wrote k op resp then 1 else 0) + writes_of k ops resps"
| "writes_of k _ _ = 0"

lemma step_version:
  assumes "svc_opt now op S = (a, S')" "answered sv segs r a resp" "op \<noteq> Some (OpRemove k)"
  shows "ce_version (S' k) = ce_version (S k) + (if wrote k op resp then 1 else 0)"
proof (cases op)
  case (Some p)
  with assms show ?thesis
    by (cases p) (auto simp: wrote_def answered_def render_def Let_def split: if_splits option.splits)
qed (use assms in \<open>auto simp: wrote_def\<close>)

lemma run_version:
  assumes "svc_run (server_ops sv rs s) S = (as, S')" "all_answered sv rs as resps"
    and "server_run sv rs s = (resps, s')"
    and "\<forall>t. (t, Some (OpRemove k)) \<notin> set (server_ops sv rs s)"
  shows "ce_version (S' k) = ce_version (S k) + of_nat (writes_of k (server_ops sv rs s) resps)"
  using assms
proof (induction rs arbitrary: s S as resps)
  case (Cons q rs)
  obtain now segs r where q: "q = (now, segs, r)" by (cases q)
  obtain resp s1 where h: "server_handle sv now segs r s = (resp, s1)" by (cases "server_handle sv now segs r s")
  let ?op = "server_op sv now segs r (fst s)"
  obtain a S1 where step: "svc_opt now ?op S = (a, S1)" by (cases "svc_opt now ?op S")
  obtain as1 where a1: "svc_run (server_ops sv rs s1) S1 = (as1, S')" "as = a # as1"
    using Cons.prems(1) q h step by (auto split: prod.splits)
  obtain resps1 where r1: "server_run sv rs s1 = (resps1, s')" "resps = resp # resps1"
    using Cons.prems(3) q h by (auto split: prod.splits)
  have "answered sv segs r a resp" "all_answered sv rs as1 resps1" using Cons.prems(2) q a1 r1 by auto
  moreover have "?op \<noteq> Some (OpRemove k)" "\<forall>t. (t, Some (OpRemove k)) \<notin> set (server_ops sv rs s1)"
    using Cons.prems(4) q h by auto
  ultimately show ?case
    using step_version [OF step, of sv segs r resp k] Cons.IH [OF a1(1) _ r1(1)] by (simp add: q h r1(2))
qed auto

text \<open>C15: on a store that does not fail and whose counters are readable at the start, the version
  of a record counts its writes.  Over any history that does not delete the record, the version
  grows by exactly the number of requests that wrote it: each POST that was carried out and
  each PATCH that was answered 200.  No write is lost and none is counted
  twice, whatever the other requests of the history are (the counter has 64 bits).  (On a store
  that fails, a POST can be answered 201 without its version and a PATCH 500 with it.)\<close>

theorem version_counts_writes:
  assumes "reliable_store ops view val" "pf_ops (sv_pf sv) = ops"
    and "well_formed val (view (w_db (fst s)))"
    and "server_run sv rs s = (resps, s')"
    and "\<forall>t. (t, Some (OpRemove (rel_key (p, e, n)))) \<notin> set (server_ops sv rs s)"
  shows "\<exists>ver. stored_version (view (w_db (fst s))) p n e = Some ver \<and>
     stored_version (view (w_db (fst s'))) p n e =
       Some (ver + of_nat (writes_of (rel_key (p, e, n)) (server_ops sv rs s) resps))"
proof -
  let ?S = "table_of val (view (w_db (fst s)))"
  obtain as S where run: "svc_run (server_ops sv rs s) ?S = (as, S)" by (cases "svc_run (server_ops sv rs s) ?S")
  from reliable_store.server_run_refines [OF assms(1,3,2,4) run]
  have r: "well_formed val (view (w_db (fst s')))" "S = table_of val (view (w_db (fst s')))" "all_answered sv rs as resps"
    by auto
  from run_version [OF run r(3) assms(4,5)] table_of_record(2) [OF assms(3), of p n e] table_of_record(2) [OF r(1), of p n e]
  show ?thesis by (simp add: r(2))
qed

theorem version_counts_writes_witness:
  "stored_version (mem_view (w_db (fst (snd (server_run demo_server demo_history (demo_world, ())))))) ''p'' ''n'' ''prod''
     = Some 2"
proof -
  have ops: "pf_ops (sv_pf demo_server) = mem_ops" by (simp add: demo_server_def demo_pf_def)
  obtain a b c d where resps: "fst (server_run demo_server demo_history (demo_world, ())) = [a, b, c, d]"
    "rs_status b = 200" "rs_status d = 409"
    using demo_history_statuses by (auto simp: map_eq_Cons_conv)
  have zero: "stored_version (mem_view (w_db demo_world)) ''p'' ''n'' ''prod'' = Some 0"
    by (simp add: demo_world_def mem_view_def stored_version_def)
  have key: "rel_key (''p'', ''prod'', ''n'') = ''p/prod/n''" by (simp add: rel_key_def)
  from version_counts_writes [where s = "(demo_world, ())" and rs = demo_history
      and p = "''p''" and e = "''prod''" and n = "''n''",
      OF mem.reliable_store_axioms ops _ prod.collapse [symmetric]]
    demo_world_formed demo_history_ops resps zero
  show ?thesis by (simp add: key wrote_def)
qed

section \<open>Organisations\<close>

text \<open>Two requests that ask for the same thing, whoever sends them and on whose behalf.\<close>

definition same_ask :: "request \<Rightarrow> request \<Rightarrow> bool" where
  "same_ask r r' \<longleftrightarrow>
     path_value r ''rest'' = path_value r' ''rest'' \<and> rq_query r = rq_query r' \<and> rq_body r = rq_body r' \<and>
     header_get (rq_headers r) ''If-Match'' = header_get (rq_headers r') ''If-Match''"

definition same_outcome :: "response \<times> 'd world \<Rightarrow> response \<times> 'd world \<Rightarrow> bool" where
  "same_outcome x y \<longleftrightarrow> fst x = fst y \<and> w_db (snd x) = w_db (snd y)"

lemma same_fields: "same_ask r r' \<Longrightarrow> put_fields r = put_fields r' \<and> patch_fields r = patch_fields r'"
  by (simp add: same_ask_def decode_body_def read_json_def)

lemma get_body_same:
  "same_ask r r' \<Longrightarrow> w_db w = w_db w1 \<Longrightarrow> same_outcome (get_body pf now c r w) (get_body pf now c' r' w1)"
  by (auto simp: same_ask_def same_outcome_def get_body_def Let_def split: sum.split)

lemma put_body_same:
  assumes "same_ask r r'" "w_db w = w_db w1"
  shows "same_outcome (put_body pf now c r w) (put_body pf now c' r' w1)"
proof -
  obtain ok q where f: "put_fields r = (ok, q)" by (cases "put_fields r")
  with same_fields [OF assms(1)] have f': "put_fields r' = (ok, q)" by simp
  show ?thesis
    by (simp add: put_body_def f f' assms(2) same_outcome_def Let_def split: prod.split option.split)
qed

lemma patch_update_same:
  "w_db w = w_db w1 \<Longrightarrow>
     same_outcome (patch_update pf now c p n e v x r w) (patch_update pf now c' p n e v x r' w1)"
  by (auto simp: same_outcome_def patch_update_def Let_def split: sum.split prod.split option.split kms_err.split)

lemma patch_body_same:
  assumes "same_ask r r'" "w_db w = w_db w1"
  shows "same_outcome (patch_body pf now c r w) (patch_body pf now c' r' w1)"
proof -
  obtain ok q where f: "patch_fields r = (ok, q)" by (cases "patch_fields r")
  with same_fields [OF assms(1)] have f': "patch_fields r' = (ok, q)" by simp
  show ?thesis
    using assms(1) patch_update_same [OF assms(2)]
    by (simp add: patch_body_def f f' assms(2) same_ask_def same_outcome_def Let_def split: sum.split prod.split)
qed

lemma del_body_same:
  "same_ask r r' \<Longrightarrow> w_db w = w_db w1 \<Longrightarrow> same_outcome (del_body pf now c r w) (del_body pf now c' r' w1)"
  by (auto simp: same_ask_def same_outcome_def del_body_def Let_def split: sum.split prod.split option.split)

text \<open>C4: the records belong to no organisation.  Two callers, each entitled to the organisation in
  its own URL only, that ask GET, POST, PATCH or DELETE for the same path, name and
  environment get the same answer and have the same effect on the database: the organisation
  in the URL decides whether a request is served, never which record it is about.\<close>

theorem organisations_share_records:
  assumes "h \<in> {get_secret pf now, put_secret pf now, patch_secret pf now, del_secret pf now}"
    and "same_ask r r'"
    and "verified_claims pf now r w = Some c" "can_act_on_org c (path_value r ''org'')"
    and "verified_claims pf now r' w = Some c'" "can_act_on_org c' (path_value r' ''org'')"
  shows "fst (h r w) = fst (h r' w) \<and> w_db (snd (h r w)) = w_db (snd (h r' w))"
proof -
  have "same_outcome (org_gate pf now body r w) (org_gate pf now body r' w)"
    if "body \<in> {get_body pf now, put_body pf now, patch_body pf now, del_body pf now}" for body
  proof -
    obtain w1 where w1: "org_gate pf now body r w = body c r w1" "w_db w1 = w_db w"
      using org_gate_pass [OF assms(3,4)] by metis
    obtain w2 where w2: "org_gate pf now body r' w = body c' r' w2" "w_db w2 = w_db w"
      using org_gate_pass [OF assms(5,6)] by metis
    have "w_db w1 = w_db w2" using w1(2) w2(2) by simp
    with that w1(1) w2(1) show ?thesis
      using get_body_same [OF assms(2)] put_body_same [OF assms(2)] patch_body_same [OF assms(2)]
        del_body_same [OF assms(2)] by auto
  qed
  with assms(1) show ?thesis
    by (auto simp: same_outcome_def get_secret_def put_secret_def patch_secret_def del_secret_def)
qed

text \<open>A second tenant reads what the first one stored, under its own organisation.\<close>

definition duo_pf :: "mem platform" where
  [go_defs]: "duo_pf = demo_pf\<lparr>pf_parse := table_parse
     [(''acme'', demo_token ''svc_a'' ''acme'' [], demo_key), (''globex'', demo_token ''svc_g'' ''globex'' [], demo_key)]\<rparr>"

definition globex_get :: request where
  [go_defs]: "globex_get = demo_req ''GET'' ''globex'' [(''org'', ''globex''), (''rest'', ''p/n'')] [(''env'', ''prod'')] JNull"

theorem organisations_share_records_witness:
  "fst (get_secret duo_pf 6 globex_get demo_after_put) =
   write_json 200 (JObj [(''secret'', JObj [(''value'', JStr ''v1'')]), (''version'', JInt 1)])"
proof -
  have "(case (verified_claims duo_pf 6 demo_get demo_after_put, verified_claims duo_pf 6 globex_get demo_after_put) of
      (Some c, Some c') \<Rightarrow> can_act_on_org c ''acme'' \<and> can_act_on_org c' ''globex'' \<and> \<not> is_admin c' | _ \<Rightarrow> False)"
    by code_simp
  then obtain c c' where "verified_claims duo_pf 6 demo_get demo_after_put = Some c"
    "can_act_on_org c (path_value demo_get ''org'')" "verified_claims duo_pf 6 globex_get demo_after_put = Some c'"
    "can_act_on_org c' (path_value globex_get ''org'')"
    by (auto simp: demo_get_def globex_get_def demo_req_def lookup0_def split: option.splits)
  moreover have "same_ask demo_get globex_get"
    by (simp add: same_ask_def demo_get_def globex_get_def demo_req_def lookup0_def
        header_get_def canonical_key_def token_byte_def upper_byte_def lower_byte_def)
  ultimately have "fst (get_secret duo_pf 6 demo_get demo_after_put) = fst (get_secret duo_pf 6 globex_get demo_after_put)"
    using organisations_share_records [OF insertI1] by blast
  moreover have "fst (get_secret duo_pf 6 demo_get demo_after_put) =
      write_json 200 (JObj [(''secret'', JObj [(''value'', JStr ''v1'')]), (''version'', JInt 1)])"
    by code_simp
  ultimately show ?thesis by simp
qed

end
