(* ===== verification/Threads.thy ===== *)
theory Threads
  imports Service Steps
begin

text \<open>
  All handlers of a record run concurrently.  Past its guards a handler is a sequence of
  database transactions; \<open>stage_step\<close> performs one of them, and a schedule interleaves
  those of any number of requests on any records.  On a store that does not fail a
  transaction is a step on one cell of the abstract table (\<open>stage_step_cell\<close>), so requests
  on different records do not interfere.
\<close>

section \<open>Handlers as stages\<close>

datatype stage =
    GetValue
  | GetVersion bytes
  | PutValue
  | PutVersion
  | PutTime int64
  | PatchCheck
  | PatchVersion
  | PatchReread
  | PatchValue int64
  | PatchTime int64
  | DelValue
  | DelVersion
  | DelTime
  | Answered response

record thread =
  th_ref :: "string \<times> string \<times> string"
  th_value :: string
  th_expected :: int64
  th_stage :: stage

text \<open>
  One transaction of the handlers \<^verbatim>\<open>get\<close>, \<^verbatim>\<open>put\<close>, \<^verbatim>\<open>patch\<close> and \<^verbatim>\<open>del\<close> on the
  record with path \<open>p\<close>, environment \<open>e\<close> and name \<open>n\<close>; \<open>v\<close> is the value to store and
  \<open>x\<close> the expected version.
\<close>

fun stage_step ::
    "'d store_ops \<Rightarrow> int \<Rightarrow> string \<Rightarrow> string \<Rightarrow> string \<Rightarrow> string \<Rightarrow> int64 \<Rightarrow> stage \<Rightarrow> 'd \<Rightarrow> stage \<times> 'd" where
  "stage_step ops now p e n v x GetValue d =
     (case st_get ops d p n e of
        Inl err \<Rightarrow> (Answered (write_json 404 (message ''not found'')), d)
      | Inr s \<Rightarrow> (GetVersion (sec_ciphertext s), d))"
| "stage_step ops now p e n v x (GetVersion u) d =
     (Answered (write_json 200
        (JObj [(''secret'', JObj [(''value'', JStr u)]), (''version'', JInt (sint (fst (read_version ops d p n e))))])), d)"
| "stage_step ops now p e n v x PutValue d =
     (case st_put ops d \<lparr>sec_name = n, sec_path = p, sec_env = e, sec_ciphertext = v\<rparr> of
        (Some err, d1) \<Rightarrow> (Answered (write_json 500 (message (error_text err))), d1)
      | (None, d1) \<Rightarrow> (PutVersion, d1))"
| "stage_step ops now p e n v x PutVersion d =
     (case bump_version ops d p n e (- 1) of (ver, err, d1) \<Rightarrow> (PutTime ver, d1))"
| "stage_step ops now p e n v x (PutTime ver) d =
     (case write_mtime ops (word_of_int now) d p n e of
        (err, d1) \<Rightarrow> (Answered (write_json 201 (JObj [(''ok'', JBool True), (''version'', JInt (sint ver))])), d1))"
| "stage_step ops now p e n v x PatchCheck d =
     (case st_get ops d p n e of
        Inl err \<Rightarrow> (Answered (write_json 404 (message ''not found'')), d)
      | Inr s \<Rightarrow> (PatchVersion, d))"
| "stage_step ops now p e n v x PatchVersion d =
     (case bump_version ops d p n e x of
        (ver, Some ErrVersionMismatch, d1) \<Rightarrow> (PatchReread, d1)
      | (ver, Some err, d1) \<Rightarrow> (Answered (write_json 500 (message (error_text err))), d1)
      | (ver, None, d1) \<Rightarrow> (PatchValue ver, d1))"
| "stage_step ops now p e n v x PatchReread d =
     (Answered (write_json 409 (JObj
        [(''currentVersion'', JInt (sint (fst (read_version ops d p n e)))), (''expectedVersion'', JInt (sint x)),
         (''message'', JStr (''version mismatch '' @ em_dash @ '' replayed or stale update''))])), d)"
| "stage_step ops now p e n v x (PatchValue ver) d =
     (case st_put ops d \<lparr>sec_name = n, sec_path = p, sec_env = e, sec_ciphertext = v\<rparr> of
        (Some err, d1) \<Rightarrow> (Answered (write_json 500 (message (error_text err))), d1)
      | (None, d1) \<Rightarrow> (PatchTime ver, d1))"
| "stage_step ops now p e n v x (PatchTime ver) d =
     (case write_mtime ops (word_of_int now) d p n e of
        (err, d1) \<Rightarrow> (Answered (write_json 200 (JObj [(''ok'', JBool True), (''version'', JInt (sint ver))])), d1))"
| "stage_step ops now p e n v x DelValue d =
     (case st_delete ops d p n e of
        (Some err, d1) \<Rightarrow> (Answered (write_json 404 (message ''not found'')), d1)
      | (None, d1) \<Rightarrow> (DelVersion, d1))"
| "stage_step ops now p e n v x DelVersion d = (DelTime, snd (delete_version ops d p n e))"
| "stage_step ops now p e n v x DelTime d =
     (Answered (write_json 200 (JObj [(''ok'', JBool True)])), snd (delete_mtime ops d p n e))"
| "stage_step ops now p e n v x (Answered r) d = (Answered r, d)"

definition thread_move :: "'d store_ops \<Rightarrow> int \<Rightarrow> thread \<Rightarrow> 'd \<Rightarrow> thread \<times> 'd" where
  [go_defs]: "thread_move ops now j d =
     (case th_ref j of
        (p, e, n) \<Rightarrow>
          (case stage_step ops now p e n (th_value j) (th_expected j) (th_stage j) d of
             (st, d1) \<Rightarrow> (j\<lparr>th_stage := st\<rparr>, d1)))"

text \<open>The thread a request starts once its guards are passed.\<close>

fun request_thread :: "route \<Rightarrow> request \<Rightarrow> thread option" where
  "request_thread RGet r =
     map_option (\<lambda>x. \<lparr>th_ref = x, th_value = '''', th_expected = 0, th_stage = GetValue\<rparr>) (path_ref (read_env r) r)"
| "request_thread RPut r =
     (if put_acceptable r
      then map_option (\<lambda>x. \<lparr>th_ref = x, th_value = pr_value (snd (put_fields r)), th_expected = 0, th_stage = PutValue\<rparr>)
             (put_ref r)
      else None)"
| "request_thread RPatch r =
     (case (path_ref (patch_env r) r, update_guard r) of
        (Some x, Some v) \<Rightarrow>
          Some \<lparr>th_ref = x, th_value = qr_value (snd (patch_fields r)), th_expected = v, th_stage = PatchCheck\<rparr>
      | _ \<Rightarrow> None)"
| "request_thread RDelete r =
     map_option (\<lambda>x. \<lparr>th_ref = x, th_value = '''', th_expected = 0, th_stage = DelValue\<rparr>) (path_ref (read_env r) r)"
| "request_thread _ r = None"

abbreviation stage2 :: "'d store_ops \<Rightarrow> int \<Rightarrow> thread \<times> 'd \<Rightarrow> thread \<times> 'd" where
  "stage2 ops now jd \<equiv> thread_move ops now (fst jd) (snd jd)"

text \<open>Four stages without interference are the handler: its answer and its effect.\<close>

lemmas stage_runs = numeral_eq_Suc thread_move_def

lemmas read_env_fold = read_env_def [symmetric]

lemma get_stages:
  assumes "get_body pf now c r w = (resp, w')" "split_secret_path (path_value r ''rest'') = Inr (p, n)"
  shows "(stage2 (pf_ops pf) now ^^ 4)
      (\<lparr>th_ref = (p, read_env r, n), th_value = v, th_expected = x, th_stage = GetValue\<rparr>, w_db w) =
     (\<lparr>th_ref = (p, read_env r, n), th_value = v, th_expected = x, th_stage = Answered resp\<rparr>, w_db w')"
proof (cases "st_get (pf_ops pf) (w_db w) p n (read_env r)")
  case (Inl err)
  with assms show ?thesis by (auto simp: stage_runs get_body_def Let_def read_env_fold)
next
  case (Inr s)
  with assms show ?thesis by (auto simp: stage_runs get_body_def Let_def read_env_fold split: prod.split)
qed

lemma put_stages:
  assumes "put_body pf now c r w = (resp, w')" "put_fields r = (True, q)" "put_acceptable r"
  shows "(stage2 (pf_ops pf) now ^^ 4)
      (\<lparr>th_ref = (pr_path q, pr_env q, pr_name q), th_value = pr_value q, th_expected = x, th_stage = PutValue\<rparr>, w_db w) =
     (\<lparr>th_ref = (pr_path q, pr_env q, pr_name q), th_value = pr_value q, th_expected = x, th_stage = Answered resp\<rparr>, w_db w')"
proof -
  let ?s = "\<lparr>sec_name = pr_name q, sec_path = pr_path q, sec_env = pr_env q, sec_ciphertext = pr_value q\<rparr>"
  obtain pe d1 where p: "st_put (pf_ops pf) (w_db w) ?s = (pe, d1)" by (cases "st_put (pf_ops pf) (w_db w) ?s")
  obtain ver be d2 where b: "bump_version (pf_ops pf) d1 (pr_path q) (pr_name q) (pr_env q) (- 1) = (ver, be, d2)"
    by (cases "bump_version (pf_ops pf) d1 (pr_path q) (pr_name q) (pr_env q) (- 1)")
  obtain me d3 where m: "write_mtime (pf_ops pf) (word_of_int now) d2 (pr_path q) (pr_name q) (pr_env q) = (me, d3)"
    by (cases "write_mtime (pf_ops pf) (word_of_int now) d2 (pr_path q) (pr_name q) (pr_env q)")
  have "pr_name q \<noteq> ''''" "safe_path (pr_path q)" "safe_path (pr_name q)" "env_required (pr_env q)"
    using assms(2,3) by (auto simp: put_acceptable_def)
  with assms(1,2) p b m show ?thesis
    by (cases pe) (auto simp: stage_runs put_body_def)
qed

lemma patch_stages:
  assumes "patch_update pf now c p n e v x r w = (resp, w')"
  shows "(stage2 (pf_ops pf) now ^^ 4) (\<lparr>th_ref = (p, e, n), th_value = v, th_expected = x, th_stage = PatchCheck\<rparr>, w_db w) =
     (\<lparr>th_ref = (p, e, n), th_value = v, th_expected = x, th_stage = Answered resp\<rparr>, w_db w')"
proof (cases "st_get (pf_ops pf) (w_db w) p n e")
  case (Inl err)
  with assms show ?thesis by (auto simp: stage_runs patch_update_def)
next
  case g: (Inr old)
  let ?s = "\<lparr>sec_name = n, sec_path = p, sec_env = e, sec_ciphertext = v\<rparr>"
  obtain ver be d1 where b: "bump_version (pf_ops pf) (w_db w) p n e x = (ver, be, d1)"
    by (cases "bump_version (pf_ops pf) (w_db w) p n e x")
  show ?thesis
  proof (cases be)
    case (Some err)
    with assms g b show ?thesis
      by (cases err) (auto simp: stage_runs patch_update_def Let_def)
  next
    case None
    obtain pe d2 where p: "st_put (pf_ops pf) d1 ?s = (pe, d2)" by (cases "st_put (pf_ops pf) d1 ?s")
    obtain me d3 where m: "write_mtime (pf_ops pf) (word_of_int now) d2 p n e = (me, d3)"
      by (cases "write_mtime (pf_ops pf) (word_of_int now) d2 p n e")
    from assms g b None p m show ?thesis
      by (cases pe) (auto simp: stage_runs patch_update_def)
  qed
qed

lemma del_stages:
  assumes "del_body pf now c r w = (resp, w')" "split_secret_path (path_value r ''rest'') = Inr (p, n)"
  shows "(stage2 (pf_ops pf) now ^^ 4)
      (\<lparr>th_ref = (p, read_env r, n), th_value = v, th_expected = x, th_stage = DelValue\<rparr>, w_db w) =
     (\<lparr>th_ref = (p, read_env r, n), th_value = v, th_expected = x, th_stage = Answered resp\<rparr>, w_db w')"
proof -
  obtain de d1 where d: "st_delete (pf_ops pf) (w_db w) p n (read_env r) = (de, d1)"
    by (cases "st_delete (pf_ops pf) (w_db w) p n (read_env r)")
  with assms show ?thesis
    by (cases de) (auto simp: stage_runs del_body_def Let_def read_env_fold)
qed

lemma handler_stages:
  assumes "request_thread rt r = Some j" "secret_body pf now rt = Some body" "body c r w = (resp, w')"
  shows "(stage2 (pf_ops pf) now ^^ 4) (j, w_db w) = (j\<lparr>th_stage := Answered resp\<rparr>, w_db w')"
proof (cases rt)
  case RGet
  with assms get_stages [of pf now c r w resp w'] show ?thesis
    by (auto simp: path_ref_def split: sum.splits)
next
  case RPut
  obtain ok q where q: "put_fields r = (ok, q)" by (cases "put_fields r")
  with RPut assms(1) have "ok" "put_acceptable r"
    "j = \<lparr>th_ref = (pr_path q, pr_env q, pr_name q), th_value = pr_value q, th_expected = 0, th_stage = PutValue\<rparr>"
    by (auto simp: put_acceptable_def put_ref_def split: if_splits)
  with RPut assms(2,3) q put_stages [of pf now c r w resp w' q] show ?thesis by simp
next
  case RPatch
  with assms(1) obtain p n x where sp: "split_secret_path (path_value r ''rest'') = Inr (p, n)"
    and x: "update_guard r = Some x"
    and j: "j = \<lparr>th_ref = (p, patch_env r, n), th_value = qr_value (snd (patch_fields r)), th_expected = x, th_stage = PatchCheck\<rparr>"
    by (auto simp: path_ref_def split: option.splits sum.splits)
  from x have g: "fst (patch_fields r)" "env_required (patch_env r)"
    "expected_version (header_get (rq_headers r) ''If-Match'') (qr_version (snd (patch_fields r))) = Inr x"
    by (auto simp: update_guard_def split: if_splits sum.splits)
  have "patch_body pf now c r w = (resp, w')" using RPatch assms(2,3) by simp
  then have "patch_update pf now c p n (patch_env r) (qr_value (snd (patch_fields r))) x r w = (resp, w')"
    by (simp only: patch_body_pass [OF sp g])
  from patch_stages [OF this] show ?thesis by (simp add: j)
next
  case RDelete
  with assms del_stages [of pf now c r w resp w'] show ?thesis
    by (auto simp: path_ref_def split: sum.splits)
qed (use assms(1) in auto)

section \<open>One transaction on one cell\<close>

fun cell_step :: "int \<Rightarrow> bytes \<Rightarrow> int64 \<Rightarrow> stage \<Rightarrow> cell \<Rightarrow> stage \<times> cell" where
  "cell_step now v x GetValue c =
     (case ce_value c of None \<Rightarrow> Answered (render Missing) | Some u \<Rightarrow> GetVersion u, c)"
| "cell_step now v x (GetVersion u) c = (Answered (render (Value u (ce_version c))), c)"
| "cell_step now v x PutValue c = (PutVersion, c\<lparr>ce_value := Some v\<rparr>)"
| "cell_step now v x PutVersion c = (PutTime (ce_version c + 1), c\<lparr>ce_version := ce_version c + 1\<rparr>)"
| "cell_step now v x (PutTime ver) c = (Answered (render (Accepted ver)), c\<lparr>ce_time := word_of_int now\<rparr>)"
| "cell_step now v x PatchCheck c =
     (case ce_value c of None \<Rightarrow> Answered (render Missing) | Some u \<Rightarrow> PatchVersion, c)"
| "cell_step now v x PatchVersion c =
     (if 0 \<le> sint x \<and> x \<noteq> ce_version c then (PatchReread, c)
      else (PatchValue (ce_version c + 1), c\<lparr>ce_version := ce_version c + 1\<rparr>))"
| "cell_step now v x PatchReread c = (Answered (render (Stale (ce_version c) x)), c)"
| "cell_step now v x (PatchValue ver) c = (PatchTime ver, c\<lparr>ce_value := Some v\<rparr>)"
| "cell_step now v x (PatchTime ver) c = (Answered (render (Updated ver)), c\<lparr>ce_time := word_of_int now\<rparr>)"
| "cell_step now v x DelValue c =
     (case ce_value c of
        None \<Rightarrow> (Answered (render Missing), c)
      | Some u \<Rightarrow> (DelVersion, c\<lparr>ce_value := None\<rparr>))"
| "cell_step now v x DelVersion c = (DelTime, c\<lparr>ce_version := 0\<rparr>)"
| "cell_step now v x DelTime c = (Answered (render Removed), c\<lparr>ce_time := 0\<rparr>)"
| "cell_step now v x (Answered r) c = (Answered r, c)"

text \<open>One key of the database changes: one field of one cell changes.\<close>

lemma table_set:
  "table_of val (m(value_at k := b)) = (table_of val m)(k := (table_of val m k)\<lparr>ce_value := Option.bind b val\<rparr>)"
  "table_of val (m(version_at k := b)) = (table_of val m)(k := (table_of val m k)\<lparr>ce_version := u64_or_zero b\<rparr>)"
  "table_of val (m(time_at k := b)) = (table_of val m)(k := (table_of val m k)\<lparr>ce_time := u64_or_zero b\<rparr>)"
  by (simp_all add: table_of_def fun_eq_iff)

lemma well_formed_set:
  assumes "well_formed val m"
  shows "(case b of None \<Rightarrow> True | Some y \<Rightarrow> val y \<noteq> None) \<Longrightarrow> well_formed val (m(value_at k := b))"
    and "counter_ok b \<Longrightarrow> well_formed val (m(version_at k := b))"
    and "counter_ok b \<Longrightarrow> well_formed val (m(time_at k := b))"
  using assms by (auto simp: well_formed_def split: option.splits)

context reliable_store
begin

lemma stage_step_cell:
  assumes "well_formed val (view d)" "stage_step ops now p e n v x st d = (st', d')"
    and "cell_step now v x st (table view val d (rel_key (p, e, n))) = (st1, c)"
  shows "st' = st1 \<and> well_formed val (view d') \<and> table view val d' = (table view val d)(rel_key (p, e, n) := c)"
proof -
  let ?k = "rel_key (p, e, n)" and ?s = "\<lparr>sec_name = n, sec_path = p, sec_env = e, sec_ciphertext = v\<rparr>"
  note wf = assms(1) and rec = table_of_record [OF assms(1), where p = p and n = n and e = e]
  have absent: "ce_value (table view val d ?k) = None \<longleftrightarrow> view d (secret_key p n e) = None"
    using table_present [OF assms(1)] by (simp add: record_at)
  have get: "(ce_value (table view val d ?k) = None \<longrightarrow> (\<exists>y. st_get ops d p n e = Inl y)) \<and>
      (\<forall>u. ce_value (table view val d ?k) = Some u \<longrightarrow>
         (\<exists>s. st_get ops d p n e = Inr s \<and> sec_ciphertext s = u))"
    using absent st_get_absent st_get_iff [of d p n e] rec(1) by metis
  obtain d1 where d1: "st_put ops d ?s = (None, d1)"
    using st_put_total [of d ?s] by (cases "st_put ops d ?s") auto
  obtain b where b: "val b = Some v" "view d1 = (view d)(value_at ?k \<mapsto> b)"
    using st_put_ok [OF d1] by (auto simp: record_at)
  have put: "well_formed val (view d1)"
    "table view val d1 = (table view val d)(?k := (table view val d ?k)\<lparr>ce_value := Some v\<rparr>)"
    by (simp_all add: b table_set well_formed_set [OF wf])
  obtain d2 where d2: "write_mtime ops (word_of_int now) d p n e = (None, d2)"
    using write_mtime_total by blast
  have time: "well_formed val (view d2)"
    "table view val d2 = (table view val d)(?k := (table view val d ?k)\<lparr>ce_time := word_of_int now\<rparr>)"
    using write_mtime_ok [OF d2] by (simp_all add: record_at table_set well_formed_set [OF wf])
  have bump: "well_formed val (view d3)"
    "table view val d3 = (table view val d)(?k := (table view val d ?k)\<lparr>ce_version := ver\<rparr>)"
    if "bump_version ops d p n e y = (ver, None, d3)" for y ver d3
    using bump_version_ok(2) [OF that] by (simp_all add: record_at table_set well_formed_set [OF wf])
  show ?thesis
  proof (cases st)
    case GetValue
    with assms get show ?thesis by (cases "ce_value (table view val d ?k)") (auto simp: render_def)
  next
    case (GetVersion u)
    with assms read_version_total [OF rec(2)] show ?thesis by (auto simp: render_def)
  next
    case PutValue
    with assms d1 put show ?thesis by auto
  next
    case PutVersion
    from bump_version_total [OF rec(2), of "- 1"] obtain d3 where
      "bump_version ops d p n e (- 1) = (ce_version (table view val d ?k) + 1, None, d3)" by auto
    with assms bump [OF this] PutVersion show ?thesis by auto
  next
    case (PutTime ver)
    with assms d2 time show ?thesis by (auto simp: render_def)
  next
    case PatchCheck
    with assms get show ?thesis by (cases "ce_value (table view val d ?k)") (auto simp: render_def)
  next
    case PatchVersion
    show ?thesis
    proof (cases "0 \<le> sint x \<and> x \<noteq> ce_version (table view val d ?k)")
      case True
      with assms bump_version_stale [OF rec(2)] PatchVersion show ?thesis by auto
    next
      case False
      with bump_version_total [OF rec(2), of x] obtain d3 where
        "bump_version ops d p n e x = (ce_version (table view val d ?k) + 1, None, d3)" by auto
      with assms bump [OF this] PatchVersion False show ?thesis by auto
    qed
  next
    case PatchReread
    with assms read_version_total [OF rec(2)] show ?thesis by (auto simp: render_def)
  next
    case (PatchValue ver)
    with assms d1 put show ?thesis by auto
  next
    case (PatchTime ver)
    with assms d2 time show ?thesis by (auto simp: render_def)
  next
    case DelValue
    show ?thesis
    proof (cases "ce_value (table view val d ?k)")
      case None
      obtain y d3 where y: "st_delete ops d p n e = (y, d3)" by (cases "st_delete ops d p n e")
      with absent None st_delete_ok [of d p n e d3] obtain z where "y = Some z" by (cases y) auto
      with assms DelValue None y st_delete_err [of d p n e z d3] show ?thesis by (auto simp: render_def)
    next
      case (Some u)
      with absent obtain d3 where d3: "st_delete ops d p n e = (None, d3)"
        using st_delete_total [of d p n e] by (cases "st_delete ops d p n e") auto
      with st_delete_ok [OF d3] assms DelValue Some show ?thesis
        by (auto simp: record_at table_set well_formed_set [OF wf])
    qed
  next
    case DelVersion
    obtain d3 where d3: "delete_version ops d p n e = (None, d3)"
      using delete_key_total by (auto simp: delete_version_def)
    with delete_version_ok [OF d3] assms DelVersion show ?thesis
      by (auto simp: record_at table_set well_formed_set [OF wf])
  next
    case DelTime
    obtain d3 where d3: "delete_mtime ops d p n e = (None, d3)"
      using delete_key_total by (auto simp: delete_mtime_def)
    with delete_mtime_ok [OF d3] assms DelTime show ?thesis
      by (auto simp: record_at table_set well_formed_set [OF wf] render_def)
  next
    case (Answered r)
    with assms show ?thesis by auto
  qed
qed

end

end
