(* ===== verification/Serial.thy ===== *)
theory Serial
  imports Threads
begin

text \<open>
  Schedules of concurrent requests: any number of threads, one transaction at a time, in any
  order, on a store that may fail.  Every schedule ends (\<^const>\<open>protocol\<close> is interpreted
  on \<open>thread_step\<close>), with one answer to each request.  On a store that does not fail, the
  requests of a record are answered as the abstract service answers them one after the
  other, provided no two of them overlap; requests on other records may overlap as they like.
\<close>

section \<open>Schedules\<close>

fun is_answered :: "stage \<Rightarrow> bool" where
  "is_answered (Answered r) = True"
| "is_answered _ = False"

definition fresh :: "stage \<Rightarrow> bool" where
  "fresh st \<longleftrightarrow> st \<in> {GetValue, PutValue, PatchCheck, DelValue}"

lemma fresh_not_answered: "fresh st \<Longrightarrow> \<not> is_answered st"
  by (auto simp: fresh_def)

text \<open>A request that has run some of its transactions but not all.\<close>

definition under_way :: "thread \<Rightarrow> bool" where
  "under_way j \<longleftrightarrow> \<not> fresh (th_stage j) \<and> \<not> is_answered (th_stage j)"

definition th_key :: "thread \<Rightarrow> string" where
  "th_key j = rel_key (th_ref j)"

text \<open>The state of a schedule, with the answers given so far: when, and to which request.\<close>

record 'd system =
  sy_threads :: "thread list"
  sy_db :: 'd
  sy_answers :: "(int \<times> nat) list"

definition start :: "thread list \<Rightarrow> 'd \<Rightarrow> 'd system" where
  "start js d = \<lparr>sy_threads = js, sy_db = d, sy_answers = []\<rparr>"

definition after_move :: "'d system \<Rightarrow> int \<Rightarrow> nat \<Rightarrow> thread \<Rightarrow> 'd \<Rightarrow> 'd system" where
  "after_move s now i j d =
     \<lparr>sy_threads = (sy_threads s)[i := j], sy_db = d,
      sy_answers = sy_answers s @ (if is_answered (th_stage j) then [(now, i)] else [])\<rparr>"

inductive thread_step :: "'d store_ops \<Rightarrow> int \<times> nat \<Rightarrow> 'd system \<Rightarrow> 'd system \<Rightarrow> bool"
  for ops :: "'d store_ops"
where
  move: "i < length (sy_threads s) \<Longrightarrow> \<not> is_answered (th_stage (sy_threads s ! i)) \<Longrightarrow>
    thread_move ops now (sy_threads s ! i) (sy_db s) = (j, d) \<Longrightarrow>
    thread_step ops (now, i) s (after_move s now i j d)"

inductive_simps thread_step_iff: "thread_step ops l s s'"

lemma thread_stepE [consumes 1, case_names move]:
  assumes "thread_step ops l s s'"
  obtains i now j d where "l = (now, i)" "s' = after_move s now i j d" "i < length (sy_threads s)"
    "\<not> is_answered (th_stage (sy_threads s ! i))" "thread_move ops now (sy_threads s ! i) (sy_db s) = (j, d)"
  using assms by (auto simp: thread_step_iff)

text \<open>No other request on the record of request \<open>i\<close> is under way.\<close>

definition alone :: "'d system \<Rightarrow> nat \<Rightarrow> bool" where
  "alone s i \<longleftrightarrow>
     (\<forall>k<length (sy_threads s). k \<noteq> i \<longrightarrow> th_key (sy_threads s ! k) = th_key (sy_threads s ! i) \<longrightarrow>
        \<not> under_way (sy_threads s ! k))"

text \<open>A step that keeps the requests on record \<open>k\<close> from overlapping.\<close>

inductive step_apart :: "'d store_ops \<Rightarrow> string \<Rightarrow> int \<times> nat \<Rightarrow> 'd system \<Rightarrow> 'd system \<Rightarrow> bool"
  for ops :: "'d store_ops" and k :: string
where
  "thread_step ops l s s' \<Longrightarrow> (th_key (sy_threads s ! snd l) = k \<Longrightarrow> alone s (snd l)) \<Longrightarrow> step_apart ops k l s s'"

inductive_cases step_apartE: "step_apart ops k l s s'"

lemma thread_move_frame:
  assumes "thread_move ops now j d = (j', d')"
  shows "th_ref j' = th_ref j" "th_value j' = th_value j" "th_expected j' = th_expected j"
    and "stage_step ops now (fst (th_ref j)) (fst (snd (th_ref j))) (snd (snd (th_ref j))) (th_value j)
        (th_expected j) (th_stage j) d = (th_stage j', d')"
  using assms by (auto simp: thread_move_def split: prod.splits)

section \<open>Every request is answered\<close>

fun stage_rank :: "stage \<Rightarrow> nat" where
  "stage_rank GetValue = 2"
| "stage_rank (GetVersion u) = 1"
| "stage_rank PutValue = 3"
| "stage_rank PutVersion = 2"
| "stage_rank (PutTime ver) = 1"
| "stage_rank PatchCheck = 4"
| "stage_rank PatchVersion = 3"
| "stage_rank PatchReread = 1"
| "stage_rank (PatchValue ver) = 2"
| "stage_rank (PatchTime ver) = 1"
| "stage_rank DelValue = 3"
| "stage_rank DelVersion = 2"
| "stage_rank DelTime = 1"
| "stage_rank (Answered r) = 0"

lemma stage_rank_step:
  "stage_step ops now p e n v x st d = (st', d') \<Longrightarrow> \<not> is_answered st \<Longrightarrow> stage_rank st' < stage_rank st"
  by (cases st) (auto split: sum.splits prod.splits option.splits kms_err.splits)

lemma stage_rank_0 [simp]: "stage_rank st = 0 \<longleftrightarrow> is_answered st"
  by (cases st) auto

definition system_rank :: "'d system \<Rightarrow> nat" where
  "system_rank s = sum_list (map (\<lambda>j. stage_rank (th_stage j)) (sy_threads s))"

definition all_done :: "'d system \<Rightarrow> bool" where
  "all_done s \<longleftrightarrow> (\<forall>j\<in>set (sy_threads s). is_answered (th_stage j))"

text \<open>The log of answers names each answered request once.\<close>

definition log_ok :: "'d system \<Rightarrow> bool" where
  "log_ok s \<longleftrightarrow> distinct (map snd (sy_answers s)) \<and>
     set (map snd (sy_answers s)) = {i. i < length (sy_threads s) \<and> is_answered (th_stage (sy_threads s ! i))}"

lemma log_ok_step:
  assumes "log_ok s" "thread_step ops l s s'"
  shows "log_ok s'"
  using assms(2)
proof (cases rule: thread_stepE)
  case (move i now j d)
  with assms(1) have "i \<notin> set (map snd (sy_answers s))" by (simp add: log_ok_def)
  moreover have "{m. m < length (sy_threads s) \<and> is_answered (th_stage ((sy_threads s)[i := j] ! m))} =
      {m. m < length (sy_threads s) \<and> is_answered (th_stage (sy_threads s ! m))} \<union>
      (if is_answered (th_stage j) then {i} else {})"
    using move by (auto simp: nth_list_update)
  ultimately show ?thesis
    using assms(1) move unfolding log_ok_def after_move_def by (auto simp: image_Un)
qed

interpretation thr: protocol "thread_step ops" log_ok system_rank all_done for ops :: "'d store_ops"
proof
  fix s s' :: "'d system" and l
  assume log: "log_ok s"
  show "log_ok s'" if "thread_step ops l s s'" using log_ok_step [OF log that] .
  show "system_rank s' < system_rank s" if "thread_step ops l s s'"
    using that
  proof (cases rule: thread_stepE)
    case (move i now j d)
    with stage_rank_step [OF thread_move_frame(4) [OF move(5)]] show ?thesis
      by (simp add: system_rank_def after_move_def sum_list_update_less)
  qed
  show "\<exists>l s'. thread_step ops l s s'" if "\<not> all_done s"
  proof -
    from that obtain i where i: "i < length (sy_threads s)" "\<not> is_answered (th_stage (sy_threads s ! i))"
      by (auto simp: all_done_def in_set_conv_nth)
    obtain j d where "thread_move ops 0 (sy_threads s ! i) (sy_db s) = (j, d)" by force
    from thread_step.move [OF i this] show ?thesis by blast
  qed
qed

lemma thread_runs_length: "runs (thread_step ops) s ls s' \<Longrightarrow> length (sy_threads s') = length (sy_threads s)"
  by (induction rule: runs.induct) (auto simp: after_move_def elim!: thread_stepE)

lemma log_ok_start: "\<forall>j\<in>set js. \<not> is_answered (th_stage j) \<Longrightarrow> log_ok (start js d)"
  by (auto simp: log_ok_def start_def)

section \<open>What a request has done so far\<close>

text \<open>The operation of the abstract service a thread carries out.\<close>

fun stage_op :: "string \<Rightarrow> bytes \<Rightarrow> int64 \<Rightarrow> stage \<Rightarrow> svc_op option" where
  "stage_op k v x GetValue = Some (OpRead k)"
| "stage_op k v x (GetVersion u) = Some (OpRead k)"
| "stage_op k v x PutValue = Some (OpWrite k v)"
| "stage_op k v x PutVersion = Some (OpWrite k v)"
| "stage_op k v x (PutTime ver) = Some (OpWrite k v)"
| "stage_op k v x DelValue = Some (OpRemove k)"
| "stage_op k v x DelVersion = Some (OpRemove k)"
| "stage_op k v x DelTime = Some (OpRemove k)"
| "stage_op k v x (Answered r) = None"
| "stage_op k v x _ = Some (OpUpdate k v x)"

definition thread_op :: "thread \<Rightarrow> svc_op option" where
  "thread_op j = stage_op (th_key j) (th_value j) (th_expected j) (th_stage j)"

lemma request_thread_op:
  assumes "request_thread rt r = Some j"
  shows "request_op rt r = thread_op j" "fresh (th_stage j)" "0 \<le> sint (th_expected j)" "thread_op j \<noteq> None"
proof -
  have "0 \<le> sint x" if "update_guard r = Some x" for x
    using that expected_version_nonneg by (auto simp: update_guard_def split: if_splits sum.splits)
  with assms have "request_op rt r = thread_op j \<and> fresh (th_stage j) \<and> 0 \<le> sint (th_expected j) \<and> thread_op j \<noteq> None"
    by (cases rt) (auto simp: path_ref_def put_ref_def put_acceptable_def thread_op_def th_key_def fresh_def Let_def
        split: sum.splits option.splits prod.splits if_splits)
  then show "request_op rt r = thread_op j" "fresh (th_stage j)" "0 \<le> sint (th_expected j)" "thread_op j \<noteq> None"
    by blast+
qed

lemma request_threads_fresh:
  assumes "map (\<lambda>(rt, r). request_thread rt r) reqs = map Some js" "j \<in> set js"
  shows "fresh (th_stage j)"
proof -
  from assms have "Some j \<in> set (map (\<lambda>(rt, r). request_thread rt r) reqs)" by simp
  then show ?thesis using request_thread_op(2) by auto
qed

text \<open>No request takes more than four transactions.\<close>

lemma request_runs_length:
  assumes "map (\<lambda>(rt, r). request_thread rt r) reqs = map Some js" "runs (thread_step ops) (start js d) ls s"
  shows "length ls \<le> 4 * length reqs"
proof -
  note fresh = request_threads_fresh [OF assms(1)]
  have "stage_rank (th_stage j) \<le> 4" if "j \<in> set js" for j
    using fresh [OF that] by (auto simp: fresh_def)
  then have "system_rank (start js d) \<le> 4 * length js"
    using sum_list_mono [of js "\<lambda>j. stage_rank (th_stage j)" "\<lambda>j. 4"]
    by (simp add: system_rank_def start_def sum_list_triv)
  moreover have "log_ok (start js d)"
    by (rule log_ok_start) (simp add: fresh_not_answered [OF fresh])
  moreover have "length js = length reqs" using assms(1) by (metis length_map)
  ultimately show ?thesis using thr.run_length [OF assms(2)] by linarith
qed

lemma request_thread_stage:
  "request_thread RGet r = Some j \<Longrightarrow> th_stage j = GetValue"
  "request_thread RPatch r = Some j \<Longrightarrow> th_stage j = PatchCheck"
  "request_thread RDelete r = Some j \<Longrightarrow> th_stage j = DelValue"
  by (auto split: option.splits)

text \<open>
  The cell a request found, as \<open>c\<close>, and the cell as the request has left it so far, as \<open>c'\<close>,
  when nobody else has touched it.
\<close>

fun pending :: "bytes \<Rightarrow> int64 \<Rightarrow> stage \<Rightarrow> cell \<Rightarrow> cell \<Rightarrow> bool" where
  "pending v x (GetVersion u) c c' \<longleftrightarrow> c' = c \<and> ce_value c = Some u"
| "pending v x PutVersion c c' \<longleftrightarrow> c' = c\<lparr>ce_value := Some v\<rparr>"
| "pending v x (PutTime ver) c c' \<longleftrightarrow> ver = ce_version c + 1 \<and> c' = c\<lparr>ce_value := Some v, ce_version := ver\<rparr>"
| "pending v x PatchVersion c c' \<longleftrightarrow> c' = c \<and> ce_value c \<noteq> None"
| "pending v x PatchReread c c' \<longleftrightarrow> c' = c \<and> ce_value c \<noteq> None \<and> x \<noteq> ce_version c"
| "pending v x (PatchValue ver) c c' \<longleftrightarrow>
     ce_value c \<noteq> None \<and> x = ce_version c \<and> ver = ce_version c + 1 \<and> c' = c\<lparr>ce_version := ver\<rparr>"
| "pending v x (PatchTime ver) c c' \<longleftrightarrow>
     ce_value c \<noteq> None \<and> x = ce_version c \<and> ver = ce_version c + 1 \<and>
     c' = c\<lparr>ce_value := Some v, ce_version := ver\<rparr>"
| "pending v x DelVersion c c' \<longleftrightarrow> ce_value c \<noteq> None \<and> c' = c\<lparr>ce_value := None\<rparr>"
| "pending v x DelTime c c' \<longleftrightarrow> ce_value c \<noteq> None \<and> c' = c\<lparr>ce_value := None, ce_version := 0\<rparr>"
| "pending v x st c c' \<longleftrightarrow> c' = c"

lemma pending_fresh: "fresh st \<Longrightarrow> pending v x st c c' \<longleftrightarrow> c' = c"
  by (auto simp: fresh_def)

lemma cell_written: "(c :: cell)\<lparr>ce_value := b, ce_version := v, ce_time := t\<rparr> =
    \<lparr>ce_value = b, ce_version = v, ce_time = t\<rparr>"
  by (cases c) simp

lemma cell_step_op:
  "cell_step now v x st c = (st', c') \<Longrightarrow> \<not> is_answered st \<Longrightarrow> \<not> is_answered st' \<Longrightarrow>
     stage_op k u y st' = stage_op k u y st"
  by (cases st) (auto split: option.splits if_splits)

text \<open>One more transaction: the request is still pending, or it has done its operation.\<close>

lemma pending_step:
  assumes "pending v x st (S k) c" "cell_step now v x st c = (st', c')" "0 \<le> sint x"
    and "stage_op k v x st = Some op" "svc_step now op S = (a, S')"
  shows "if is_answered st' then st' = Answered (render a) \<and> S' = S(k := c')
    else stage_op k v x st' = Some op \<and> \<not> fresh st' \<and> pending v x st' (S k) c'"
proof (cases st)
  case GetValue
  with assms show ?thesis by (auto simp: fresh_def split: option.splits)
next
  case PatchCheck
  with assms show ?thesis by (auto simp: fresh_def split: option.splits)
next
  case DelValue
  with assms show ?thesis by (auto simp: fresh_def split: option.splits)
qed (use assms in \<open>auto simp: fresh_def Let_def empty_cell_def cell_written split: if_splits option.splits\<close>)

section \<open>Requests that do not overlap on a record\<close>

definition record_log :: "string \<Rightarrow> 'd system \<Rightarrow> (int \<times> nat) list" where
  "record_log k s = filter (\<lambda>ti. th_key (sy_threads s ! snd ti) = k) (sy_answers s)"

definition answered_as :: "'d system \<Rightarrow> int \<times> nat \<Rightarrow> svc_answer option \<Rightarrow> bool" where
  "answered_as s ti a \<longleftrightarrow> (\<exists>x. a = Some x \<and> th_stage (sy_threads s ! snd ti) = Answered (render x))"

definition idle :: "string \<Rightarrow> 'd system \<Rightarrow> bool" where
  "idle k s \<longleftrightarrow> (\<forall>j\<in>set (sy_threads s). th_key j = k \<longrightarrow> \<not> under_way j)"

text \<open>
  The service \<open>S\<close> that has executed the answered requests on \<open>k\<close>, and what the request under
  way has done to its cell.
\<close>

definition serial_at :: "string \<Rightarrow> svc_op list \<Rightarrow> service \<Rightarrow> 'd system \<Rightarrow> service \<Rightarrow> cell \<Rightarrow> bool" where
  "serial_at k cmds S0 s S c \<longleftrightarrow>
     (\<exists>as. svc_run (map (\<lambda>(now, i). (now, Some (cmds ! i))) (record_log k s)) S0 = (as, S) \<and>
        list_all2 (answered_as s) (record_log k s) as) \<and>
     (\<forall>j\<in>set (sy_threads s). th_key j = k \<longrightarrow> under_way j \<longrightarrow>
        pending (th_value j) (th_expected j) (th_stage j) (S k) c) \<and>
     (idle k s \<longrightarrow> c = S k)"

definition threads_ok :: "svc_op list \<Rightarrow> 'd system \<Rightarrow> bool" where
  "threads_ok cmds s \<longleftrightarrow> length (sy_threads s) = length cmds \<and>
     (\<forall>i<length cmds. 0 \<le> sint (th_expected (sy_threads s ! i)) \<and>
        (is_answered (th_stage (sy_threads s ! i)) \<or> thread_op (sy_threads s ! i) = Some (cmds ! i)))"

lemma svc_run_snoc:
  "svc_run (xs @ [(now, op)]) S =
     (case svc_run xs S of (as, S1) \<Rightarrow> (case svc_opt now op S1 of (a, S2) \<Rightarrow> (as @ [a], S2)))"
  by (induction xs arbitrary: S) (auto split: prod.splits)

context reliable_store
begin

lemma thread_move_cell:
  assumes "thread_move ops now j d = (j', d')" "well_formed val (view d)"
    and "cell_step now (th_value j) (th_expected j) (th_stage j) (table view val d (th_key j)) = (st, c)"
  shows "th_stage j' = st \<and> well_formed val (view d') \<and> table view val d' = (table view val d)(th_key j := c)"
  using stage_step_cell [OF assms(2) thread_move_frame(4) [OF assms(1)]] assms(3) by (simp add: th_key_def)

lemma threads_ok_step:
  assumes "threads_ok cmds s" "thread_step ops l s s'" "well_formed val (view (sy_db s))"
  shows "threads_ok cmds s'"
  using assms(2)
proof (cases rule: thread_stepE)
  case (move i now j d)
  obtain st c where c: "cell_step now (th_value (sy_threads s ! i)) (th_expected (sy_threads s ! i))
      (th_stage (sy_threads s ! i)) (table view val (sy_db s) (th_key (sy_threads s ! i))) = (st, c)" by force
  note frame = thread_move_frame [OF move(5)]
  have "is_answered (th_stage j) \<or> thread_op j = thread_op (sy_threads s ! i)"
    using cell_step_op [OF c move(4)] thread_move_cell [OF move(5) assms(3) c] frame
    by (auto simp: thread_op_def th_key_def)
  moreover have "thread_op (sy_threads s ! i) = Some (cmds ! i)"
    using assms(1) move(3,4) by (auto simp: threads_ok_def)
  ultimately show ?thesis
    using assms(1) move frame
    by (auto simp: threads_ok_def after_move_def nth_list_update)
qed

lemma serial_at_step:
  assumes "step_apart ops k l s s'" "well_formed val (view (sy_db s))" "threads_ok cmds s"
    and "serial_at k cmds S0 s S (table view val (sy_db s) k)"
  shows "well_formed val (view (sy_db s')) \<and> (\<exists>S'. serial_at k cmds S0 s' S' (table view val (sy_db s') k))"
proof -
  from assms(1) have step: "thread_step ops l s s'" and apart: "th_key (sy_threads s ! snd l) = k \<Longrightarrow> alone s (snd l)"
    by (auto elim: step_apart.cases)
  let ?T = "table view val (sy_db s)"
  from step show ?thesis
  proof (cases rule: thread_stepE)
    case (move i now j d)
    let ?j = "sy_threads s ! i"
    note frame = thread_move_frame [OF move(5)]
    have key: "th_key j = th_key ?j" by (simp add: th_key_def frame)
    have threads: "sy_threads s' = (sy_threads s)[i := j]" "sy_db s' = d"
      "sy_answers s' = sy_answers s @ (if is_answered (th_stage j) then [(now, i)] else [])"
      by (simp_all add: move after_move_def)
    have keys: "th_key (sy_threads s' ! m) = th_key (sy_threads s ! m)" for m
      using key move(3) by (cases "m = i") (simp_all add: threads)
    obtain st c where c: "cell_step now (th_value ?j) (th_expected ?j) (th_stage ?j) (?T (th_key ?j)) = (st, c)" by force
    from thread_move_cell [OF move(5) assms(2) c] have
      eff: "th_stage j = st" "well_formed val (view d)" "table view val d = ?T(th_key ?j := c)" by auto
    from assms(4) obtain as where as: "svc_run (map (\<lambda>(now, i). (now, Some (cmds ! i))) (record_log k s)) S0 = (as, S)"
      "list_all2 (answered_as s) (record_log k s) as"
      and pend: "\<And>j. j \<in> set (sy_threads s) \<Longrightarrow> th_key j = k \<Longrightarrow> under_way j \<Longrightarrow>
          pending (th_value j) (th_expected j) (th_stage j) (S k) (?T k)"
      and idle: "idle k s \<Longrightarrow> ?T k = S k"
      by (auto simp: serial_at_def)
    have kept: "answered_as s ti a \<Longrightarrow> answered_as s' ti a" for ti a
      using move(3,4) by (cases "snd ti = i") (auto simp: answered_as_def threads)
    have as': "list_all2 (answered_as s') (record_log k s) as"
      using as(2) by (rule list_all2_mono) (rule kept)
    show ?thesis
    proof (cases "th_key ?j = k")
      case False
      have log: "record_log k s' = record_log k s"
        using False by (simp add: record_log_def keys) (simp add: threads keys)
      have same: "{m. m < length (sy_threads s) \<and> th_key (sy_threads s' ! m) = k} =
          {m. m < length (sy_threads s) \<and> th_key (sy_threads s ! m) = k}" by (simp add: keys)
      have on_k: "x \<in> set (sy_threads s') \<and> th_key x = k \<longleftrightarrow> x \<in> set (sy_threads s) \<and> th_key x = k" for x
        using False key move(3) unfolding threads
        by (auto simp: in_set_conv_nth nth_list_update)
      have "serial_at k cmds S0 s' S (?T k)"
        unfolding serial_at_def log
        using as(1) as' pend idle on_k by (auto simp: idle_def)
      with eff False show ?thesis by (auto simp: threads)
    next
      case True
      from apart True move have alone: "alone s i" by simp
      have others: "\<not> under_way (sy_threads s ! m)"
        if "m < length (sy_threads s)" "m \<noteq> i" "th_key (sy_threads s ! m) = k" for m
        using alone that True by (auto simp: alone_def)
      have before: "pending (th_value ?j) (th_expected ?j) (th_stage ?j) (S k) (?T k)"
      proof (cases "under_way ?j")
        case True
        with pend move(3) \<open>th_key ?j = k\<close> show ?thesis by simp
      next
        case False
        with others have "idle k s"
          by (auto simp: idle_def in_set_conv_nth) metis
        with idle have "?T k = S k" by simp
        with False move(4) show ?thesis by (simp add: under_way_def pending_fresh)
      qed
      from assms(3) move(3,4) have cmd: "thread_op ?j = Some (cmds ! i)" "0 \<le> sint (th_expected ?j)"
        by (auto simp: threads_ok_def)
      obtain a S' where sv: "svc_step now (cmds ! i) S = (a, S')" by force
      from pending_step [where S = S and k = k, OF before, of now st c "cmds ! i" a S'] c cmd sv True eff(1) frame
      have after: "if is_answered st then st = Answered (render a) \<and> S' = S(k := c)
          else \<not> fresh st \<and> pending (th_value ?j) (th_expected ?j) st (S k) c"
        by (auto simp: thread_op_def split: if_splits)
      have T': "table view val (sy_db s') k = c" using eff(3) True by (simp add: threads)
      have not_other: "\<not> under_way (sy_threads s' ! m)" if "m < length (sy_threads s)" "m \<noteq> i" "th_key (sy_threads s' ! m) = k" for m
        using others [of m] that keys by (simp add: threads)
      show ?thesis
      proof (cases "is_answered st")
        case False
        have log: "record_log k s' = record_log k s"
          using False eff(1) by (simp add: record_log_def keys) (simp add: threads keys)
        have uw: "under_way j" using False after eff(1) by (simp add: under_way_def)
        have "\<not> idle k s'"
          using uw move(3) True key by (auto simp: idle_def threads set_update_memI)
        moreover have "pending (th_value x) (th_expected x) (th_stage x) (S k) c"
          if "x \<in> set (sy_threads s')" "th_key x = k" "under_way x" for x
        proof -
          from that(1) obtain m where m: "m < length (sy_threads s)" "x = sy_threads s' ! m"
            by (auto simp: in_set_conv_nth threads)
          with that not_other have "m = i" by blast
          with m move(3) have "x = j" by (simp add: threads)
          with after False frame eff(1) show ?thesis by simp
        qed
        ultimately have "serial_at k cmds S0 s' S c"
          unfolding serial_at_def log using as(1) as' by blast
        with eff(2) T' show ?thesis by (auto simp: threads)
      next
        case ans: True
        have log: "record_log k s' = record_log k s @ [(now, i)]"
          using ans eff(1) True key move(3) by (simp add: record_log_def keys) (simp add: threads keys)
        have "answered_as s' (now, i) (Some a)"
          using after ans eff(1) move(3) by (simp add: answered_as_def threads)
        with as' have "list_all2 (answered_as s') (record_log k s') (as @ [Some a])"
          by (simp add: log list_all2_appendI)
        moreover have "svc_run (map (\<lambda>(now, i). (now, Some (cmds ! i))) (record_log k s')) S0 = (as @ [Some a], S')"
          using as(1) sv by (simp add: log svc_run_snoc)
        moreover have "\<not> under_way x" if "x \<in> set (sy_threads s')" "th_key x = k" for x
        proof -
          from that(1) obtain m where m: "m < length (sy_threads s)" "x = sy_threads s' ! m"
            by (auto simp: in_set_conv_nth threads)
          show ?thesis
          proof (cases "m = i")
            case True
            with m move(3) ans eff(1) show ?thesis by (simp add: threads under_way_def)
          next
            case False
            with m not_other that show ?thesis by blast
          qed
        qed
        moreover have "S' k = c" using after ans by simp
        ultimately have "serial_at k cmds S0 s' S' c"
          unfolding serial_at_def by blast
        with eff(2) T' show ?thesis by (auto simp: threads)
      qed
    qed
  qed
qed

text \<open>Runs in which the requests on \<open>k\<close> do not overlap.\<close>

lemma runs_apart_serial:
  assumes "runs (step_apart ops k) s ls s'" "well_formed val (view (sy_db s))" "threads_ok cmds s"
    and "serial_at k cmds S0 s S (table view val (sy_db s) k)"
  shows "\<exists>S'. serial_at k cmds S0 s' S' (table view val (sy_db s') k)"
proof -
  let ?I = "\<lambda>s. well_formed val (view (sy_db s)) \<and> threads_ok cmds s \<and>
      (\<exists>S. serial_at k cmds S0 s S (table view val (sy_db s) k))"
  from assms(1) have "?I s'"
  proof (rule runs_invariant [where I = ?I])
    fix l s s'
    assume I: "?I s" and step: "step_apart ops k l s s'"
    then have "thread_step ops l s s'" by (auto elim: step_apart.cases)
    with I have "threads_ok cmds s'" using threads_ok_step by blast
    with I serial_at_step [OF step] show "?I s'" by blast
  qed (use assms in blast)
  then show ?thesis by blast
qed

lemma requests_serial:
  assumes "well_formed val (view d)" "runs (step_apart ops k) (start js d) ls s"
    and js: "map (\<lambda>(rt, r). request_thread rt r) reqs = map Some js"
    and cmds: "map (\<lambda>(rt, r). request_op rt r) reqs = map Some cmds"
  shows "\<exists>S. serial_at k cmds (table view val d) s S (table view val (sy_db s) k)"
proof -
  from js cmds have len: "length js = length reqs" "length cmds = length reqs"
    by (metis length_map)+
  have thread: "fresh (th_stage (js ! i))" "0 \<le> sint (th_expected (js ! i))" "thread_op (js ! i) = Some (cmds ! i)"
    if "i < length reqs" for i
  proof -
    obtain rt r where q: "reqs ! i = (rt, r)" by (cases "reqs ! i")
    with that js len have "request_thread rt r = Some (js ! i)"
      by (metis (mono_tags, lifting) case_prod_conv nth_map)
    moreover from q that cmds len have "request_op rt r = Some (cmds ! i)"
      by (metis (mono_tags, lifting) case_prod_conv nth_map)
    ultimately show "fresh (th_stage (js ! i))" "0 \<le> sint (th_expected (js ! i))" "thread_op (js ! i) = Some (cmds ! i)"
      using request_thread_op [of rt r "js ! i"] by simp_all
  qed
  have "threads_ok cmds (start js d)" using thread len by (simp add: threads_ok_def start_def)
  moreover have "\<not> under_way j" if "j \<in> set js" for j
    using that thread len by (auto simp: in_set_conv_nth under_way_def)
  then have "serial_at k cmds (table view val d) (start js d) (table view val d) (table view val d k)"
    by (auto simp: serial_at_def record_log_def start_def)
  ultimately show ?thesis
    using runs_apart_serial [OF assms(2)] assms(1) by (simp add: start_def)
qed

end

section \<open>Schedules of requests on one record, executed on its cell\<close>

fun cell_run :: "(int \<times> nat) list \<Rightarrow> thread list \<Rightarrow> cell \<Rightarrow> (thread list \<times> cell \<times> (int \<times> nat) list) option" where
  "cell_run [] js c = Some (js, c, [])"
| "cell_run ((now, i) # ls) js c =
     (if i < length js \<and> \<not> is_answered (th_stage (js ! i))
      then (case cell_step now (th_value (js ! i)) (th_expected (js ! i)) (th_stage (js ! i)) c of
          (st, c1) \<Rightarrow> map_option (\<lambda>(js', c', log). (js', c', (if is_answered st then [(now, i)] else []) @ log))
            (cell_run ls (js[i := (js ! i)\<lparr>th_stage := st\<rparr>]) c1))
      else None)"

context reliable_store
begin

lemma cell_run_runs:
  assumes "cell_run ls (sy_threads s) (table view val (sy_db s) k) = Some (js, c, log)"
    and "\<forall>j\<in>set (sy_threads s). th_key j = k" "well_formed val (view (sy_db s))"
  shows "\<exists>s'. runs (thread_step ops) s ls s' \<and> sy_threads s' = js \<and> sy_answers s' = sy_answers s @ log \<and>
     table view val (sy_db s') = (table view val (sy_db s))(k := c)"
  using assms
proof (induction ls arbitrary: s js c log)
  case Nil
  then show ?case by (auto intro!: exI [of _ s])
next
  case (Cons l ls)
  obtain now i where l: "l = (now, i)" by (cases l)
  let ?j = "sy_threads s ! i"
  from Cons.prems(1) l have i: "i < length (sy_threads s)" "\<not> is_answered (th_stage ?j)"
    by (auto split: if_splits)
  obtain st c1 where c1: "cell_step now (th_value ?j) (th_expected ?j) (th_stage ?j) (table view val (sy_db s) k) = (st, c1)"
    by force
  obtain j d where m: "thread_move ops now ?j (sy_db s) = (j, d)" by force
  let ?s = "after_move s now i j d"
  have key: "th_key ?j = k" using Cons.prems(2) i by simp
  have eff: "th_stage j = st" "well_formed val (view d)" "table view val d = (table view val (sy_db s))(k := c1)"
    using thread_move_cell [OF m Cons.prems(3)] c1 key by auto
  have j: "j = ?j\<lparr>th_stage := st\<rparr>" using thread_move_frame [OF m] eff(1) by (cases j) simp
  from Cons.prems(1) l i c1 obtain log1 where
    rest: "cell_run ls (sy_threads ?s) (table view val (sy_db ?s) k) = Some (js, c, log1)"
      "log = (if is_answered st then [(now, i)] else []) @ log1"
    using j eff(3) by (auto simp: after_move_def split: if_splits)
  have "th_key j = k" using key by (simp add: th_key_def j)
  then have "\<forall>j\<in>set (sy_threads ?s). th_key j = k"
    using Cons.prems(2) by (auto simp: after_move_def dest!: set_update_subset_insert [THEN subsetD])
  moreover have "well_formed val (view (sy_db ?s))" using eff(2) by (simp add: after_move_def)
  ultimately obtain s' where s': "runs (thread_step ops) ?s ls s'"
    "sy_threads s' = js" "sy_answers s' = sy_answers ?s @ log1"
    "table view val (sy_db s') = (table view val (sy_db ?s))(k := c)"
    using Cons.IH [OF rest(1)] by blast
  have "runs (thread_step ops) s (l # ls) s'"
    using s'(1) thread_step.move [OF i m] unfolding l by (rule runs_step [rotated])
  with s' rest(2) eff show ?case by (auto simp: after_move_def)
qed

end

section \<open>Schedules executed\<close>

fun sched :: "'d store_ops \<Rightarrow> string \<Rightarrow> (int \<times> nat) list \<Rightarrow> 'd system \<Rightarrow> 'd system option" where
  "sched ops k [] s = Some s"
| "sched ops k ((now, i) # ls) s =
     (if i < length (sy_threads s) \<and> \<not> is_answered (th_stage (sy_threads s ! i)) \<and>
         (th_key (sy_threads s ! i) = k \<longrightarrow> alone s i)
      then (case thread_move ops now (sy_threads s ! i) (sy_db s) of (j, d) \<Rightarrow> sched ops k ls (after_move s now i j d))
      else None)"

lemma sched_runs: "sched ops k ls s = Some s' \<Longrightarrow> runs (step_apart ops k) s ls s'"
proof (induction ls arbitrary: s)
  case (Cons l ls)
  obtain now i where l: "l = (now, i)" by (cases l)
  obtain j d where m: "thread_move ops now (sy_threads s ! i) (sy_db s) = (j, d)" by force
  from Cons.prems l m have i: "i < length (sy_threads s)" "\<not> is_answered (th_stage (sy_threads s ! i))"
    "th_key (sy_threads s ! i) = k \<longrightarrow> alone s i" "sched ops k ls (after_move s now i j d) = Some s'"
    by (auto split: if_splits)
  have "step_apart ops k (now, i) s (after_move s now i j d)"
    using thread_step.move [OF i(1,2) m] i(3) by (intro step_apart.intros) auto
  with Cons.IH [OF i(4)] show ?case unfolding l by (rule runs_step [rotated])
qed (auto intro: runs_refl)

end
