(* ===== verification/Exclusion.thy ===== *)
theory Exclusion
  imports Serial
begin

text \<open>
  The guard of PATCH under any schedule of GET, POST and PATCH requests on any records, on a
  store that may fail: two PATCH requests that expect the same version of one record are not
  both answered with 200, as long as no DELETE of that record resets its counter.
\<close>

section \<open>One transaction and the counter\<close>

definition counter_at :: "(bytes \<Rightarrow> bytes option) \<Rightarrow> string \<Rightarrow> int64 option" where
  "counter_at m k = (case m (version_at k) of None \<Rightarrow> Some 0 | Some b \<Rightarrow> get_u64 b)"

lemma counter_at_record: "counter_at m (rel_key (p, e, n)) = stored_version m p n e"
  by (simp add: counter_at_def stored_version_def record_at)

definition deleting :: "stage \<Rightarrow> bool" where
  "deleting st \<longleftrightarrow> st \<in> {DelValue, DelVersion, DelTime}"

lemma request_thread_deleting: "request_thread rt r = Some j \<Longrightarrow> rt \<noteq> RDelete \<Longrightarrow> \<not> deleting (th_stage j)"
  by (cases rt) (auto simp: deleting_def split: option.splits if_splits)

text \<open>The version a PATCH that expects \<open>x\<close> has obtained, once it is past the guard.\<close>

definition won_at :: "int64 \<Rightarrow> stage \<Rightarrow> int64 option" where
  "won_at x st =
     (case st of
        PatchValue v \<Rightarrow> Some v
      | PatchTime v \<Rightarrow> Some v
      | Answered r \<Rightarrow> (if r = render (Updated (x + 1)) then Some (x + 1) else None)
      | _ \<Rightarrow> None)"

lemma other_answers [simp]:
  "write_json c (message t) \<noteq> render (Updated v)"
  "write_json 200 (JObj ((''secret'', s) # o1)) \<noteq> render (Updated v)"
  "write_json 201 j \<noteq> render (Updated v)" "write_json 409 j \<noteq> render (Updated v)"
  by (auto simp: write_json_def render_def)

context secret_store
begin

lemma stage_step_elsewhere:
  assumes "stage_step ops now p e n v x st d = (st', d')" "k \<noteq> rel_key (p, e, n)"
  shows "counter_at (view d') k = counter_at (view d) k"
proof -
  let ?s = "\<lparr>sec_name = n, sec_path = p, sec_env = e, sec_ciphertext = v\<rparr>"
  from assms(2) have "version_at k \<noteq> version_key p n e" by (simp add: record_at)
  note keep = bump_version_other [OF _ this] delete_version_other [OF prod.collapse [symmetric] this]
    put_other [of _ ?s _ _ "version_at k"] write_mtime_other [of _ _ _ _ _ _ _ "version_at k"]
    delete_mtime_other [OF prod.collapse [symmetric], of "version_at k"] delete_other [of _ _ _ _ _ _ "version_at k"]
  have "view d' (version_at k) = view d (version_at k)"
    using assms(1)
    by (cases st) (auto simp: record_at keep split: sum.splits prod.splits option.splits kms_err.splits)
  then show ?thesis by (simp add: counter_at_def)
qed

lemma stage_step_counter:
  assumes "stage_step ops now p e n v x st d = (st', d')" "0 \<le> sint x" "\<not> deleting st"
    and "won_at x st \<in> {None, Some (x + 1)}"
  shows "\<not> deleting st'"
    and "won_at x st' \<in> {None, won_at x st} \<and> stored_version (view d') p n e = stored_version (view d) p n e \<or>
      won_at x st = None \<and> won_at x st' = None \<and>
        (\<exists>c. stored_version (view d) p n e = Some c \<and> stored_version (view d') p n e = Some (c + 1)) \<or>
      won_at x st = None \<and> won_at x st' = Some (x + 1) \<and>
        stored_version (view d) p n e = Some x \<and> stored_version (view d') p n e = Some (x + 1)"
proof -
  let ?s = "\<lparr>sec_name = n, sec_path = p, sec_env = e, sec_ciphertext = v\<rparr>"
  obtain pe d1 where put: "st_put ops d ?s = (pe, d1)" by (cases "st_put ops d ?s")
  obtain me d2 where time: "write_mtime ops (word_of_int now) d p n e = (me, d2)"
    by (cases "write_mtime ops (word_of_int now) d p n e")
  have bump: "\<exists>ver err d3. bump_version ops d p n e y = (ver, err, d3)" for y
    by (cases "bump_version ops d p n e y") auto
  show "\<not> deleting st'" using assms(1,3)
    by (cases st) (auto simp: deleting_def split: sum.splits prod.splits option.splits kms_err.splits)
  show "won_at x st' \<in> {None, won_at x st} \<and> stored_version (view d') p n e = stored_version (view d) p n e \<or>
      won_at x st = None \<and> won_at x st' = None \<and>
        (\<exists>c. stored_version (view d) p n e = Some c \<and> stored_version (view d') p n e = Some (c + 1)) \<or>
      won_at x st = None \<and> won_at x st' = Some (x + 1) \<and>
        stored_version (view d) p n e = Some x \<and> stored_version (view d') p n e = Some (x + 1)"
  proof (cases st)
    case PutValue
    with assms(1) put put_other_records [OF put] show ?thesis
      by (auto simp: won_at_def split: option.splits)
  next
    case PutVersion
    obtain ver err d3 where b: "bump_version ops d p n e (- 1) = (ver, err, d3)" using bump by blast
    show ?thesis
    proof (cases err)
      case None
      with ver.bump_ok [OF b [unfolded None]] assms(1) b PutVersion show ?thesis by (auto simp: won_at_def)
    next
      case (Some y)
      with ver.bump_err [OF b [unfolded Some]] assms(1) b PutVersion show ?thesis by (auto simp: won_at_def)
    qed
  next
    case (PutTime ver)
    with assms(1) time mtime_other_records(1) [OF time] show ?thesis by (auto simp: won_at_def)
  next
    case PatchVersion
    obtain ver err d3 where b: "bump_version ops d p n e x = (ver, err, d3)" using bump by blast
    show ?thesis
    proof (cases err)
      case None
      with ver.bump_ok [OF b [unfolded None]] assms(1,2) b PatchVersion show ?thesis by (auto simp: won_at_def)
    next
      case (Some y)
      with ver.bump_err [OF b [unfolded Some]] assms(1) b PatchVersion show ?thesis
        by (cases y) (auto simp: won_at_def)
    qed
  next
    case (PatchValue ver)
    with assms(1) put put_other_records [OF put] show ?thesis
      by (auto simp: won_at_def split: option.splits)
  next
    case (PatchTime ver)
    with assms(4) have "ver = x + 1" by (simp add: won_at_def)
    with PatchTime assms(1) time mtime_other_records(1) [OF time] show ?thesis
      by (auto simp: won_at_def render_def)
  qed (use assms in \<open>auto simp: won_at_def deleting_def split: sum.splits\<close>)
qed

end

text \<open>What a PATCH goes through; answered with 200, it reports the version it has obtained.\<close>

fun patching :: "int64 \<Rightarrow> stage \<Rightarrow> bool" where
  "patching x PatchCheck = True"
| "patching x PatchVersion = True"
| "patching x PatchReread = True"
| "patching x (PatchValue v) = (v = x + 1)"
| "patching x (PatchTime v) = (v = x + 1)"
| "patching x (Answered r) = (rs_status r = 200 \<longrightarrow> r = render (Updated (x + 1)))"
| "patching x _ = False"

context secret_store
begin

lemma patching_step:
  assumes "stage_step ops now p e n v x st d = (st', d')" "patching x st" "0 \<le> sint x"
  shows "patching x st'"
proof (cases st)
  case PatchVersion
  obtain ver err d1 where b: "bump_version ops d p n e x = (ver, err, d1)" by (cases "bump_version ops d p n e x")
  show ?thesis
  proof (cases err)
    case None
    with ver.bump_ok [OF b [unfolded None]] assms(1,3) b PatchVersion show ?thesis by auto
  next
    case (Some y)
    with assms(1) b PatchVersion show ?thesis by (cases y) (auto simp: write_json_def)
  qed
qed (use assms in \<open>auto simp: write_json_def render_def split: sum.splits prod.splits option.splits\<close>)

end

section \<open>Schedules\<close>

definition won :: "thread \<Rightarrow> int64 option" where
  "won j = won_at (th_expected j) (th_stage j)"

text \<open>
  The requests on \<open>k\<close> do not delete; the counter has moved \<open>m\<close> steps from \<open>c0\<close>; and the
  requests on \<open>k\<close> past the guard hold different steps among those.
\<close>

definition guarded :: "string \<Rightarrow> thread list \<Rightarrow> bool" where
  "guarded k js \<longleftrightarrow> (\<forall>j\<in>set js. 0 \<le> sint (th_expected j) \<and> (th_key j = k \<longrightarrow> \<not> deleting (th_stage j)))"

definition winners :: "string \<Rightarrow> thread list \<Rightarrow> nat set" where
  "winners k js = {i. i < length js \<and> th_key (js ! i) = k \<and> won (js ! i) \<noteq> None}"

definition won_steps :: "int64 \<Rightarrow> nat \<Rightarrow> string \<Rightarrow> thread list \<Rightarrow> (nat \<Rightarrow> nat) \<Rightarrow> bool" where
  "won_steps c0 m k js f \<longleftrightarrow>
     (\<forall>i\<in>winners k js. f i < m \<and> th_expected (js ! i) = c0 + of_nat (f i) \<and>
        won (js ! i) = Some (th_expected (js ! i) + 1)) \<and>
     inj_on f (winners k js)"

lemma won_steps_mono: "won_steps c0 m k js f \<Longrightarrow> m \<le> m' \<Longrightarrow> won_steps c0 m' k js f"
  by (auto simp: won_steps_def)

lemma won_steps_subset:
  assumes "won_steps c0 m k js f" "winners k js' \<subseteq> winners k js"
    and "\<And>i. i \<in> winners k js' \<Longrightarrow> won (js' ! i) = won (js ! i) \<and> th_expected (js' ! i) = th_expected (js ! i)"
  shows "won_steps c0 m k js' f"
  using assms unfolding won_steps_def by (auto simp: subset_iff intro: inj_on_subset)

context secret_store
begin

lemma won_steps_step:
  assumes "thread_step ops l s s'" "guarded k (sy_threads s)"
    and "counter_at (view (sy_db s)) k = Some (c0 + of_nat m)" "won_steps c0 m k (sy_threads s) f"
  shows "guarded k (sy_threads s') \<and>
    (\<exists>m' f'. m' \<le> Suc m \<and> counter_at (view (sy_db s')) k = Some (c0 + of_nat m') \<and> won_steps c0 m' k (sy_threads s') f')"
  using assms(1)
proof (cases rule: thread_stepE)
  case (move i now j d)
  let ?js = "sy_threads s" and ?j = "sy_threads s ! i"
  note frame = thread_move_frame [OF move(5)]
  have key: "th_key j = th_key ?j" by (simp add: th_key_def frame)
  have s': "sy_threads s' = ?js[i := j]" "sy_db s' = d" by (simp_all add: move after_move_def)
  obtain p e n where ref: "th_ref ?j = (p, e, n)" by (cases "th_ref ?j")
  have keyj: "th_key ?j = rel_key (p, e, n)" by (simp add: th_key_def ref)
  from frame(4) ref have step: "stage_step ops now p e n (th_value ?j) (th_expected ?j) (th_stage ?j) (sy_db s) = (th_stage j, d)"
    by simp
  have j: "?j \<in> set ?js" "0 \<le> sint (th_expected ?j)" using move(3) assms(2) by (auto simp: guarded_def)
  show ?thesis
  proof (cases "th_key ?j = k")
    case False
    have "counter_at (view d) k = counter_at (view (sy_db s)) k"
      using stage_step_elsewhere [OF step] False keyj by simp
    moreover have same: "winners k (?js[i := j]) = winners k ?js"
      using False key move(3) by (auto simp: winners_def nth_list_update)
    have "?js[i := j] ! a = ?js ! a" if "a \<in> winners k ?js" for a
      using that False by (cases "a = i") (simp_all add: winners_def)
    then have "won_steps c0 m k (?js[i := j]) f"
      by (intro won_steps_subset [OF assms(4)]) (simp_all add: same)
    moreover have "guarded k (?js[i := j])"
      using assms(2) j frame False key by (auto simp: guarded_def dest!: set_update_subset_insert [THEN subsetD])
    ultimately show ?thesis using assms(3) by (intro conjI exI [of _ m] exI [of _ f]) (simp_all add: s')
  next
    case True
    have at_k: "counter_at a k = stored_version a p n e" for a
      using True keyj counter_at_record [of a p e n] by simp
    have "won_at (th_expected ?j) (th_stage ?j) \<in> {None, Some (th_expected ?j + 1)}"
      unfolding won_def [symmetric] using assms(4) move(3) True by (auto simp: won_steps_def winners_def)
    moreover have "\<not> deleting (th_stage ?j)" using assms(2) j True by (simp add: guarded_def)
    moreover note stage_step_counter [OF step j(2)]
    ultimately have nd: "\<not> deleting (th_stage j)" and cases:
      "won j \<in> {None, won ?j} \<and> counter_at (view d) k = counter_at (view (sy_db s)) k \<or>
       won ?j = None \<and> won j = None \<and>
         (\<exists>c. counter_at (view (sy_db s)) k = Some c \<and> counter_at (view d) k = Some (c + 1)) \<or>
       won ?j = None \<and> won j = Some (th_expected ?j + 1) \<and>
         counter_at (view (sy_db s)) k = Some (th_expected ?j) \<and> counter_at (view d) k = Some (th_expected ?j + 1)"
      unfolding at_k won_def frame(3) by blast+
    have g: "guarded k (?js[i := j])"
      using assms(2) j frame nd by (auto simp: guarded_def dest!: set_update_subset_insert [THEN subsetD])
    have sub: "won_steps c0 m k (?js[i := j]) f" if "won j \<in> {None, won ?j}"
    proof -
      have "a \<in> winners k ?js \<and> won (?js[i := j] ! a) = won (?js ! a) \<and>
          th_expected (?js[i := j] ! a) = th_expected (?js ! a)" if "a \<in> winners k (?js[i := j])" for a
        using that \<open>won j \<in> {None, won ?j}\<close> key move(3) frame(3)
        by (cases "a = i") (auto simp: winners_def)
      then show ?thesis by (intro won_steps_subset [OF assms(4)]) auto
    qed
    from cases show ?thesis
    proof (elim disjE conjE)
      assume "won j \<in> {None, won ?j}" "counter_at (view d) k = counter_at (view (sy_db s)) k"
      with g sub assms(3) show ?thesis by (intro conjI exI [of _ m] exI [of _ f]) (simp_all add: s')
    next
      assume "won j = None" "\<exists>c. counter_at (view (sy_db s)) k = Some c \<and> counter_at (view d) k = Some (c + 1)"
      with g won_steps_mono [OF sub, of "Suc m"] assms(3) show ?thesis
        by (intro conjI exI [of _ "Suc m"] exI [of _ f]) (auto simp: s' algebra_simps)
    next
      assume w: "won ?j = None" "won j = Some (th_expected ?j + 1)"
        "counter_at (view (sy_db s)) k = Some (th_expected ?j)" "counter_at (view d) k = Some (th_expected ?j + 1)"
      with assms(3) have x: "th_expected ?j = c0 + of_nat m" by simp
      have win: "winners k (?js[i := j]) = insert i (winners k ?js)" "i \<notin> winners k ?js"
        using w True key move(3) by (auto simp: winners_def nth_list_update)
      have "won_steps c0 (Suc m) k (?js[i := j]) (f(i := m))"
        using assms(4) w x win frame move(3) unfolding won_steps_def win
        by (auto simp: nth_list_update inj_on_def)
      with g w x show ?thesis
        by (intro conjI exI [of _ "Suc m"] exI [of _ "f(i := m)"]) (auto simp: s' algebra_simps)
    qed
  qed
qed

lemma won_steps_runs:
  assumes "runs (thread_step ops) s ls s'" "guarded k (sy_threads s)"
    and "counter_at (view (sy_db s)) k = Some (c0 + of_nat m)" "won_steps c0 m k (sy_threads s) f"
  shows "\<exists>m' f'. m' \<le> m + length ls \<and> won_steps c0 m' k (sy_threads s') f'"
  using assms
proof (induction arbitrary: m f rule: runs.induct)
  case (runs_step l s s1 ls s')
  from won_steps_step [OF runs_step.hyps(1) runs_step.prems] obtain m1 f1 where
    "guarded k (sy_threads s1)" "m1 \<le> Suc m" "counter_at (view (sy_db s1)) k = Some (c0 + of_nat m1)"
    "won_steps c0 m1 k (sy_threads s1) f1" by blast
  with runs_step.IH [of m1 f1] obtain m' f' where "m' \<le> m1 + length ls" "won_steps c0 m' k (sy_threads s') f'"
    by blast
  with \<open>m1 \<le> Suc m\<close> show ?case by (intro exI [of _ m'] exI [of _ f']) simp
qed (use le_refl in fastforce)

lemma guard_exclusive:
  assumes "runs (thread_step ops) (start js d) ls s" "guarded k js" "\<forall>j\<in>set js. won j = None"
    and "counter_at (view d) k = Some c0" "length ls < 2 ^ 64"
    and "a \<in> winners k (sy_threads s)" "b \<in> winners k (sy_threads s)"
    and "th_expected (sy_threads s ! a) = th_expected (sy_threads s ! b)"
  shows "a = b"
proof -
  have "won_steps c0 0 k js id" using assms(3) by (auto simp: won_steps_def winners_def)
  with won_steps_runs [OF assms(1), of k c0 0 id] assms(2,4) obtain m f where
    m: "m \<le> length ls" and w: "won_steps c0 m k (sy_threads s) f"
    by (auto simp: start_def)
  have small: "unat (of_nat i :: int64) = i" if "i < m" for i
  proof -
    from that m assms(5) have "i < 2 ^ 64" by linarith
    then show ?thesis by (simp add: unat_of_nat take_bit_nat_eq_self)
  qed
  from w assms(6-8) have f: "f a < m" "f b < m" "(of_nat (f a) :: int64) = of_nat (f b)"
    by (auto simp: won_steps_def)
  from f(3) have "f a = f b" using small [OF f(1)] small [OF f(2)] by metis
  with w assms(6,7) show ?thesis by (auto simp: won_steps_def inj_on_def)
qed

text \<open>A PATCH that is answered with 200 is past the guard.\<close>

lemma patching_runs:
  assumes "runs (thread_step ops) s ls s'" "i < length (sy_threads s)"
    and "patching (th_expected (sy_threads s ! i)) (th_stage (sy_threads s ! i))" "0 \<le> sint (th_expected (sy_threads s ! i))"
  shows "patching (th_expected (sy_threads s' ! i)) (th_stage (sy_threads s' ! i)) \<and>
    th_expected (sy_threads s' ! i) = th_expected (sy_threads s ! i) \<and> th_key (sy_threads s' ! i) = th_key (sy_threads s ! i)"
  using assms
proof (induction rule: runs.induct)
  case (runs_step l s s1 ls s')
  from runs_step.hyps(1) have "patching (th_expected (sy_threads s1 ! i)) (th_stage (sy_threads s1 ! i)) \<and>
      th_expected (sy_threads s1 ! i) = th_expected (sy_threads s ! i) \<and> th_key (sy_threads s1 ! i) = th_key (sy_threads s ! i) \<and>
      length (sy_threads s1) = length (sy_threads s)"
  proof (cases rule: thread_stepE)
    case (move m now j d)
    show ?thesis
    proof (cases "m = i")
      case True
      note frame = thread_move_frame [OF move(5)]
      from patching_step [OF frame(4)] True runs_step.prems move frame show ?thesis
        by (simp add: after_move_def th_key_def)
    next
      case False
      with move runs_step.prems show ?thesis by (simp add: after_move_def)
    qed
  qed
  with runs_step.IH runs_step.prems show ?case by auto
qed simp

end

lemma runs_apart_runs: "runs (step_apart ops k) s ls s' \<Longrightarrow> runs (thread_step ops) s ls s'"
  by (induction rule: runs.induct) (auto elim!: step_apart.cases intro: runs.intros)

end
