(* ===== verification/ThreadsClaims.thy ===== *)
theory ThreadsClaims
  imports Exclusion Demo
begin

text \<open>
  The properties of concurrent requests: the guard of PATCH is exclusive; requests that do not overlap on a
  record are answered as if one after the other; and what overlapping requests can do.
\<close>

section \<open>Requests for the witnesses\<close>

definition demo_patch2 :: request where
  [go_defs]: "demo_patch2 = demo_patch\<lparr>rq_headers := [(''If-Match'', ''2'')]\<rparr>"

definition demo_requests :: "(route \<times> request) list" where
  [go_defs]: "demo_requests =
     [(RPut, demo_put), (RGet, demo_get), (RPut, demo_put_ns), (RPatch, demo_patch), (RPatch, demo_patch2), (RDelete, demo_del)]"

definition demo_thread :: "string \<Rightarrow> string \<Rightarrow> int64 \<Rightarrow> stage \<Rightarrow> thread" where
  [go_defs]: "demo_thread p v x st = \<lparr>th_ref = (p, ''prod'', ''n''), th_value = v, th_expected = x, th_stage = st\<rparr>"

definition demo_threads :: "thread list" where
  [go_defs]: "demo_threads =
     [demo_thread ''p'' ''v1'' 0 PutValue, demo_thread ''p'' '''' 0 GetValue, demo_thread ''brand/acme'' ''v1'' 0 PutValue,
      demo_thread ''p'' ''v2'' 1 PatchCheck, demo_thread ''p'' ''v2'' 2 PatchCheck, demo_thread ''p'' '''' 0 DelValue]"

definition demo_cmds :: "svc_op list" where
  [go_defs]: "demo_cmds =
     [OpWrite ''p/prod/n'' ''v1'', OpRead ''p/prod/n'', OpWrite ''brand/acme/prod/n'' ''v1'', OpUpdate ''p/prod/n'' ''v2'' 1,
      OpUpdate ''p/prod/n'' ''v2'' 2, OpRemove ''p/prod/n'']"

lemma demo_requests_threads: "map (\<lambda>(rt, r). request_thread rt r) demo_requests = map Some demo_threads"
  by code_simp

lemma demo_requests_ops: "map (\<lambda>(rt, r). request_op rt r) demo_requests = map Some demo_cmds"
  by code_simp

text \<open>The threads of single requests.\<close>

lemma demo_request_thread:
  "request_thread RGet demo_get = Some (demo_thread ''p'' '''' 0 GetValue)"
  "request_thread RPatch demo_patch = Some (demo_thread ''p'' ''v2'' 1 PatchCheck)"
  "request_thread RPatch demo_patch2 = Some (demo_thread ''p'' ''v2'' 2 PatchCheck)"
  "request_thread RDelete demo_del = Some (demo_thread ''p'' '''' 0 DelValue)"
  by code_simp+

text \<open>A database with one record, of version 1.\<close>

definition demo_record :: mem where
  "demo_record = [(value_at ''p/prod/n'', ''v1''), (version_at ''p/prod/n'', put_u64 1)]"

lemma demo_record_formed: "well_formed Some (mem_view demo_record)"
proof -
  have "well_formed Some (\<lambda>k. None)" by (simp add: well_formed_def)
  then have "well_formed Some ((\<lambda>k. None)(version_at ''p/prod/n'' \<mapsto> put_u64 1, value_at ''p/prod/n'' \<mapsto> ''v1''))"
    by (intro well_formed_set) simp_all
  then show ?thesis by (simp add: demo_record_def mem_view_def)
qed

lemma demo_record_cell:
  "ce_value (table_of Some (mem_view demo_record) ''p/prod/n'') = Some ''v1''"
  "ce_version (table_of Some (mem_view demo_record) ''p/prod/n'') = 1"
  by (simp_all add: table_of_def demo_record_def mem_view_def)

section \<open>Every request is answered\<close>

text \<open>Whatever order the transactions of concurrent GET, POST, PATCH and DELETE requests run
  in, and whether the store fails or not, at most four transactions per request happen,
  any schedule can go on until all requests are answered, and each request is answered once.\<close>

lemma requests_are_answered:
  assumes "map (\<lambda>(rt, r). request_thread rt r) reqs = map Some js" "runs (thread_step ops) (start js d) ls s"
  shows "length ls \<le> 4 * length reqs \<and>
    (\<exists>ls' s'. runs (thread_step ops) s ls' s' \<and> all_done s' \<and>
       distinct (map snd (sy_answers s')) \<and> set (map snd (sy_answers s')) = {0..<length reqs})"
proof -
  from assms(1) have len: "length js = length reqs" by (metis length_map)
  have log: "log_ok s"
    by (rule thr.run_inv [OF assms(2) log_ok_start])
      (simp add: fresh_not_answered [OF request_threads_fresh [OF assms(1)]])
  from thr.can_finish [OF log] obtain ls' s' where run: "runs (thread_step ops) s ls' s'" and fin: "all_done s'"
    by blast
  have "length (sy_threads s') = length js"
    using thread_runs_length [OF run] thread_runs_length [OF assms(2)] by (simp add: start_def)
  with thr.run_inv [OF run log] fin len have "distinct (map snd (sy_answers s'))"
    "set (map snd (sy_answers s')) = {0..<length reqs}"
    by (auto simp: log_ok_def all_done_def)
  with request_runs_length [OF assms] run fin show ?thesis by blast
qed

section \<open>The guard of PATCH\<close>

text \<open>C8: compare-and-set is exclusive.  Whatever order the transactions of concurrent GET, POST
  and PATCH requests run in, and whether the store fails or not, two PATCH requests that expect
  the same version of one record are not both answered with 200, as long as no DELETE of the
  record is among the requests.\<close>

theorem concurrent_guard_exclusive:
  assumes "secret_store ops view val" "length reqs < 2 ^ 62"
    and js: "map (\<lambda>(rt, r). request_thread rt r) reqs = map Some js"
    and no_del: "\<forall>i<length reqs. th_key (js ! i) = k \<longrightarrow> fst (reqs ! i) \<noteq> RDelete"
    and "counter_at (view d) k = Some c0" "runs (thread_step ops) (start js d) ls s"
    and ab: "a < length reqs" "fst (reqs ! a) = RPatch" "th_key (js ! a) = k"
      "b < length reqs" "fst (reqs ! b) = RPatch" "th_key (js ! b) = k"
    and "th_expected (js ! a) = th_expected (js ! b)"
    and "th_stage (sy_threads s ! a) = Answered ra" "rs_status ra = 200"
    and "th_stage (sy_threads s ! b) = Answered rb" "rs_status rb = 200"
  shows "a = b"
proof -
  have len: "length js = length reqs" using js by (metis length_map)
  have thread: "request_thread (fst (reqs ! i)) (snd (reqs ! i)) = Some (js ! i)" if "i < length reqs" for i
    using that js len by (metis (no_types, lifting) case_prod_beta nth_map)
  have fresh: "fresh (th_stage (js ! i)) \<and> 0 \<le> sint (th_expected (js ! i)) \<and> won (js ! i) = None" if "i < length reqs" for i
    using request_thread_op(2,3) [OF thread [OF that]] by (auto simp: fresh_def won_def won_at_def)
  have "\<not> deleting (th_stage (js ! i))" if "i < length reqs" "th_key (js ! i) = k" for i
    using request_thread_deleting [OF thread [OF that(1)]] no_del that by blast
  with fresh len have g: "guarded k js" "\<forall>j\<in>set js. won j = None"
    by (auto simp: guarded_def in_set_conv_nth)
  have "length ls \<le> 4 * length reqs" using request_runs_length [OF js assms(6)] .
  with assms(2) have short: "length ls < 2 ^ 64" by simp
  have wins: "i \<in> winners k (sy_threads s) \<and> th_expected (sy_threads s ! i) = th_expected (js ! i)"
    if i: "i < length reqs" "fst (reqs ! i) = RPatch" "th_key (js ! i) = k"
      and r: "th_stage (sy_threads s ! i) = Answered r" "rs_status r = 200" for i r
  proof -
    have "th_stage (js ! i) = PatchCheck" using thread [OF i(1)] i(2) request_thread_stage(2) by simp
    with secret_store.patching_runs [OF assms(1,6), of i] fresh [OF i(1)] i len r
    have "r = render (Updated (th_expected (js ! i) + 1))" "th_expected (sy_threads s ! i) = th_expected (js ! i)"
      "th_key (sy_threads s ! i) = k" by (auto simp: start_def)
    moreover have "i < length (sy_threads s)" using thread_runs_length [OF assms(6)] i(1) len by (simp add: start_def)
    ultimately show ?thesis using r(1) by (simp add: winners_def won_def won_at_def)
  qed
  from secret_store.guard_exclusive [OF assms(1,6) g assms(5) short] wins [OF ab(1-3) assms(14,15)] wins [OF ab(4-6) assms(16,17)]
    assms(13)
  show ?thesis by simp
qed

text \<open>Two PATCH requests check, then both try the guard.\<close>

definition demo_race :: "mem system option" where
  "demo_race = sched mem_ops '''' [(5, 0), (5, 1), (5, 0), (5, 1), (6, 0), (6, 1), (7, 0)]
     (start [demo_thread ''p'' ''v2'' 1 PatchCheck, demo_thread ''p'' ''v2'' 1 PatchCheck] demo_record)"

theorem concurrent_guard_exclusive_witness:
  "\<exists>s r. demo_race = Some s \<and> th_stage (sy_threads s ! 1) = Answered r \<and> rs_status r \<noteq> 200"
proof -
  let ?j = "demo_thread ''p'' ''v2'' 1 PatchCheck"
  have run: "map_option (\<lambda>s. (th_stage (sy_threads s ! 0), is_answered (th_stage (sy_threads s ! 1)))) demo_race =
      Some (Answered (render (Updated 2)), True)" by code_simp
  then obtain s where s: "demo_race = Some s" "th_stage (sy_threads s ! 0) = Answered (render (Updated 2))"
    "is_answered (th_stage (sy_threads s ! 1))" by blast
  then obtain r where r: "th_stage (sy_threads s ! 1) = Answered r" by (cases "th_stage (sy_threads s ! 1)") auto
  have reqs: "map (\<lambda>(rt, r). request_thread rt r) [(RPatch, demo_patch), (RPatch, demo_patch)] = map Some [?j, ?j]"
    using demo_request_thread(2) by simp
  have c: "counter_at (mem_view demo_record) ''p/prod/n'' = Some 1"
    by (simp add: counter_at_def demo_record_def mem_view_def u64.dec_enc)
  have key: "th_key ?j = ''p/prod/n''" by (simp add: th_key_def demo_thread_def rel_key_def)
  have ok: "rs_status (render (Updated 2)) = 200" by (simp add: render_def write_json_def)
  have steps: "runs (thread_step mem_ops) (start [?j, ?j] demo_record)
      [(5, 0), (5, 1), (5, 0), (5, 1), (6, 0), (6, 1), (7, 0)] s"
    using s(1) unfolding demo_race_def by (rule sched_runs [THEN runs_apart_runs])
  have "rs_status r \<noteq> 200"
  proof
    assume "rs_status r = 200"
    with concurrent_guard_exclusive [OF mem.secret_store_axioms _ reqs _ c steps, of 0 1 "render (Updated 2)" r] s(2) r key ok
    show False by (simp add: less_Suc_eq nth_Cons')
  qed
  with s(1) r show ?thesis by blast
qed

section \<open>Requests that do not overlap\<close>

text \<open>C9: on a store that does not fail, take any schedule of GET, POST, PATCH and DELETE
  requests in which no two requests on the record \<open>k\<close> overlap; requests on other records may.
  Then the requests on \<open>k\<close> are answered as the abstract service answers their operations one
  after the other, in the order of their answers, and while none of them is under way the
  record holds what the service holds.\<close>

theorem requests_serialise_per_record:
  assumes "reliable_store ops view val" "well_formed val (view d)"
    and "map (\<lambda>(rt, r). request_thread rt r) reqs = map Some js"
    and "map (\<lambda>(rt, r). request_op rt r) reqs = map Some cmds"
    and "runs (step_apart ops k) (start js d) ls s"
  shows "\<exists>as S. svc_run (map (\<lambda>(now, i). (now, Some (cmds ! i))) (record_log k s)) (table_of val (view d)) = (as, S) \<and>
    list_all2 (answered_as s) (record_log k s) as \<and>
    (idle k s \<longrightarrow> table_of val (view (sy_db s)) k = S k)"
  using reliable_store.requests_serial [OF assms(1,2,5,3,4)] by (auto simp: serial_at_def)

text \<open>A POST of one record runs in between the POST and the GET of another.\<close>

definition demo_order :: "(int \<times> nat) list" where
  "demo_order = [(5, 0), (5, 2), (5, 0), (6, 2), (6, 0), (7, 1), (8, 2), (8, 1)]"

theorem requests_serialise_per_record_witness:
  "\<exists>s. runs (step_apart mem_ops ''p/prod/n'') (start demo_threads []) demo_order s \<and>
     th_stage (sy_threads s ! 0) = Answered (render (Accepted 1)) \<and>
     th_stage (sy_threads s ! 1) = Answered (render (Value ''v1'' 1))"
proof -
  let ?k = "''p/prod/n''"
  let ?r = "sched mem_ops ?k demo_order (start demo_threads [])"
  have log: "map_option (record_log ?k) ?r = Some [(6, 0), (8, 1)]" by code_simp
  then obtain s where s: "?r = Some s" "record_log ?k s = [(6, 0), (8, 1)]" by blast
  have empty: "table_of Some (mem_view []) = (\<lambda>k. empty_cell)"
    by (rule ext) (simp add: table_of_def mem_view_def empty_cell_def)
  have "well_formed Some (mem_view [])" by (simp add: well_formed_def mem_view_def)
  from requests_serialise_per_record [OF mem.reliable_store_axioms this demo_requests_threads demo_requests_ops sched_runs [OF s(1)]]
  have "answered_as s (6, 0) (Some (Accepted 1)) \<and> answered_as s (8, 1) (Some (Value ''v1'' 1))"
    by (auto simp: s(2) empty empty_cell_def demo_cmds_def Let_def)
  then show ?thesis using sched_runs [OF s(1)] by (auto simp: answered_as_def)
qed

section \<open>Requests that overlap\<close>

text \<open>C10: a read is two transactions.  A GET that overlaps a PATCH can answer the old value
  with the new version; a reader that then updates under that version passes the guard, and
  replaces a value it has never seen.\<close>

theorem stale_read_passes_guard:
  assumes "reliable_store ops view val" "well_formed val (view d)"
    and "request_thread RGet rg = Some g" "request_thread RPatch ru = Some u" "request_thread RPatch rw = Some w"
    and "th_key g = k" "th_key u = k" "th_key w = k"
    and "ce_value (table_of val (view d) k) = Some v0" "ce_version (table_of val (view d) k) = th_expected u"
    and "th_expected w = th_expected u + 1"
  shows "\<exists>ls s. runs (thread_step ops) (start [g, u, w] d) ls s \<and> map snd (sy_answers s) = [1, 0, 2] \<and>
    map th_stage (sy_threads s) =
      [Answered (render (Value v0 (th_expected w))), Answered (render (Updated (th_expected w))),
       Answered (render (Updated (th_expected w + 1)))] \<and>
    ce_value (table_of val (view (sy_db s)) k) = Some (th_value w)"
proof -
  let ?ls = "[(0, 0), (0, 1), (0, 1), (0, 1), (0, 1), (0, 0), (0, 2), (0, 2), (0, 2), (0, 2)] :: (int \<times> nat) list"
  let ?c = "table_of val (view d) k" and ?y = "th_expected w" and ?s = "start [g, u, w] d"
  have stages: "th_stage g = GetValue" "th_stage u = PatchCheck" "th_stage w = PatchCheck"
    using assms(3-5) by (auto simp: request_thread_stage)
  have "cell_run ?ls (sy_threads ?s) (table_of val (view (sy_db ?s)) k) =
      Some ([g\<lparr>th_stage := Answered (render (Value v0 ?y))\<rparr>, u\<lparr>th_stage := Answered (render (Updated ?y))\<rparr>,
             w\<lparr>th_stage := Answered (render (Updated (?y + 1)))\<rparr>],
            ?c\<lparr>ce_value := Some (th_value w), ce_version := ?y + 1, ce_time := 0\<rparr>, [(0, 1), (0, 0), (0, 2)])"
    using assms(9-11) by (simp add: start_def stages numeral_2_eq_2)
  from reliable_store.cell_run_runs [OF assms(1) this] assms(2,6-8) obtain s' where
    "runs (thread_step ops) ?s ?ls s'"
    "sy_threads s' = [g\<lparr>th_stage := Answered (render (Value v0 ?y))\<rparr>, u\<lparr>th_stage := Answered (render (Updated ?y))\<rparr>,
             w\<lparr>th_stage := Answered (render (Updated (?y + 1)))\<rparr>]"
    "sy_answers s' = [(0, 1), (0, 0), (0, 2)]"
    "ce_value (table_of val (view (sy_db s')) k) = Some (th_value w)"
    by (auto simp: start_def)
  then show ?thesis by (intro exI [of _ ?ls] exI [of _ s']) simp
qed

theorem stale_read_passes_guard_witness:
  "\<exists>ls s. runs (thread_step mem_ops)
       (start [demo_thread ''p'' '''' 0 GetValue, demo_thread ''p'' ''v2'' 1 PatchCheck, demo_thread ''p'' ''v2'' 2 PatchCheck]
          demo_record) ls s \<and>
     th_stage (sy_threads s ! 0) = Answered (render (Value ''v1'' 2)) \<and>
     th_stage (sy_threads s ! 2) = Answered (render (Updated 3))"
proof -
  from stale_read_passes_guard [OF mem.reliable_store_axioms demo_record_formed demo_request_thread(1,2,3), of "''p/prod/n''" "''v1''"]
  show ?thesis by (force simp: demo_record_cell demo_thread_def th_key_def rel_key_def)
qed



end
