(* ===== verification/Hosting.thy ===== *)
theory Hosting
  imports Lifecycle Service
begin

text \<open>
  From boot to the last request: the handler a booted server hands out, the state it starts
  with, and what stays true of its verification contract over any history of requests.
\<close>

section \<open>The handler of a handle\<close>

text \<open>The server with the routes that were registered at boot.\<close>

definition hosted :: "handle \<Rightarrow> ('d, 'm, 'rot) server \<Rightarrow> ('d, 'm, 'rot) server" where
  [go_defs]: "hosted h sv = sv\<lparr>sv_keys_on := em_keys_on h\<rparr>"

text \<open>\<^verbatim>\<open>HTTPHandler\<close>; a nil handle answers 404 to everything.\<close>

definition http_handler ::
    "handle option \<Rightarrow> ('d, 'm, 'rot) server \<Rightarrow> int \<Rightarrow> string list \<Rightarrow> request \<Rightarrow> 'd world \<times> 'm \<Rightarrow> response \<times> 'd world \<times> 'm" where
  [go_defs]: "http_handler e sv now segs r s =
     (case e of
        None \<Rightarrow> (not_found_page, s)
      | Some h \<Rightarrow> server_handle (hosted h sv) now segs r s)"

text \<open>\<^verbatim>\<open>zapdbLogger\<close>: the database's log calls at the server's levels.\<close>

datatype db_log_call = Errorf | Warningf | Infof | Debugf

datatype log_level = LogError | LogWarn | LogInfo | LogDebug

fun zapdb_log :: "(string \<Rightarrow> 'v list \<Rightarrow> string) \<Rightarrow> db_log_call \<Rightarrow> string \<Rightarrow> 'v list \<Rightarrow> log_level \<times> string" where
  "zapdb_log sprintf Errorf format args = (LogError, sprintf format args)"
| "zapdb_log sprintf Warningf format args = (LogWarn, sprintf format args)"
| "zapdb_log sprintf Infof format args = (LogInfo, sprintf format args)"
| "zapdb_log sprintf Debugf format args = (LogDebug, sprintf format args)"

section \<open>Only verification moves the verification state\<close>

definition auth_move :: "'d platform \<Rightarrow> int \<Rightarrow> auth_state \<Rightarrow> auth_state \<Rightarrow> bool" where
  "auth_move pf now st st' \<longleftrightarrow>
     st' = st \<or> (\<exists>h x. verify_jwt (pf_parse pf) (pf_fetch pf) now h st = (x, st'))"

lemma authorize_move: "authorize pf now r w = (x, w1) \<Longrightarrow> auth_move pf now (w_auth w) (w_auth w1)"
  by (auto simp: authorize_def auth_move_def split: prod.splits sum.splits)

lemma body_auth:
  assumes "secret_body pf now rt = Some body"
  shows "w_auth (snd (body c r w)) = w_auth w"
proof -
  have "w_auth (snd (patch_update pf now c p n e v x r w)) = w_auth w" for p n e v x
    by (auto simp: patch_update_def Let_def split: sum.splits prod.splits option.splits kms_err.splits)
  then have "w_auth (snd (patch_body pf now c r w)) = w_auth w"
    by (auto simp: patch_body_def Let_def split: sum.splits prod.splits)
  with assms show ?thesis
    by (auto elim!: secret_bodyE simp: get_body_def put_body_def del_body_def list_body_def Let_def
        split: sum.splits prod.splits option.splits)
qed

lemma gate_move:
  fixes body :: "jwt_claims \<Rightarrow> 'd handler"
  assumes "\<And>c r w. w_auth (snd (body c r w)) = w_auth w"
  shows "auth_move pf now (w_auth w) (w_auth (snd (org_gate pf now body r w)))"
proof -
  obtain x w1 where a: "authorize pf now r w = (x, w1)" by (cases "authorize pf now r w")
  with authorize_move [OF a] assms show ?thesis by (cases x) (simp_all add: org_gate_def)
qed

lemma admin_move:
  assumes "\<And>r s. w_auth (fst (snd (h r s))) = w_auth (fst s)"
  shows "auth_move pf now (w_auth (fst s)) (w_auth (fst (snd (admin_only pf now h r s))))"
proof -
  obtain x w1 where a: "authorize pf now r (fst s) = (x, w1)" by (cases "authorize pf now r (fst s)")
  with authorize_move [OF a] assms show ?thesis by (cases x) (simp_all add: admin_only_def)
qed

lemma env_move: "auth_move pf now (w_auth w) (w_auth (snd (env_secret pf now E r w)))"
proof -
  obtain x w1 where a: "authorize pf now r w = (x, w1)" by (cases "authorize pf now r w")
  with authorize_move [OF a] show ?thesis by (cases x) (simp_all add: env_secret_def Let_def)
qed

lemma on_world_snd: "fst (snd (on_world h r s)) = snd (h r (fst s))"
  by (simp add: on_world_def split: prod.split)

lemma route_move: "auth_move (sv_pf sv) now (w_auth (fst s)) (w_auth (fst (snd (run_route sv now rt r s))))"
proof (cases "secret_body (sv_pf sv) now rt")
  case (Some body)
  then have "run_route sv now rt r s = on_world (org_gate (sv_pf sv) now body) r s"
    using run_secret_op [of sv now rt "org_gate (sv_pf sv) now body" r s] by (simp add: secret_op_body)
  with gate_move [where body = body and pf = "sv_pf sv" and now = now and w = "fst s" and r = r, OF body_auth [OF Some]]
  show ?thesis by (simp add: on_world_snd)
next
  case None
  have id: "auth_move (sv_pf sv) now st st" for st by (simp add: auth_move_def)
  from None id show ?thesis
    by (cases rt) (auto simp: on_world_snd on_keys_def audit_stats_body_def
        intro!: env_move admin_move split: prod.splits)
qed

lemma server_move:
  "server_handle sv now segs r s = (resp, s') \<Longrightarrow> auth_move (sv_pf sv) now (w_auth (fst s)) (w_auth (fst s'))"
  using server_routed [of sv now segs r s] route_move [of sv now s]
  by (auto simp: auth_move_def split: option.splits prod.splits) (metis fst_conv snd_conv)+

section \<open>The contract over a history\<close>

text \<open>What a configuration fixes, and every history keeps.\<close>

definition contract :: "fetcher \<Rightarrow> int \<Rightarrow> string \<Rightarrow> string \<Rightarrow> string \<Rightarrow> auth_state \<Rightarrow> bool" where
  "contract fetch now iss aud url st \<longleftrightarrow>
     as_issuer st = Some iss \<and> as_audience st = Some aud \<and>
     (\<exists>c. as_jwks st = Some c \<and> jc_url c = url \<and> cache_inv fetch now c)"

lemma contract_later: "contract fetch now iss aud url st \<Longrightarrow> now \<le> now' \<Longrightarrow> contract fetch now' iss aud url st"
  by (auto simp: contract_def intro: cache_inv_later)

lemma contract_boot:
  assumes "embed_configure E cfg0 = Inr (cfg, st)" "0 \<le> now"
  shows "contract fetch now (expected_issuer cfg) (expected_audience cfg) (ac_jwks_url (embed_auth cfg)) st"
  using configured_auth [OF assms(1)] assms cache_inv_new [OF assms(2)]
  by (auto simp: contract_def embed_configure_Inr apply_auth_config_def embed_auth_def new_jwks_cache_def)

context jwt_library
begin

lemma verify_jwt_url:
  assumes "verify_jwt parse fetch now h st = (x, st')" "as_jwks st = Some c" "as_jwks st' = Some c'"
  shows "jc_url c' = jc_url c"
proof -
  have "jc_url c2 = jc_url c1" if "parse al raw now (key_for fetch now) c1 = (y, c2)" for al raw y c1 c2
    using parse_cache [OF that] by (auto simp: key_for_url)
  with assms show ?thesis
    by (auto simp: verify_jwt_def split: sum.splits option.splits if_splits prod.splits)
qed

lemma contract_verify:
  assumes "contract fetch now iss aud url st" "verify_jwt parse fetch now h st = (x, st')"
  shows "contract fetch now iss aud url st'"
proof -
  from assms(1) obtain c where c: "as_jwks st = Some c" "jc_url c = url" "cache_inv fetch now c"
    by (auto simp: contract_def)
  from verify_jwt_cache_inv [OF assms(2) c(1,3)] obtain c' where
    "as_jwks st' = Some c'" "cache_inv fetch now c'" by blast
  with verify_jwt_url [OF assms(2) c(1)] verify_jwt_frame [OF assms(2)] assms(1) c(2) show ?thesis
    by (auto simp: contract_def)
qed

lemma contract_run:
  assumes "pf_parse (sv_pf sv) = parse" "contract (pf_fetch (sv_pf sv)) t0 iss aud url (w_auth (fst s))"
    and "sorted (t0 # map fst rs)" "server_run sv rs s = (resps, s')"
  shows "contract (pf_fetch (sv_pf sv)) (last (t0 # map fst rs)) iss aud url (w_auth (fst s'))"
  using assms(2-)
proof (induction rs arbitrary: t0 s resps)
  case (Cons q rs)
  obtain now segs r where q: "q = (now, segs, r)" by (cases q)
  obtain resp s1 where h: "server_handle sv now segs r s = (resp, s1)" by (cases "server_handle sv now segs r s")
  from Cons.prems(2) q have "t0 \<le> now" by simp
  from contract_later [OF Cons.prems(1) this]
  have "contract (pf_fetch (sv_pf sv)) now iss aud url (w_auth (fst s))" .
  with server_move [OF h] assms(1) contract_verify
  have "contract (pf_fetch (sv_pf sv)) now iss aud url (w_auth (fst s1))"
    unfolding auth_move_def by metis
  moreover obtain resps1 where "server_run sv rs s1 = (resps1, s')"
    using Cons.prems(3) q h by (auto split: prod.splits)
  ultimately show ?case using Cons.IH [of now s1 resps1] Cons.prems(2) q by simp
qed simp

end

lemma verified_claims_verify:
  "verified_claims pf now r w = Some c \<Longrightarrow>
     \<exists>st'. verify_jwt (pf_parse pf) (pf_fetch pf) now (header_get (rq_headers r) ''Authorization'') (w_auth w) = (Inr c, st')"
  by (auto simp: verified_claims_def authorize_def split: sum.splits prod.splits)

end
