(* ===== verification/HostingClaims.thy ===== *)
theory HostingClaims
  imports Hosting Demo
begin

text \<open>The property that spans boot, token verification, routing and the handlers.\<close>

text \<open>What the operator configured: the given setting, or the environment's where none is given.\<close>

definition operator_issuer :: "environ \<Rightarrow> embed_config \<Rightarrow> string" where
  "operator_issuer E cfg =
     (if expected_issuer cfg \<noteq> '''' then expected_issuer cfg else trim_space (E ''IAM_ISSUER''))"

definition operator_audience :: "environ \<Rightarrow> embed_config \<Rightarrow> string" where
  "operator_audience E cfg =
     (if expected_audience cfg \<noteq> '''' then expected_audience cfg else trim_space (E ''IAM_AUDIENCE''))"

definition operator_keys_url :: "environ \<Rightarrow> embed_config \<Rightarrow> string" where
  "operator_keys_url E cfg =
     (if jwt_key_source cfg \<noteq> '''' then jwt_key_source cfg
      else if jwks_url cfg \<noteq> '''' then jwks_url cfg
      else trim_space (E ''IAM_KEYS_URL''))"

lemma operator_config:
  assumes "embed_configure E cfg0 = Inr (cfg, st)"
  shows "expected_issuer cfg = operator_issuer E cfg0" "expected_audience cfg = operator_audience E cfg0"
    "ac_jwks_url (embed_auth cfg) = operator_keys_url E cfg0"
proof -
  from assms have "cfg = apply_embed_defaults E cfg0"
    by (auto simp: embed_configure_def Let_def split: option.splits)
  then show "expected_issuer cfg = operator_issuer E cfg0" "expected_audience cfg = operator_audience E cfg0"
    "ac_jwks_url (embed_auth cfg) = operator_keys_url E cfg0"
    by (simp_all add: apply_embed_defaults_def or_default_def embed_auth_def
        operator_issuer_def operator_audience_def operator_keys_url_def)
qed

text \<open>C3: from boot to effect.  Take a server that booted from any environment, and any history
  of requests with a clock that does not run backwards, while the identity provider may change
  what it serves at any time.  If the next request changes the database or the key manager,
  then it carried a bearer token; the token the JWT library reads off its text has a valid
  signature, under one of the ten asymmetric
  algorithms and an RSA signature key that the configured key-set URL served less than fifteen
  minutes earlier; the token's issuer is one of the configured issuers (up to surrounding space
  and trailing slashes), its audience contains one of the configured audiences, it has an
  expiry and that lies in the future; and its holder is an administrator or the owner of the
  org in the URL.  Nothing an earlier request did weakens that.\<close>

theorem booted_effect_needs_authority:
  assumes "jwt_library (pf_parse (sv_pf sv)) sig_ok date_of"
    and "embed host_of be authorizer E cfg0 = (Booted h (w_auth (fst start)), got)"
    and "server_run (hosted h sv) rs start = (resps, s)" "sorted (0 # map fst rs @ [now])"
    and "http_handler (Some h) sv now segs r s = (resp, s')"
    and "w_db (fst s') \<noteq> w_db (fst s) \<or> snd s' \<noteq> snd s"
  shows "\<exists>c raw (tok :: jwt_token) alg kid key t mc v d.
     bearer_token (header_get (rq_headers r) ''Authorization'') = Inr raw \<and>
     parsed_as (pf_parse (sv_pf sv)) raw now tok \<and> sig_ok raw alg key \<and> tok_alg tok = Some alg \<and> alg \<in> {''RS256'', ''RS384'', ''RS512'', ''ES256'', ''ES384'', ''ES512'',
       ''PS256'', ''PS384'', ''PS512'', ''EdDSA''} \<and>
     map_of (tok_header tok) ''kid'' = Some (JStr kid) \<and>
     served_at (pf_fetch (sv_pf sv)) (operator_keys_url E cfg0) t kid key \<and>
     now - 15 * 60 * 1000000000 < t \<and> t \<le> now \<and> tok_claims tok = Some mc \<and>
     map_of mc ''iss'' = Some (JStr (cl_iss c)) \<and>
     trim_space (operator_issuer E cfg0) \<noteq> '''' \<and> issued_by (operator_issuer E cfg0) (cl_iss c) \<and>
     meant_for (operator_audience E cfg0) mc \<and>
     map_of mc ''exp'' = Some v \<and> date_of v = Some d \<and> now < d \<and>
     cl_owner c = string_claim mc ''owner'' \<and> cl_roles c = roles_claim mc \<and>
     (is_admin c \<or> cl_owner c \<noteq> '''' \<and>
        (\<exists>rest. segs = ''v1'' # ''kms'' # ''orgs'' # cl_owner c # ''secrets'' # rest))"
proof -
  let ?sv = "hosted h sv"
  have pf: "sv_pf ?sv = sv_pf sv" by (simp add: hosted_def)
  obtain cfg where cfg: "embed_configure E cfg0 = Inr (cfg, w_auth (fst start))"
    using embed_Booted [OF assms(2)] by metis
  let ?url = "ac_jwks_url (embed_auth cfg)" and ?f = "pf_fetch (sv_pf sv)"
  have t: "sorted (0 # map fst rs)" "last (0 # map fst rs) \<le> now"
    using assms(4) last_in_set [of "0 # map fst rs"] by (auto simp: sorted_append)
  have "contract ?f (last (0 # map fst rs)) (expected_issuer cfg) (expected_audience cfg) ?url (w_auth (fst s))"
    using jwt_library.contract_run [OF assms(1), of ?sv, OF _ _ t(1) assms(3)] contract_boot [OF cfg, of 0 ?f] pf by simp
  from contract_later [OF this t(2)] obtain cache where
    st: "as_issuer (w_auth (fst s)) = Some (expected_issuer cfg)" "as_audience (w_auth (fst s)) = Some (expected_audience cfg)"
      "as_jwks (w_auth (fst s)) = Some cache" "jc_url cache = ?url" "cache_inv ?f now cache"
    by (auto simp: contract_def)
  from server_effect [of ?sv now segs r s resp s'] assms(5,6) obtain c where
    c: "verified_claims (sv_pf sv) now r (fst s) = Some c"
    and auth: "is_admin c \<or> cl_owner c \<noteq> '''' \<and>
        (\<exists>rest. segs = ''v1'' # ''kms'' # ''orgs'' # cl_owner c # ''secrets'' # rest)"
    by (auto simp: http_handler_def pf prod_eq_iff)
  from verified_claims_verify [OF c] obtain st' where
    v: "verify_jwt (pf_parse (sv_pf sv)) ?f now (header_get (rq_headers r) ''Authorization'') (w_auth (fst s)) = (Inr c, st')" ..
  have aud: "audience_of (w_auth (fst s)) = expected_audience cfg"
    using st(2) configured_audience [OF cfg] by (simp add: audience_of_def)
  from jwt_library.verify_jwt_evidence [OF assms(1) v st(3,5)]
  obtain raw and tok :: jwt_token and alg kid key cache' t mc iss x d where
    ev: "bearer_token (header_get (rq_headers r) ''Authorization'') = Inr raw"
      "parsed_as (pf_parse (sv_pf sv)) raw now tok" "tok_alg tok = Some alg"
      "alg \<in> set allowed_algs" "sig_ok raw alg key" "map_of (tok_header tok) ''kid'' = Some (JStr kid)"
      "as_jwks st' = Some cache'" "served_at ?f (jc_url cache') t kid key"
      "now - jwks_cache_ttl < t" "t \<le> now" "tok_claims tok = Some mc" "map_of mc ''iss'' = Some (JStr (cl_iss c))"
      "as_issuer (w_auth (fst s)) = Some iss" "issued_by iss (cl_iss c)"
      "meant_for (audience_of (w_auth (fst s))) mc"
      "map_of mc ''exp'' = Some x" "date_of x = Some d" "now < d"
      "cl_owner c = string_claim mc ''owner''" "cl_roles c = roles_claim mc"
    by blast
  have url: "jc_url cache' = operator_keys_url E cfg0"
    using jwt_library.verify_jwt_url [OF assms(1) v st(3) ev(7)] st(4) operator_config(3) [OF cfg] by simp
  note op = operator_config(1,2) [OF cfg]
  show ?thesis
    by (rule exI [of _ c], rule exI [of _ raw], rule exI [of _ tok], rule exI [of _ alg],
        rule exI [of _ kid], rule exI [of _ key], rule exI [of _ t], rule exI [of _ mc],
        rule exI [of _ x], rule exI [of _ d])
      (use ev st(1) auth configured_auth(2) [OF cfg] in
        \<open>simp add: url [symmetric] op [symmetric] aud jwks_cache_ttl_def allowed_algs_def\<close>)
qed

definition live_environ :: environ where
  "live_environ k =
     (case map_of [(''IAM_URL'', ''x''), (''IAM_ISSUER'', ''iam''), (''IAM_AUDIENCE'', ''kms''), (''IAM_KEYS_URL'', ''u'')] k of
        None \<Rightarrow> '''' | Some v \<Rightarrow> v)"

definition live_boot :: embed_result where
  "live_boot = fst (embed (\<lambda>e. None) demo_boot_env (Inr None :: snap_err + unit option) live_environ demo_config)"

definition live_world :: "auth_state \<Rightarrow> mem world" where
  "live_world st = \<lparr>w_db = [], w_auth = st, w_audit = new_auditor True True True\<rparr>"

theorem booted_effect_needs_authority_witness:
  "\<exists>alg kid key t. served_at demo_fetch ''u'' t kid key \<and> table_sig demo_table ''acme'' alg key"
proof -
  let ?seg = "demo_segs @ [''p'', ''n'']" and ?rs = "[(5, demo_segs, demo_put)]"
  have b0: "(case live_boot of Booted h st \<Rightarrow> True | _ \<Rightarrow> False)" by code_simp
  then obtain h st where b: "live_boot = Booted h st" by (auto split: embed_result.splits)
  have "(case live_boot of Booted h st \<Rightarrow>
      (let s1 = snd (server_run (hosted h demo_server) ?rs (live_world st, ())) in
       w_db (fst (snd (http_handler (Some h) demo_server 6 ?seg demo_patch s1))) \<noteq> w_db (fst s1))
      | _ \<Rightarrow> False)"
    by code_simp
  then have eff: "w_db (fst (snd (http_handler (Some h) demo_server 6 ?seg demo_patch
        (snd (server_run (hosted h demo_server) ?rs (live_world st, ())))))) \<noteq>
      w_db (fst (snd (server_run (hosted h demo_server) ?rs (live_world st, ()))))"
    by (simp only: b embed_result.case Let_def not_False_eq_True)
  have url: "operator_keys_url live_environ demo_config = ''u''" by code_simp
  have tok: "bearer_token (header_get (rq_headers demo_patch) ''Authorization'') = Inr ''acme''" by code_simp
  have lib: "jwt_library (pf_parse (sv_pf demo_server)) (table_sig demo_table) table_date"
    by (simp add: demo_server_def demo_pf_def table.jwt_library_axioms)
  obtain got where boot: "embed (\<lambda>e. None) demo_boot_env (Inr None :: snap_err + unit option) live_environ demo_config =
      (Booted h (w_auth (fst (live_world st, ()))), got)"
    using b by (metis prod.collapse live_boot_def live_world_def fst_conv world.select_convs(2))
  have clock: "sorted (0 # map fst ?rs @ [6 :: int])" by simp
  obtain raw alg kid key t where
    "bearer_token (header_get (rq_headers demo_patch) ''Authorization'') = Inr raw" "table_sig demo_table raw alg key"
    "served_at (pf_fetch (sv_pf demo_server)) (operator_keys_url live_environ demo_config) t kid key"
    using booted_effect_needs_authority [OF lib boot prod.collapse [symmetric] clock prod.collapse [symmetric] disjI1 [OF eff]] by blast
  moreover have "pf_fetch (sv_pf demo_server) = demo_fetch" by (simp add: demo_server_def demo_pf_def)
  ultimately show ?thesis using tok url by auto
qed

end
