(* ===== verification/SdkExample.thy ===== *)
theory SdkExample
  imports SdkFacts
begin

text \<open>
  The SDK's example program (\<^verbatim>\<open>examples/basic/main.go\<close>): what it prints and how it
  ends.  Every call to the SDK has its own order of answers and its own nonces, so \<open>ord\<close>
  and \<open>rnd\<close> are indexed by the call.
\<close>

datatype example_line =
    SetLine
  | ValueLine bytes
  | NamesLine "string list"
  | NodeLine string bool

datatype example_end = ExDone | ExFatal sdk_err

definition example_config :: sdk_config where
  [go_defs]: "example_config =
     \<lparr>cf_nodes = [''https://kms-mpc-0:9999'', ''https://kms-mpc-1:9999'', ''https://kms-mpc-2:9999''],
      cf_org = ''hanzo'', cf_threshold = 2\<rparr>"

definition node_line :: "node_status \<Rightarrow> example_line" where
  [go_defs]: "node_line st = NodeLine (ns_address st) (ns_healthy st)"

definition example_main ::
    "crypto \<Rightarrow> 's net \<Rightarrow> (nat \<Rightarrow> string list) \<Rightarrow> (nat \<Rightarrow> bytes option) \<Rightarrow> 's \<Rightarrow>
     example_line list \<times> example_end \<times> 's" where
  [go_defs]: "example_main cr net ord rnd s =
     (case new_client example_config of
        Inl err \<Rightarrow> ([], ExFatal err, s)
      | Inr c0 \<Rightarrow>
          (case unlock cr ''super-secret-passphrase'' c0 of
             (Some err, c) \<Rightarrow> ([], ExFatal err, s)
           | (None, c) \<Rightarrow>
               (case sdk_set cr net (ord 0) (rnd 0) (rnd 1) c ''DATABASE_URL''
                       ''postgresql://user:pass@db:5432/app'' s of
                  (Some err, s1) \<Rightarrow> ([], ExFatal err, s1)
                | (None, s1) \<Rightarrow>
                    (case sdk_get cr net (ord 1) (rnd 2) c ''DATABASE_URL'' s1 of
                       (Inl err, s2) \<Rightarrow> ([SetLine], ExFatal err, s2)
                     | (Inr val, s2) \<Rightarrow>
                         (case sdk_list cr net (ord 2) c s2 of
                            (Inl err, s3) \<Rightarrow> ([SetLine, ValueLine val], ExFatal err, s3)
                          | (Inr names, s3) \<Rightarrow>
                              (case sdk_status net c s3 of
                                 (sts, s4) \<Rightarrow>
                                   ([SetLine, ValueLine val, NamesLine names] @ map node_line sts, ExDone, s4)))))))"

text \<open>The configuration is accepted, so the program can only fail at a later call.\<close>

lemma example_client:
  "new_client example_config =
     Inr \<lparr>sc_nodes = cf_nodes example_config, sc_threshold = 2, sc_org = ''hanzo'', sc_cek = None\<rparr>"
  by (simp add: new_client_def example_config_def)

lemma each_node_addresses:
  assumes "\<And>a s. ns_address (fst (f a s)) = a"
  shows "map ns_address (fst (each_node f as s)) = as"
  using assms
proof (induction as arbitrary: s)
  case (Cons a as)
  from Cons.prems [of a s] Cons.IH [OF Cons.prems] show ?case by (auto split: prod.splits) (metis fst_conv)
qed simp

lemma status_addresses: "map ns_address (fst (sdk_status net c s)) = sc_nodes c"
  unfolding sdk_status_def
  by (rule each_node_addresses) (auto simp: node_health_def split: prod.splits sum.splits)

text \<open>
  The program ends well only if the value it stored could be read back, its line is followed
  by the names, and every node is reported once.
\<close>

lemma example_done:
  assumes "example_main cr net ord rnd s = (out, ExDone, s')"
  shows "\<exists>val names sts. out = [SetLine, ValueLine val, NamesLine names] @ map node_line sts \<and>
     map ns_address sts = cf_nodes example_config"
proof -
  have nodes: "sc_nodes c = cf_nodes example_config"
    if "unlock cr ''super-secret-passphrase''
          \<lparr>sc_nodes = cf_nodes example_config, sc_threshold = 2, sc_org = ''hanzo'', sc_cek = None\<rparr> = (None, c)" for c
    using that by (auto simp: unlock_def split: sum.splits prod.splits)
  from assms obtain c s3 val names sts where
    "unlock cr ''super-secret-passphrase''
        \<lparr>sc_nodes = cf_nodes example_config, sc_threshold = 2, sc_org = ''hanzo'', sc_cek = None\<rparr> = (None, c)"
    "sdk_status net c s3 = (sts, s')" "out = [SetLine, ValueLine val, NamesLine names] @ map node_line sts"
    unfolding example_main_def example_client sum.case
    by (auto split: prod.splits option.splits sum.splits)
  with nodes status_addresses [of net c s3] show ?thesis by auto
qed

end
