(* ===== verification/Identity.thy ===== *)
theory Identity
  imports Fetch
begin

text \<open>
  A client's consensus identity (\<^verbatim>\<open>kmsclient/identity.go\<close>) and who wipes it: the keys
  library derives it from a mnemonic, the header repeats its public part, the fetcher of
  \<^verbatim>\<open>kms-fetch\<close> owns it and wipes it when it is closed.
\<close>

text \<open>The library's identity; wiping removes the private key.\<close>

record service_identity =
  si_node_id :: string
  si_full_digest :: bytes
  si_service_path :: string
  si_public_key :: bytes
  si_private_key :: "bytes option"

record identity_header =
  ih_node_id :: string
  ih_full_digest :: bytes
  ih_service_path :: string
  ih_public_key :: bytes

record identity =
  id_service :: "service_identity option"
  id_header :: identity_header

type_synonym key_library = "string \<Rightarrow> string \<Rightarrow> kc_err + service_identity"

definition new_identity :: "key_library \<Rightarrow> string \<Rightarrow> string \<Rightarrow> kc_err + identity" where
  [go_defs]: "new_identity lib mnemonic service_path =
     (case lib mnemonic service_path of
        Inl err \<Rightarrow> Inl err
      | Inr si \<Rightarrow> Inr \<lparr>id_service = Some si,
          id_header = \<lparr>ih_node_id = si_node_id si, ih_full_digest = si_full_digest si,
            ih_service_path = si_service_path si, ih_public_key = si_public_key si\<rparr>\<rparr>)"

text \<open>\<^verbatim>\<open>Wipe\<close>, for an identity or its part that may be nil.\<close>

definition wipe :: "identity option \<Rightarrow> identity option" where
  [go_defs]: "wipe i =
     (case i of
        None \<Rightarrow> None
      | Some x \<Rightarrow> Some (x\<lparr>id_service := map_option (\<lambda>si. si\<lparr>si_private_key := None\<rparr>) (id_service x)\<rparr>))"

text \<open>The fetcher; \<open>close_err\<close> is what closing the client answers.\<close>

record 'c kmsclient_fetcher =
  kf_client :: 'c
  kf_owned :: "identity option"

definition fetcher_get :: "('c \<Rightarrow> string \<Rightarrow> string \<Rightarrow> kc_err + string) \<Rightarrow> 'c kmsclient_fetcher \<Rightarrow> string \<Rightarrow> string \<Rightarrow> kc_err + string" where
  [go_defs]: "fetcher_get client_get z path name = client_get (kf_client z) path name"

definition fetcher_close ::
    "('c \<Rightarrow> kc_err option \<times> 'c) \<Rightarrow> 'c kmsclient_fetcher \<Rightarrow> kc_err option \<times> 'c kmsclient_fetcher" where
  [go_defs]: "fetcher_close client_close z =
     (let z1 = (if kf_owned z \<noteq> None then z\<lparr>kf_owned := wipe (kf_owned z)\<rparr> else z) in
      case client_close (kf_client z1) of (err, c) \<Rightarrow> (err, z1\<lparr>kf_client := c\<rparr>))"

section \<open>Facts\<close>

text \<open>Whether an identity still has its private key.\<close>

definition holds_key :: "identity option \<Rightarrow> bool" where
  "holds_key i \<longleftrightarrow> (\<exists>x si. i = Some x \<and> id_service x = Some si \<and> si_private_key si \<noteq> None)"

lemma wipe_idem: "wipe (wipe i) = wipe i"
  by (cases i) (simp_all add: wipe_def option.map_comp comp_def)

lemma wiped: "\<not> holds_key (wipe i)"
  by (auto simp: wipe_def holds_key_def split: option.splits)

lemma wipe_header: "map_option id_header (wipe i) = map_option id_header i"
  by (cases i) (simp_all add: wipe_def)

text \<open>However closing the client ends, the identity is wiped; what it stamped stays the same.\<close>

lemma fetcher_close_wipes:
  assumes "fetcher_close client_close z = (err, z')"
  shows "\<not> holds_key (kf_owned z') \<and> map_option id_header (kf_owned z') = map_option id_header (kf_owned z)"
  using assms wiped [of "kf_owned z"] wipe_header [of "kf_owned z"]
  by (auto simp: fetcher_close_def Let_def holds_key_def split: if_splits prod.splits)

text \<open>An identity from the environment is derived from the mnemonic of a variable, for that service.\<close>

lemma identity_from_env_Inr:
  assumes "identity_from_env (new_identity lib) E path = Inr i"
  shows "\<exists>m si. m \<noteq> '''' \<and> lib m path = Inr si \<and> id_service i = Some si \<and>
     ih_node_id (id_header i) = si_node_id si \<and> ih_public_key (id_header i) = si_public_key si"
proof -
  obtain m where m: "m \<noteq> ''''" "new_identity lib m path = Inr i"
    using assms unfolding identity_from_env_def Let_def by (auto split: if_split_asm)
  then show ?thesis by (auto simp: new_identity_def split: sum.splits)
qed

end
