(* ===== verification/TestSupport.thy ===== *)
theory TestSupport
  imports Mux
begin

text \<open>
  The test hooks of \<^verbatim>\<open>auth.go\<close> and \<^verbatim>\<open>jwks.go\<close>: the stand-in key routes that
  the gate tests use in place of the real ones, and the cache reset between tests.  The
  stand-ins refuse exactly what the real routes refuse, so what the tests show of the gate
  holds of the real routes.
\<close>

section \<open>Stand-in key routes\<close>

type_synonym ('d, 'm) page = "request \<Rightarrow> 'd world \<times> 'm \<Rightarrow> response \<times> 'd world \<times> 'm"

definition stub :: "nat \<Rightarrow> (request \<Rightarrow> json) \<Rightarrow> ('d, 'm) page" where
  [go_defs]: "stub st doc r s = (write_json st (doc r), s)"

definition key_route_gates_for_test ::
    "'d platform \<Rightarrow> int \<Rightarrow> (string \<times> seg list \<times> ('d, 'm) page) list" where
  [go_defs]: "key_route_gates_for_test pf now =
     [(''GET'', [Lit ''v1'', Lit ''kms'', Lit ''keys''], admin_only pf now (stub 200 (\<lambda>r. JArr []))),
      (''GET'', [Lit ''v1'', Lit ''kms'', Lit ''keys'', Wild ''id''],
         admin_only pf now (stub 200 (\<lambda>r. JObj [(''id'', JStr (path_value r ''id''))]))),
      (''POST'', [Lit ''v1'', Lit ''kms'', Lit ''keys'', Lit ''generate''],
         admin_only pf now (stub 201 (\<lambda>r. JObj [(''ok'', JBool True)]))),
      (''POST'', [Lit ''v1'', Lit ''kms'', Lit ''keys'', Wild ''id'', Lit ''sign''],
         admin_only pf now (stub 200 (\<lambda>r. JObj [(''sig'', JStr ''test'')]))),
      (''POST'', [Lit ''v1'', Lit ''kms'', Lit ''keys'', Wild ''id'', Lit ''rotate''],
         admin_only pf now (stub 200 (\<lambda>r. JObj [(''ok'', JBool True)]))),
      (''GET'', [Lit ''v1'', Lit ''kms'', Lit ''status''],
         admin_only pf now (stub 200 (\<lambda>r. JObj [(''kms'', JStr ''ok'')])))]"

text \<open>Behind any two handlers the gate refuses the same requests with the same answer.\<close>

lemma admin_only_refuses:
  "fst (admin_only pf now h r s) =
     (case fst (authorize pf now r (fst s)) of
        Inl resp \<Rightarrow> resp
      | Inr c \<Rightarrow> if is_admin c then fst (h r (snd (authorize pf now r (fst s)), snd s)) else admin_required)"
  by (simp add: admin_only_def split: prod.split sum.split)

lemma gates_agree:
  assumes "\<And>c. verified_claims pf now r (fst s) = Some c \<Longrightarrow> \<not> is_admin c"
  shows "admin_only pf now h r s = admin_only pf now h' r s"
  using assms by (auto simp: admin_only_def verified_claims_def split: prod.splits sum.splits)

text \<open>Every stand-in has the method and pattern of a real route, and none is missing.\<close>

lemma stand_ins_complete:
  "set (map (\<lambda>(m, p, _). (m, p)) (key_route_gates_for_test pf now)) = set (map (\<lambda>(m, p, _). (m, p)) key_routes)"
  by (auto simp: key_route_gates_for_test_def key_routes_def)

lemma stand_in_refuses:
  assumes "(m, p, h) \<in> set (key_route_gates_for_test (sv_pf sv) now)" "(m, p, rt) \<in> set key_routes"
    and "\<And>c. verified_claims (sv_pf sv) now r (fst s) = Some c \<Longrightarrow> \<not> is_admin c"
  shows "h r s = run_route sv now rt r s"
proof -
  from assms(1) obtain g where "h = admin_only (sv_pf sv) now g" by (auto simp: key_route_gates_for_test_def)
  moreover from assms(2) obtain g' where "run_route sv now rt r s = admin_only (sv_pf sv) now g' r s"
    by (auto simp: key_routes_def)
  ultimately show ?thesis using gates_agree [OF assms(3)] by simp
qed

section \<open>Resetting the key cache\<close>

definition reset_jwks_cache_for_test :: "auth_state \<Rightarrow> auth_state" where
  [go_defs]: "reset_jwks_cache_for_test st =
     (case as_jwks st of
        None \<Rightarrow> st
      | Some c \<Rightarrow> st\<lparr>as_jwks := Some (c\<lparr>jc_keys := [], jc_expiry := zero_time\<rparr>)\<rparr>)"

text \<open>After a reset the first lookup goes to the provider, and the cache is as good as new.\<close>

lemma reset_is_new:
  assumes "as_jwks st = Some c"
  shows "as_jwks (reset_jwks_cache_for_test st) = Some (new_jwks_cache (jc_url c))"
  using assms by (simp add: reset_jwks_cache_for_test_def new_jwks_cache_def)

end
