(* ===== verification/Spec2Isabelle.thy ===== *)
theory Spec2Isabelle
  imports Demo SdkClaims ClientClaims FlightClaims ServiceClaims ThreadsClaims HostingClaims
    SdkExample Identity TestSupport
begin

text \<open>
  Hanzo KMS: a Go server that stores secrets of many organisations, two client libraries and
  four commands.  This development models them and proves what makes them correct; this
  theory holds the properties that span the server, \<^verbatim>\<open>SdkClaims\<close> those of the
  zero-knowledge SDK, \<^verbatim>\<open>ClientClaims\<close> those of the service client and the commands,
  \<^verbatim>\<open>FlightClaims\<close> those of concurrent key lookups, \<^verbatim>\<open>ServiceClaims\<close> those of the
  abstract service, \<^verbatim>\<open>ThreadsClaims\<close> those of concurrent requests and
  \<^verbatim>\<open>HostingClaims\<close> the one from boot to effect.  Properties are numbered C1, C2 and so on across them.

  \<^bold>\<open>The program.\<close>  A request passes the method allow-list, the header hygiene and the mux
  (\<^verbatim>\<open>embed.go\<close>).  Each handler verifies the bearer token (\<^verbatim>\<open>auth.go\<close>, with keys
  cached by \<^verbatim>\<open>jwks.go\<close>), compares its owner with the organisation in the URL, splits
  the path, works on the store in separate database transactions (values through the
  upstream secret store, version counters by \<^verbatim>\<open>versioning.go\<close>, times and listings by
  \<^verbatim>\<open>secrets_list.go\<close>), answers, and queues one entry for the auditor
  (\<^verbatim>\<open>audit.go\<close>).  \<^verbatim>\<open>Embed\<close> validates the configuration, opens the resources and
  starts the ZAP transport if a consensus authority is configured (\<^verbatim>\<open>consensus.go\<close>);
  \<^verbatim>\<open>mount.go\<close> holds one embedded server per process.

  \<^bold>\<open>Theories, by part of the code.\<close>
  \<^item> Foundations: \<^verbatim>\<open>Prelude\<close> (Go strings, words, lists; the collection
    \<open>go_defs\<close>), \<^verbatim>\<open>Codec\<close> (the interface of an encoding; big-endian counters),
    \<^verbatim>\<open>Base64\<close> (\<^verbatim>\<open>encoding.go\<close>), \<^verbatim>\<open>Url\<close> (escaping in paths and queries),
    \<^verbatim>\<open>Http\<close> (requests, responses, JSON decoding into structs).
  \<^item> Storage: \<^verbatim>\<open>Paths\<close> (names, key layout), \<^verbatim>\<open>Store\<close> (the interface of the
    database), \<^verbatim>\<open>Versions\<close> (\<^verbatim>\<open>versioning.go\<close>), \<^verbatim>\<open>Listing\<close>
    (\<^verbatim>\<open>secrets_list.go\<close>).
  \<^item> Identity and audit: \<^verbatim>\<open>Jwks\<close> and \<^verbatim>\<open>Flight\<close> (one and many calls of
    \<^verbatim>\<open>resolve\<close>), \<^verbatim>\<open>Auth\<close>, \<^verbatim>\<open>AuditLog\<close>; \<^verbatim>\<open>Steps\<close> holds runs of a step relation.
  \<^item> The server: \<^verbatim>\<open>Handlers\<close> (the five secret routes), \<^verbatim>\<open>Gate\<close> (what is in front
    of and behind them), \<^verbatim>\<open>Secrets\<close> (what they do to the records),
    \<^verbatim>\<open>Routes\<close> and \<^verbatim>\<open>Mux\<close> (every
    other route, the table, the whole server \<open>server_handle\<close>), \<^verbatim>\<open>Service\<close> (the
    abstract service and the refinement), \<^verbatim>\<open>Threads\<close>, \<^verbatim>\<open>Serial\<close> and
    \<^verbatim>\<open>Exclusion\<close> (the record handlers one transaction at a time, their schedules, the guard), \<^verbatim>\<open>TestSupport\<close> (the hooks of the gate tests).
  \<^item> Boot and life: \<^verbatim>\<open>Config\<close>, \<^verbatim>\<open>Consensus\<close>, \<^verbatim>\<open>Lifecycle\<close> (\<^verbatim>\<open>Embed\<close>,
    \<^verbatim>\<open>Stop\<close>, \<^verbatim>\<open>Mount\<close>, \<^verbatim>\<open>Shutdown\<close>, the replicator), \<^verbatim>\<open>Hosting\<close>
    (\<^verbatim>\<open>HTTPHandler\<close>, the verification contract over a history), \<^verbatim>\<open>Daemon\<close> (\<^verbatim>\<open>cmd/kmsd\<close>, \<^verbatim>\<open>cmd/smoke-zap\<close>).
  \<^item> The SDK (\<^verbatim>\<open>sdk/go\<close>): \<^verbatim>\<open>Sdk\<close> (\<^verbatim>\<open>client.go\<close>, \<^verbatim>\<open>cek.go\<close>,
    \<^verbatim>\<open>secrets.go\<close>), \<^verbatim>\<open>SdkFacts\<close>, \<^verbatim>\<open>Compliance\<close> (\<^verbatim>\<open>members.go\<close>,
    \<^verbatim>\<open>sync.go\<close>, \<^verbatim>\<open>compliance.go\<close>), \<^verbatim>\<open>Traffic\<close> (the requests every operation sends),
    \<^verbatim>\<open>SdkExample\<close> (\<^verbatim>\<open>examples/basic\<close>).
  \<^item> The service client: \<^verbatim>\<open>KmsClient\<close>, \<^verbatim>\<open>Tenant\<close> and \<^verbatim>\<open>Identity\<close> (\<^verbatim>\<open>sdk/go/kmsclient\<close>),
    \<^verbatim>\<open>Wire\<close> (that client talking to this server), \<^verbatim>\<open>Cli\<close> (\<^verbatim>\<open>cmd/kms\<close>),
    \<^verbatim>\<open>Fetch\<close> and \<^verbatim>\<open>FetchFacts\<close> (\<^verbatim>\<open>cmd/kms-fetch\<close>).
  \<^item> \<^verbatim>\<open>Demo\<close>: a concrete deployment, on which the witnesses evaluate.

  \<^bold>\<open>State and effects.\<close>  A handler is a function from a request and a world (database, auditor,
  verifier state) to a response and a world.  Errors are values: a sum or an option for every
  early return, \<^verbatim>\<open>log.Crit\<close> as an exit code or \<open>ZapFatal\<close>, the one nil dereference as
  \<open>KPanic\<close>.  Integers that can overflow are words: versions, ports, counters, durations and
  token lifetimes.  A client's network is a function with its own state; the order in which
  answers arrive is an argument, and the properties hold for every order.  The file system of
  \<^verbatim>\<open>kms-fetch\<close> maps paths to contents and modes, and every system call may fail.

  \<^bold>\<open>Interfaces.\<close>  \<open>codec\<close> and \<open>exact_codec\<close> (instances: counters, base64, URL escaping,
  storage keys, sealed payloads); \<open>kv_store\<close>, \<open>secret_store\<close> and
  \<open>reliable_store\<close> (the database, with an in-memory and a failing instance);
  \<open>version_register\<close> (what a counter promises; every \<open>kv_store\<close> gives one through
  \<^verbatim>\<open>versioning.go\<close>); \<open>jwt_library\<close>; \<open>tenant_handler\<close> and \<open>admin_handler\<close> (a
  gated handler; every handler of the code is an instance); \<open>posix_shell\<close> (how a shell reads
  assignments and double quotes); \<open>bounded_queue\<close> (the audit
  channel); \<open>protocol\<close> (steps that keep an invariant and lower a rank until all is done;
  the concurrent calls of \<^verbatim>\<open>resolve\<close> and the schedules of concurrent requests).

  \<^bold>\<open>Concurrency.\<close>  Handlers are interleaved by database transaction (\<open>stage_step\<close>
  and the inductive relation \<open>thread_step\<close>; lemma \<open>handler_stages\<close> relates them to the handlers), the
  auditor's writer by queue operation (\<^verbatim>\<open>AuditLog\<close>), calls of \<^verbatim>\<open>resolve\<close> by critical
  section (the inductive relation \<open>flight_step\<close>); histories of whole requests are lists.

  \<^bold>\<open>What the properties show.\<close>  Authority: no effect without a verified token that allows it,
  also from boot on and over any history; no influence of identity headers (C1, C3, C5, C6).
  The whole server refines an abstract secret service (C2), whose table knows no organisations:
  the one in the URL decides whether a request is served, never which record it is about (C4).
  Records: PATCH is guarded by the version, also when any number of GET, POST and PATCH requests
  are interleaved (C7, C8); with DELETE among them, concurrent requests that do not overlap on a
  record are answered as if one after the other (C9), while a GET or a DELETE that overlaps a
  PATCH is not (C10, C11).  Concurrent key lookups are linearizable at clock times of their own
  steps, share one fetch and end (C12--C14).  On a store that does not fail the version counts
  the writes (C15); requests touch the record they name, also when the store fails, and listings
  are exact for the records they can show, confined and silent about values (C16--C20).  Audit:
  one entry per request, faithful and without unnoticed loss as long as inserts succeed
  (C21--C23).  Names and keys (C24, C25).  The service client and the server agree end to end
  (C26).  The SDK: what a quorum means, what is sent and to whom, and what \<^verbatim>\<open>Get\<close>
  does not find (C27--C32).  Tokens, environment and files (C33--C36).  Authority of the ZAP
  transport, and what is acquired, released and leaked over the life of a process (C37, C38).
  Calls that never deliver (C39).

  \<^bold>\<open>Bounds and fuel.\<close>  All operations are total functions; loops are structural recursion, or recursion
  with a measure for the scanners of strings; none takes fuel.  The audit channel holds 1024 entries, a body at most 1 MiB.

  \<^bold>\<open>Parameters.\<close>  Code outside the repository is an argument of the definitions: the
  database and secret store, the JWT parser with its signatures and dates, the identity provider
  (what it serves depends on the time, and it may fail at any), the MPC key
  manager, ciphers and key derivation, the ZAP client and node, the node-id parser, the
  authorizer package, the shell that sources the environment file, the cloud package, \<^verbatim>\<open>url.Parse\<close>, Go's duration and RFC3339
  parsers, the bytes of rendered JSON, and the process environment.

  \<^bold>\<open>Not modelled.\<close>  Logging; timeouts and cancellation other than the auditor's; latencies in
  \<^verbatim>\<open>Status\<close>; the memory of wiped keys; JSON numbers that are not integers, beyond being
  rejected or kept as text; redirects of the mux, which \<open>wire\<close> answers with a transport
  error; strings that are not valid UTF-8 in environment values; the interface declarations in
  \<^verbatim>\<open>iface.go\<close>, which nothing implements, the web console and the deployment files.
\<close>

section \<open>Authority\<close>

text \<open>C1: a request that changes the database or the key manager carried a token that
  verified, and its holder is an administrator or the owner of the org in the request's URL:
  a tenant can only have an effect through \<open>/v1/kms/orgs/<owner>/secrets\<close>.\<close>

theorem server_effect_needs_authority:
  assumes "server_handle sv now segs r s = (resp, s')"
    and "w_db (fst s') \<noteq> w_db (fst s) \<or> snd s' \<noteq> snd s"
  shows "\<exists>c. verified_claims (sv_pf sv) now r (fst s) = Some c \<and>
     (is_admin c \<or> cl_owner c \<noteq> '''' \<and>
        (\<exists>rest. segs = ''v1'' # ''kms'' # ''orgs'' # cl_owner c # ''secrets'' # rest))"
  using server_effect [OF assms(1)] assms(2) by auto

theorem server_effect_needs_authority_witness:
  "\<exists>c. verified_claims demo_pf 5 demo_put demo_world = Some c \<and> (is_admin c \<or> cl_owner c = ''acme'')"
proof -
  have "w_db (fst (snd (server_handle demo_server 5 demo_segs demo_put (demo_world, ())))) \<noteq> w_db demo_world"
    by code_simp
  with server_effect_needs_authority [of demo_server 5 demo_segs demo_put "(demo_world, ())", OF prod.collapse [symmetric]]
  show ?thesis by (auto simp: demo_segs_def demo_server_def)
qed

text \<open>C5: take a verifier whose key cache satisfies its invariant (every key in it came from the
  document served at the last refresh, and the cache expires fifteen minutes after that; the
  empty cache satisfies it).  It accepts a bearer token only if the token's signature verifies,
  under one of the ten asymmetric algorithms, with an RSA signature key that the identity
  provider served less than fifteen minutes ago; its issuer is one of the configured issuers
  (up to surrounding space and trailing slashes), its audience contains one of the configured
  audiences (or \<^verbatim>\<open>kms\<close>), it has an expiry and that lies in the future, it names a subject, and
  owner and roles of the verified claims are the token's.  The new cache satisfies the
  invariant again.\<close>

theorem verified_token_sound:
  assumes "jwt_library parse sig_ok date_of"
    and "verify_jwt parse fetch now h st = (Inr c, st')"
    and "as_jwks st = Some cache" "cache_inv fetch now cache"
  shows "\<exists>raw (tok :: jwt_token) alg kid key cache' t mc iss v d.
     bearer_token h = Inr raw \<and> parsed_as parse raw now tok \<and> tok_alg tok = Some alg \<and>
     alg \<in> {''RS256'', ''RS384'', ''RS512'', ''ES256'', ''ES384'', ''ES512'',
       ''PS256'', ''PS384'', ''PS512'', ''EdDSA''} \<and> sig_ok raw alg key \<and>
     map_of (tok_header tok) ''kid'' = Some (JStr kid) \<and>
     as_jwks st' = Some cache' \<and> map_of (jc_keys cache') kid = Some key \<and> cache_inv fetch now cache' \<and>
     served_at fetch (jc_url cache') t kid key \<and> now - 15 * 60 * 1000000000 < t \<and> t \<le> now \<and>
     tok_claims tok = Some mc \<and> map_of mc ''iss'' = Some (JStr (cl_iss c)) \<and>
     as_issuer st = Some iss \<and> issued_by iss (cl_iss c) \<and> meant_for (audience_of st) mc \<and>
     map_of mc ''exp'' = Some v \<and> date_of v = Some d \<and> now < d \<and>
     cl_sub c \<noteq> '''' \<and> cl_owner c = string_claim mc ''owner'' \<and> cl_roles c = roles_claim mc"
  using jwt_library.verify_jwt_evidence [OF assms] unfolding allowed_algs_def jwks_cache_ttl_def set_simps .

theorem verified_token_sound_witness:
  "\<exists>raw alg kid key t. served_at demo_fetch ''u'' t kid key \<and> table_sig demo_table raw alg key"
proof -
  let ?st = "demo_auth\<lparr>as_jwks := Some (new_jwks_cache ''u'')\<rparr>"
  obtain x st' where v: "verify_jwt (table_parse demo_table) demo_fetch 5 ''Bearer acme'' ?st = (x, st')"
    by (cases "verify_jwt (table_parse demo_table) demo_fetch 5 ''Bearer acme'' ?st")
  have "\<not> isl (fst (verify_jwt (table_parse demo_table) demo_fetch 5 ''Bearer acme'' ?st))"
    by code_simp
  with v obtain c where "x = Inr c" by (cases x) auto
  from verified_token_sound [OF table.jwt_library_axioms v [unfolded this], of "new_jwks_cache ''u''"]
  obtain raw alg kid key cache' t where "served_at demo_fetch (jc_url cache') t kid key"
    "table_sig demo_table raw alg key" "as_jwks st' = Some cache'"
    by (simp add: cache_inv_new) blast
  moreover have "jc_url cache' = ''u''"
    using table.verify_jwt_url [OF v, of "new_jwks_cache ''u''"] \<open>as_jwks st' = Some cache'\<close>
    by (simp add: new_jwks_cache_def)
  ultimately show ?thesis by metis
qed

text \<open>
  The headers by which a gateway or a client could claim an identity, as \<^verbatim>\<open>net/http\<close> spells
  them after reading a request.
\<close>

definition identity_claims :: "string set" where
  "identity_claims =
     {''X-User-Id'', ''X-Org-Id'', ''X-Roles'', ''X-User-Email'',
      ''X-Gateway-Validated'', ''X-Gateway-User-Id'', ''X-Gateway-Org-Id'', ''X-Gateway-User-Email'',
      ''X-Hanzo-User-Id'', ''X-Hanzo-User-Email'', ''X-Hanzo-User-Role'', ''X-Hanzo-User-Roles'',
      ''X-Hanzo-User-Isadmin'', ''X-Hanzo-Org'', ''X-Hanzo-Org-Id'',
      ''X-Iam-User-Id'', ''X-Iam-Org'', ''X-Iam-Org-Id'', ''X-Iam-Roles'',
      ''X-User-Role'', ''X-User-Roles'', ''X-Tenant-Id'', ''X-Org'', ''X-Is-Admin''}"

lemma stripped_headers: "canonical_key ` set identity_headers = identity_claims"
proof -
  have "map canonical_key identity_headers =
     [''X-User-Id'', ''X-Org-Id'', ''X-Roles'', ''X-User-Email'',
      ''X-Gateway-Validated'', ''X-Gateway-User-Id'', ''X-Gateway-Org-Id'', ''X-Gateway-User-Email'',
      ''X-Hanzo-User-Id'', ''X-Hanzo-User-Email'', ''X-Hanzo-User-Role'', ''X-Hanzo-User-Roles'',
      ''X-Hanzo-User-Isadmin'', ''X-Hanzo-Org'', ''X-Hanzo-Org-Id'',
      ''X-Iam-User-Id'', ''X-Iam-Org'', ''X-Iam-Org-Id'', ''X-Iam-Roles'',
      ''X-User-Role'', ''X-User-Roles'', ''X-Tenant-Id'', ''X-Tenant-Id'', ''X-Org'', ''X-Is-Admin'']"
    by code_simp
  then have "canonical_key ` set identity_headers = set [''X-User-Id'', ''X-Org-Id'', ''X-Roles'', ''X-User-Email'',
      ''X-Gateway-Validated'', ''X-Gateway-User-Id'', ''X-Gateway-Org-Id'', ''X-Gateway-User-Email'',
      ''X-Hanzo-User-Id'', ''X-Hanzo-User-Email'', ''X-Hanzo-User-Role'', ''X-Hanzo-User-Roles'',
      ''X-Hanzo-User-Isadmin'', ''X-Hanzo-Org'', ''X-Hanzo-Org-Id'',
      ''X-Iam-User-Id'', ''X-Iam-Org'', ''X-Iam-Org-Id'', ''X-Iam-Roles'',
      ''X-User-Role'', ''X-User-Roles'', ''X-Tenant-Id'', ''X-Tenant-Id'', ''X-Org'', ''X-Is-Admin'']"
    by (metis set_map)
  then show ?thesis unfolding identity_claims_def set_simps insert_absorb2 .
qed

text \<open>C6: no header by which a client could claim an identity (the 24 listed names) has any
  influence: two requests that differ only in such headers get the same answer and the same
  effect; and whatever handler stands behind the stripping gate, it sees the request without
  these headers and with all its others, in their order.\<close>

theorem identity_headers_ignored:
  assumes "filter (\<lambda>(k, _). k \<notin> identity_claims) hs = filter (\<lambda>(k, _). k \<notin> identity_claims) hs'"
  shows "server_handle sv now segs (r\<lparr>rq_headers := hs\<rparr>) s = server_handle sv now segs (r\<lparr>rq_headers := hs'\<rparr>) s \<and>
     strip_identity_headers handler (r\<lparr>rq_headers := hs\<rparr>) s1 =
       handler (r\<lparr>rq_headers := filter (\<lambda>(k, _). k \<notin> identity_claims) hs\<rparr>) s1"
  using server_ignores_identity_headers [unfolded stripped_headers, OF assms]
  by (simp add: strip_identity_headers_def fold_header_del stripped_headers)

theorem identity_headers_ignored_witness:
  "server_handle demo_server 5 demo_segs (demo_list\<lparr>rq_headers := [(''X-Org-Id'', ''globex''), (''X-Roles'', ''admin'')]\<rparr>) (demo_world, ()) =
   server_handle demo_server 5 demo_segs (demo_list\<lparr>rq_headers := []\<rparr>) (demo_world, ())"
proof -
  have "filter (\<lambda>(k, _). k \<notin> identity_claims) [(''X-Org-Id'', ''globex''), (''X-Roles'', ''admin'')]
      = filter (\<lambda>(k, _). k \<notin> identity_claims) []"
    by (simp add: identity_claims_def)
  from identity_headers_ignored [OF this, THEN conjunct1] show ?thesis .
qed

section \<open>Secrets\<close>

text \<open>What POST stores, GET returns: on a store that does not fail, a value accepted with
  201 is answered by a later authorized read of the same path, name and environment, with
  the version one above the previous one.\<close>

lemma put_then_get:
  assumes "reliable_store ops view val" and ops: "pf_ops pf = ops"
    and "put_secret pf now r w = (resp, w')" "rs_status resp = 201" "snd (put_fields r) = q"
    and "stored_version (view (w_db w)) (pr_path q) (pr_name q) (pr_env q) = Some ver"
    and "verified_claims pf now' r' w' = Some c" "can_act_on_org c (path_value r' ''org'')"
    and "split_secret_path (path_value r' ''rest'') = Inr (pr_path q, pr_name q)" "read_env r' = pr_env q"
  shows "fst (get_secret pf now' r' w') = write_json 200
     (JObj [(''secret'', JObj [(''value'', JStr (pr_value q))]), (''version'', JInt (sint (ver + 1)))])"
  using assms by (rule accepted_put_read)

lemma put_then_get_witness:
  "fst (get_secret demo_pf 6 demo_get demo_after_put) = write_json 200
     (JObj [(''secret'', JObj [(''value'', JStr ''v1'')]), (''version'', JInt 1)])"
proof -
  have "\<exists>c. verified_claims demo_pf 6 demo_get demo_after_put = Some c \<and> can_act_on_org c (path_value demo_get ''org'')"
    by (rule exI [of _ "\<lparr>cl_iss = ''iam'', cl_owner = ''acme'', cl_sub = ''svc_a'', cl_roles = []\<rparr>"]) code_simp
  then obtain c where c: "verified_claims demo_pf 6 demo_get demo_after_put = Some c"
    "can_act_on_org c (path_value demo_get ''org'')" by blast
  let ?q = "snd (put_fields demo_put)"
  have s: "rs_status (fst (put_secret demo_pf 5 demo_put demo_world)) = 201"
    "stored_version (mem_view (w_db demo_world)) (pr_path ?q) (pr_name ?q) (pr_env ?q) = Some 0"
    "split_secret_path (path_value demo_get ''rest'') = Inr (pr_path ?q, pr_name ?q)"
    "read_env demo_get = pr_env ?q" "pr_value ?q = ''v1''" "pf_ops demo_pf = mem_ops"
    by (code_simp, code_simp, code_simp, code_simp, code_simp, simp add: demo_pf_def)
  have p: "put_secret demo_pf 5 demo_put demo_world = (fst (put_secret demo_pf 5 demo_put demo_world), demo_after_put)"
    by (simp add: demo_after_put_def)
  show ?thesis
    using put_then_get [OF mem.reliable_store_axioms s(6) p s(1) refl s(2) c s(3,4)] s(5) by simp
qed

text \<open>C7: a PATCH answered with 200 was guarded by the version then stored; it raised that
  version by one, stored its value and touched no other record.\<close>

theorem patch_is_guarded:
  assumes "secret_store ops view val" and ops: "pf_ops pf = ops"
    and "patch_secret pf now r w = (resp, w')" "rs_status resp = 200"
  shows "\<exists>p n x. split_secret_path (path_value r ''rest'') = Inr (p, n) \<and>
     expected_version (header_get (rq_headers r) ''If-Match'') (qr_version (snd (patch_fields r))) = Inr x \<and>
     stored_value val (view (w_db w)) p n (patch_env r) \<noteq> None \<and>
     stored_version (view (w_db w)) p n (patch_env r) = Some x \<and>
     stored_version (view (w_db w')) p n (patch_env r) = Some (x + 1) \<and>
     stored_value val (view (w_db w')) p n (patch_env r) = Some (qr_value (snd (patch_fields r))) \<and>
     only_record (view (w_db w)) (view (w_db w')) p n (patch_env r)"
proof -
  from assms(3,4) obtain c w1 where body: "patch_body pf now c r w1 = (resp, w')" and w1: "w_db w1 = w_db w"
    using org_gate_ok [OF assms(3) [unfolded patch_secret_def]] by auto
  from body show ?thesis
  proof (cases rule: patch_body_cases)
    case refused
    with assms(4) show ?thesis by simp
  next
    case (update p n x)
    with secret_store.patch_update_200 [OF assms(1) update(6) assms(4) update(5) ops] w1
    show ?thesis by auto
  qed
qed

theorem patch_is_guarded_witness:
  "\<exists>p n. stored_version (mem_view (w_db demo_after_patch)) p n ''prod'' = Some 2"
proof -
  have s: "rs_status (fst (patch_secret demo_pf 6 demo_patch demo_after_put)) = 200" by code_simp
  have e: "patch_env demo_patch = ''prod''"
    "expected_version (header_get (rq_headers demo_patch) ''If-Match'') (qr_version (snd (patch_fields demo_patch))) = Inr 1"
    by code_simp+
  have "pf_ops demo_pf = mem_ops" by (simp add: demo_pf_def)
  from patch_is_guarded [OF mem.secret_store_axioms this prod.collapse [symmetric] s] e
  show ?thesis by (auto simp: demo_after_patch_def)
qed

text \<open>A PATCH cannot be replayed: on a store that does not fail, the same request sent again
  after it succeeded is answered with 409 and changes nothing.\<close>

lemma replayed_patch_rejected:
  assumes "reliable_store ops view val" and ops: "pf_ops pf = ops"
    and "patch_secret pf now r w = (resp, w')" "rs_status resp = 200"
    and "verified_claims pf now' r w' = Some c" "can_act_on_org c (path_value r ''org'')"
    and "patch_secret pf now' r w' = (resp', w'')"
  shows "rs_status resp' = 409 \<and> view (w_db w'') = view (w_db w')"
proof -
  note ss = reliable_store.axioms(1) [OF assms(1)]
  from assms(3,4) obtain c0 w1 where body: "patch_body pf now c0 r w1 = (resp, w')"
    using org_gate_ok [OF assms(3) [unfolded patch_secret_def]] by auto
  obtain w2 where again: "patch_body pf now' c r w2 = (resp', w'')" and w2: "w_db w2 = w_db w'"
    using org_gate_pass [OF assms(5,6), of "patch_body pf now'"] assms(7) unfolding patch_secret_def by metis
  from body show ?thesis
  proof (cases rule: patch_body_cases)
    case refused
    with assms(4) show ?thesis by simp
  next
    case (update p n x)
    note succ = secret_store.patch_update_200 [OF ss update(6) assms(4) update(5) ops]
    from again have up: "patch_update pf now' c p n (patch_env r) (qr_value (snd (patch_fields r))) x r w2 = (resp', w'')"
      by (simp add: patch_body_pass [OF update(1-4)])
    have "rs_status (fst (patch_update pf now' c p n (patch_env r) (qr_value (snd (patch_fields r))) x r w2)) = 409"
      using succ(3,4) update(5) w2
      by (intro reliable_store.patch_update_stale [OF assms(1) _ _ _ _ ops]) auto
    with up have "rs_status resp' = 409" by simp
    with secret_store.patch_update_refused(2) [OF ss up _ ops] w2 show ?thesis by simp
  qed
qed

lemma replayed_patch_rejected_witness:
  "rs_status (fst (patch_secret demo_pf 7 demo_patch demo_after_patch)) = 409"
proof -
  have "\<exists>c. verified_claims demo_pf 7 demo_patch demo_after_patch = Some c \<and> can_act_on_org c (path_value demo_patch ''org'')"
    by (rule exI [of _ "\<lparr>cl_iss = ''iam'', cl_owner = ''acme'', cl_sub = ''svc_a'', cl_roles = []\<rparr>"]) code_simp
  then obtain c where c: "verified_claims demo_pf 7 demo_patch demo_after_patch = Some c"
    "can_act_on_org c (path_value demo_patch ''org'')" by blast
  have s: "rs_status (fst (patch_secret demo_pf 6 demo_patch demo_after_put)) = 200" by code_simp
  have p: "patch_secret demo_pf 6 demo_patch demo_after_put =
      (fst (patch_secret demo_pf 6 demo_patch demo_after_put), demo_after_patch)"
    by (simp add: demo_after_patch_def)
  have o: "pf_ops demo_pf = mem_ops" by (simp add: demo_pf_def)
  from replayed_patch_rejected [OF mem.reliable_store_axioms o p s c prod.collapse [symmetric]]
  show ?thesis by simp
qed

text \<open>C16: a PATCH that is not answered with 200 leaves every value and time as it was: at most the
  version counter of the record it names has moved, and that only when the answer is 500.\<close>

theorem refused_patch_keeps_values:
  assumes "secret_store ops view val" and ops: "pf_ops pf = ops"
    and "patch_secret pf now r w = (resp, w')" "rs_status resp \<noteq> 200"
  shows "stored_value val (view (w_db w')) p n e = stored_value val (view (w_db w)) p n e \<and>
     (rs_status resp \<noteq> 500 \<longrightarrow> view (w_db w') = view (w_db w)) \<and>
     (\<forall>k. view (w_db w') k \<noteq> view (w_db w) k \<longrightarrow>
        (\<exists>q m. path_ref (patch_env r) r = Some (q, patch_env r, m) \<and> k = version_key q m (patch_env r)))"
proof (cases "rs_status resp \<in> {401, 403}")
  case True
  have "w_db w' = w_db w"
  proof (rule ccontr)
    assume ne: "w_db w' \<noteq> w_db w"
    from patch_h.effect_needs_claims [OF assms(3)] ne obtain c where
      c: "verified_claims pf now r w = Some c" "can_act_on_org c (path_value r ''org'')" by blast
    obtain w1 where "patch_body pf now c r w1 = (resp, w')"
      using org_gate_pass [OF c, of "patch_body pf now"] assms(3) unfolding patch_secret_def by metis
    then have "rs_status resp \<in> {400, 428, 404, 409, 500, 200}"
    proof (cases rule: patch_body_cases)
      case (update p n x)
      with secret_store.patch_update_refused(3) [OF assms(1) update(6) assms(4) ops] show ?thesis by auto
    qed auto
    with True show False by auto
  qed
  then show ?thesis by simp
next
  case False
  from org_gate_ok [OF assms(3) [unfolded patch_secret_def] False] obtain c w1 where
    body: "patch_body pf now c r w1 = (resp, w')" and w1: "w_db w1 = w_db w" by blast
  from body show ?thesis
  proof (cases rule: patch_body_cases)
    case refused
    with w1 show ?thesis by simp
  next
    case (update q m x)
    note ref = secret_store.patch_update_refused [OF assms(1) update(6) assms(4) ops]
    then have "stored_value val (view (w_db w')) p n e = stored_value val (view (w_db w1)) p n e"
      by (simp add: stored_value_def)
    moreover have "path_ref (patch_env r) r = Some (q, patch_env r, m)" using update(1) by (simp add: path_ref_def)
    ultimately show ?thesis using ref(1,2) w1 by auto
  qed
qed

theorem refused_patch_keeps_values_witness:
  "stored_value Some (mem_view (w_db (snd (patch_secret demo_pf 6 demo_patch demo_after_patch)))) ''p'' ''n'' ''prod'' =
   stored_value Some (mem_view (w_db demo_after_patch)) ''p'' ''n'' ''prod''"
proof -
  have "rs_status (fst (patch_secret demo_pf 6 demo_patch demo_after_patch)) \<noteq> 200" by code_simp
  moreover have "pf_ops demo_pf = mem_ops" by (simp add: demo_pf_def)
  ultimately show ?thesis
    using refused_patch_keeps_values [OF mem.secret_store_axioms _ prod.collapse [symmetric]] by blast
qed

text \<open>C17: a mutation touches the record it names: whatever POST, PATCH or DELETE answers, and
  whichever operations of the store fail, no value, version or time of another record changes;
  and a PATCH or DELETE whose path names no record changes nothing.\<close>

theorem mutation_touches_one_record:
  assumes "secret_store ops view val" "pf_ops pf = ops"
    and "(h, x) \<in> {(put_secret pf now, put_ref r), (patch_secret pf now, path_ref (patch_env r) r),
           (del_secret pf now, path_ref (read_env r) r)}" "h r w = (resp, w')"
    and "map_option rel_key x \<noteq> Some (rel_key (p, e, n))"
  shows "stored_value val (view (w_db w')) p n e = stored_value val (view (w_db w)) p n e \<and>
     stored_version (view (w_db w')) p n e = stored_version (view (w_db w)) p n e \<and>
     stored_mtime (view (w_db w')) p n e = stored_mtime (view (w_db w)) p n e"
proof -
  have only: "only_ref (view (w_db w)) (view (w_db w')) x"
    using secret_store.mutation_only_record [OF assms(1-3), of w] assms(4) by simp
  show ?thesis
  proof (cases x)
    case (Some y)
    obtain q f m where y: "y = (q, f, m)" by (cases y)
    from only have "only_record (view (w_db w)) (view (w_db w')) q m f" by (simp add: Some y only_ref_def)
    from only_record_other [OF this, of p e n] assms(5) show ?thesis by (simp add: Some y eq_commute)
  qed (use only in \<open>simp add: only_ref_def\<close>)
qed

theorem mutation_touches_one_record_witness:
  "stored_version (mem_view (w_db demo_after_put)) ''p'' ''other'' ''prod'' =
   stored_version (mem_view (w_db demo_world)) ''p'' ''other'' ''prod''"
proof -
  have "pf_ops demo_pf = mem_ops" by (simp add: demo_pf_def)
  moreover have "map_option rel_key (put_ref demo_put) \<noteq> Some (rel_key (''p'', ''prod'', ''other''))" by code_simp
  ultimately show ?thesis
    using mutation_touches_one_record [OF mem.secret_store_axioms _ insertI1 prod.collapse [symmetric],
        of demo_pf demo_put "''p''" "''prod''" "''other''" 5 demo_world]
    unfolding demo_after_put_def by blast
qed

text \<open>After a DELETE answered with 200, on a store that does not fail, an authorized read of
  the record is answered with 404, and its version counter starts again from 0.\<close>

lemma delete_then_get:
  assumes "reliable_store ops view val" and ops: "pf_ops pf = ops"
    and "del_secret pf now r w = (resp, w')" "rs_status resp = 200"
    and "split_secret_path (path_value r ''rest'') = Inr (p, n)"
    and "verified_claims pf now' r' w' = Some c" "can_act_on_org c (path_value r' ''org'')"
    and "path_value r' ''rest'' = path_value r ''rest''" "read_env r' = read_env r"
  shows "fst (get_secret pf now' r' w') = write_json 404 (message ''not found'') \<and>
     stored_version (view (w_db w')) p n (read_env r) = Some 0"
proof -
  note ss = reliable_store.axioms(1) [OF assms(1)]
  from assms(3,4) obtain c0 w1 where body: "del_body pf now c0 r w1 = (resp, w')"
    using org_gate_ok [OF assms(3) [unfolded del_secret_def]] by auto
  from secret_store.del_body_200 [OF ss body assms(4) ops] assms(5) have
    k: "view (w_db w1) (secret_key p n (read_env r)) \<noteq> None"
    "view (w_db w') (secret_key p n (read_env r)) = None" by auto
  from reliable_store.del_body_present [OF assms(1,5) k(1) ops, of now c0] body
  have ver: "stored_version (view (w_db w')) p n (read_env r) = Some 0" by auto
  obtain w2 where g: "get_secret pf now' r' w' = get_body pf now' c r' w2" and w2: "w_db w2 = w_db w'"
    using org_gate_pass [OF assms(6,7), of "get_body pf now'"] unfolding get_secret_def by metis
  have "split_secret_path (path_value r' ''rest'') = Inr (p, n)" using assms(5,8) by simp
  from reliable_store.get_body_answer [OF assms(1) this _ _ ops, of w2 0 now' c] k(2) ver assms(9)
  show ?thesis by (simp add: g w2 read_answer_def stored_value_def)
qed

lemma delete_then_get_witness:
  "fst (get_secret demo_pf 8 demo_get (snd (del_secret demo_pf 7 demo_del demo_after_put))) =
     write_json 404 (message ''not found'')"
proof -
  let ?w = "snd (del_secret demo_pf 7 demo_del demo_after_put)"
  have "\<exists>c. verified_claims demo_pf 8 demo_get ?w = Some c \<and> can_act_on_org c (path_value demo_get ''org'')"
    by (rule exI [of _ "\<lparr>cl_iss = ''iam'', cl_owner = ''acme'', cl_sub = ''svc_a'', cl_roles = []\<rparr>"]) code_simp
  then obtain c where c: "verified_claims demo_pf 8 demo_get ?w = Some c"
    "can_act_on_org c (path_value demo_get ''org'')" by blast
  have s: "rs_status (fst (del_secret demo_pf 7 demo_del demo_after_put)) = 200"
    "split_secret_path (path_value demo_del ''rest'') = Inr (''p'', ''n'')"
    "path_value demo_get ''rest'' = path_value demo_del ''rest''" "read_env demo_get = read_env demo_del"
    by code_simp+
  have "pf_ops demo_pf = mem_ops" by (simp add: demo_pf_def)
  from delete_then_get [OF mem.reliable_store_axioms this prod.collapse [symmetric] s(1,2) c s(3,4)]
  show ?thesis by simp
qed

section \<open>Listing\<close>

text \<open>C18: a listing answers within the caller's namespace: every row lies at or below
  \<open>brand/<org>\<close>, or is the record at the parent path whose environment is the org's name; and
  the caller may act on that org.\<close>

theorem list_confined:
  assumes "secret_store ops view val" and ops: "pf_ops pf = ops"
    and "list_secrets pf now r w = (resp, w')" "rs_status resp = 200"
  shows "\<exists>c rows tr. verified_claims pf now r w = Some c \<and> can_act_on_org c (path_value r ''org'') \<and>
     rs_body resp = Json (JObj ([(''count'', JInt (int (length rows))), (''secrets'', JArr (map json_row rows))] @
        (if tr then [(''truncated'', JBool True)] else []))) \<and>
     length rows \<le> max_list_rows \<and>
     (\<forall>row\<in>set rows. row_path row = org_root (path_value r ''org'') \<or>
        prefix (org_root (path_value r ''org'') @ ''/'') (row_path row) \<or>
        org_root (path_value r ''org'') = row_path row @ ''/'' @ row_env row)"
proof -
  from assms(3,4) obtain c w1 where c: "verified_claims pf now r w = Some c" "can_act_on_org c (path_value r ''org'')"
    and body: "list_body pf now c r w1 = (resp, w')" and w1: "w_db w1 = w_db w"
    using org_gate_ok [OF assms(3) [unfolded list_secrets_def]] by auto
  from secret_store.list_body_200 [OF assms(1) body assms(4) ops] obtain lp rows tr where
    l: "list_path (path_value r ''org'') (query_get r ''prefix'') = Inr lp"
       "list_secret_metadata ops (w_db w1) lp (query_get r ''env'') = (rows, tr)"
       "rs_body resp = Json (JObj ([(''count'', JInt (int (length rows))), (''secrets'', JArr (map json_row rows))] @
          (if tr then [(''truncated'', JBool True)] else [])))" .
  have kv: "kv_store ops view" using secret_store.axioms(1) [OF assms(1)] .
  show ?thesis
    using c l(3) kv_store.list_length(1) [OF kv l(2)] secret_store.list_rows_confined [OF assms(1) l(1,2)]
    by blast
qed

theorem list_confined_witness:
  "\<exists>c. verified_claims demo_pf 6 demo_list demo_ns_world = Some c \<and> can_act_on_org c ''acme''"
proof -
  have s: "rs_status (fst (list_secrets demo_pf 6 demo_list demo_ns_world)) = 200"
    "path_value demo_list ''org'' = ''acme''" by code_simp+
  have "pf_ops demo_pf = mem_ops" by (simp add: demo_pf_def)
  from list_confined [OF mem.secret_store_axioms this prod.collapse [symmetric] s(1)] s(2)
  show ?thesis by metis
qed

text \<open>C19: an untruncated listing is exact for the records that a listing can name, those with a
  non-empty path and a non-empty environment and name without slashes: it has exactly one row
  for each of them whose storage key is present under the listed path and that passes the
  filter, and no other row.  (POST also accepts an environment or a name with slashes; such a
  record gets no row of its own, and where its storage key is that of another record, it is
  listed as that one.)\<close>

theorem list_exact:
  assumes "kv_store ops view" "list_secret_metadata ops d l f = (rows, False)"
  shows "distinct (map (\<lambda>r. (row_path r, row_env r, row_name r)) rows) \<and>
     (\<lambda>r. (row_path r, row_env r, row_name r)) ` set rows =
       {(p, e, n). listable (p, e, n) \<and> (f = '''' \<or> e = f) \<and> view d (secret_key p n e) \<noteq> None \<and>
          prefix (list_prefix l) (secret_key p n e)}"
  using kv_store.list_distinct [OF assms] kv_store.listed_row [OF assms] kv_store.list_complete [OF assms]
  by (auto simp del: listable.simps) (force simp del: listable.simps)+

theorem list_exact_witness:
  "distinct (map (\<lambda>r. (row_path r, row_env r, row_name r))
     (fst (list_secret_metadata mem_ops (w_db demo_ns_world) ''brand/acme'' '''')))"
proof -
  have "snd (list_secret_metadata mem_ops (w_db demo_ns_world) ''brand/acme'' '''') = False"
    by code_simp
  then have "list_secret_metadata mem_ops (w_db demo_ns_world) ''brand/acme'' '''' =
      (fst (list_secret_metadata mem_ops (w_db demo_ns_world) ''brand/acme'' ''''), False)"
    by (metis prod.collapse)
  from list_exact [OF mem.kv_store_axioms this] show ?thesis by simp
qed

text \<open>C20: a listing reveals no value: two databases with the same keys, versions and times give
  the same answer to every listing request, whatever their secrets are.\<close>

theorem list_reveals_no_value:
  assumes "reliable_store ops view val" "pf_ops pf = ops"
    and "dom (view (w_db w1)) = dom (view (w_db w2))" "w_auth w1 = w_auth w2"
    and "\<And>p n e. view (w_db w1) (version_key p n e) = view (w_db w2) (version_key p n e)"
    and "\<And>p n e. view (w_db w1) (mtime_key p n e) = view (w_db w2) (mtime_key p n e)"
  shows "fst (list_secrets pf now r w1) = fst (list_secrets pf now r w2)"
  by (rule reliable_store.list_answer_no_value [OF assms(1,3,4,5,6,2)])

definition demo_holding :: "string \<Rightarrow> mem world" where
  "demo_holding v = demo_world\<lparr>w_db := [(secret_key ''brand/acme'' ''n'' ''prod'', v)]\<rparr>"

theorem list_reveals_no_value_witness:
  "fst (list_secrets demo_pf 5 demo_list (demo_holding ''hunter2'')) =
   fst (list_secrets demo_pf 5 demo_list (demo_holding ''swordfish''))"
proof (rule list_reveals_no_value [OF mem.reliable_store_axioms])
  show "pf_ops demo_pf = mem_ops" by (simp add: demo_pf_def)
qed (simp_all add: demo_holding_def mem_view_def dom_def)

section \<open>Audit\<close>

text \<open>C21: every request to a secret handler hands exactly one entry to the auditor, with the
  actor of the verified token (or none), the request's method and path, and the very status
  the client is answered with.\<close>

theorem one_audit_row:
  assumes "h \<in> {get_secret pf now, put_secret pf now, patch_secret pf now, del_secret pf now, list_secrets pf now}"
    and "h r w = (resp, w')"
  shows "\<exists>c p n e v. c = (case verified_claims pf now r w of None \<Rightarrow> no_claims | Some c \<Rightarrow> c) \<and>
     w_audit w' = audit_record (audit_entry_of now c r p n e (rs_status resp) v) (w_audit w)"
  using handler_audited [OF assms(1), of r w] assms(2) by (auto simp: audited_def)

theorem one_audit_row_witness:
  "\<exists>c p n e v. w_audit demo_after_put =
     audit_record (audit_entry_of 5 c demo_put p n e 201 v) (w_audit demo_world)"
proof -
  have s: "rs_status (fst (put_secret demo_pf 5 demo_put demo_world)) = 201" by code_simp
  from one_audit_row [OF insertI2 [OF insertI1] prod.collapse [symmetric], of demo_pf 5 demo_put demo_world]
  show ?thesis unfolding demo_after_put_def s by blast
qed

text \<open>C22: the audit table never holds an altered, reordered or invented row: in any
  interleaving of recordings, writer steps, failed inserts and cancellation, its rows are a
  subsequence of the recorded entries; the written counter is the number of rows and the
  channel never exceeds its capacity.\<close>

theorem audit_trail_faithful:
  assumes "new_auditor True True prepare_ok = Some a0" "\<forall>e\<in>set (recorded ops). real_entry e"
    and "audit_exec a0 ops = a"
  shows "subseq (au_rows a) (map audit_row (recorded ops)) \<and>
     au_written a = of_nat (length (au_rows a)) \<and> length (au_ch a) \<le> audit_cap"
proof -
  have "audit_ok a0 []" using assms(1) by (auto simp: new_auditor_def audit_ok_def)
  from audit_exec_ok [OF this assms(2)] assms(3) have ok: "audit_ok a (recorded ops)" by simp
  then have "subseq (au_rows a @ map audit_row (filter real_entry (au_ch a))) (map audit_row (recorded ops))"
    by (simp add: audit_ok_def)
  moreover have "subseq (au_rows a) (au_rows a @ map audit_row (filter real_entry (au_ch a)))"
    by (rule subseq_rev_drop_many) simp
  ultimately show ?thesis
    using ok subseq_order.trans by (auto simp: audit_ok_def)
qed

definition demo_entry :: "nat \<Rightarrow> audit_entry" where
  "demo_entry st = audit_entry_of 5 no_claims demo_get '''' '''' '''' st 0"

definition demo_ops :: "audit_op list" where
  "demo_ops = [Rec (demo_entry 200), Rec (demo_entry 404), Run True, Run False, Rec (demo_entry 409), Run True]"

theorem audit_trail_faithful_witness:
  "subseq (au_rows (audit_exec (the (new_auditor True True True)) demo_ops))
     (map audit_row [demo_entry 200, demo_entry 404, demo_entry 409])"
proof -
  have n: "new_auditor True True True = Some (the (new_auditor True True True))"
    by (simp add: new_auditor_def)
  have e: "\<forall>e\<in>set (recorded demo_ops). real_entry e"
    by (simp add: demo_ops_def demo_entry_def real_entry_def audit_entry_of_def demo_get_def demo_req_def sync_method_def)
  from audit_trail_faithful [OF n e refl] show ?thesis by (simp add: demo_ops_def)
qed

text \<open>C23: as long as no insert fails, no entry is lost unnoticed: the written and dropped
  counters and the entries still queued add up to the number of recorded entries.\<close>

theorem audit_nothing_lost:
  assumes "new_auditor True True prepare_ok = Some a0" "\<forall>e\<in>set (recorded ops). real_entry e"
    and "Run False \<notin> set ops" "audit_exec a0 ops = a"
  shows "au_written a + au_dropped a + of_nat (length (filter real_entry (au_ch a))) =
     of_nat (length (recorded ops))"
  using audit_balance [OF assms(2,3), of a0] assms(1,4) by (auto simp: new_auditor_def)

theorem audit_nothing_lost_witness:
  "au_written (audit_exec (the (new_auditor True True True)) [Rec (demo_entry 200), Run True]) +
   au_dropped (audit_exec (the (new_auditor True True True)) [Rec (demo_entry 200), Run True]) +
   of_nat (length (filter real_entry (au_ch (audit_exec (the (new_auditor True True True)) [Rec (demo_entry 200), Run True])))) = 1"
proof -
  let ?ops = "[Rec (demo_entry 200), Run True]"
  have n: "new_auditor True True True = Some (the (new_auditor True True True))"
    by (simp add: new_auditor_def)
  have e: "\<forall>e\<in>set (recorded ?ops). real_entry e"
    by (simp add: demo_entry_def real_entry_def audit_entry_of_def demo_get_def demo_req_def sync_method_def)
  have "Run False \<notin> set ?ops" by simp
  from audit_nothing_lost [OF n e this refl] show ?thesis by simp
qed

text \<open>Actor identifiers are unambiguous: for subjects in the expected grammar the identifier
  determines issuer and subject, and any other subject is tagged as unverified.\<close>

lemma actor_id_unambiguous:
  assumes "trim_space iss \<noteq> ''''" "trim_space iss' \<noteq> ''''"
  shows "(sub_pattern (trim_space sub) \<longrightarrow> sub_pattern (trim_space sub') \<longrightarrow>
       compose_actor_id iss sub = compose_actor_id iss' sub' \<longrightarrow>
       trim_space iss = trim_space iss' \<and> trim_space sub = trim_space sub') \<and>
     (\<not> sub_pattern (trim_space sub) \<longrightarrow> prefix unverified_tag (compose_actor_id iss sub))"
  using compose_actor_id_inj [OF _ _ assms] compose_actor_id_unverified by blast

lemma actor_id_unambiguous_witness:
  "prefix unverified_tag (compose_actor_id ''https://hanzo.id'' ''admin'')"
proof -
  have "trim_space ''https://hanzo.id'' \<noteq> ''''" "\<not> sub_pattern (trim_space ''admin'')" by code_simp+
  with actor_id_unambiguous [of "''https://hanzo.id''" "''https://hanzo.id''" "''admin''"]
  show ?thesis by blast
qed

section \<open>Names, keys and configuration\<close>

text \<open>The names the routes are meant to accept, stated without the code's tests.\<close>

definition name_bytes :: string where
  "name_bytes = ''abcdefghijklmnopqrstuvwxyzABCDEFGHIJKLMNOPQRSTUVWXYZ0123456789_-.''"

definition plain_segment :: "string \<Rightarrow> bool" where
  "plain_segment s \<longleftrightarrow> s \<notin> {'''', ''.'', ''..''} \<and> set s \<subseteq> set name_bytes"

lemma safe_byte_iff: "safe_byte c \<longleftrightarrow> c \<in> set name_bytes"
proof -
  let ?n = "of_char c :: nat"
  have codes: "map of_char name_bytes = [97..<123] @ [65..<91] @ [48..<58] @ [95, 45, 46 :: nat]"
    by code_simp
  have "c \<in> set name_bytes \<longleftrightarrow> ?n \<in> set (map of_char name_bytes)"
    by (auto simp: of_char_eq_iff)
  also have "\<dots> \<longleftrightarrow> 97 \<le> ?n \<and> ?n \<le> 122 \<or> 65 \<le> ?n \<and> ?n \<le> 90 \<or> 48 \<le> ?n \<and> ?n \<le> 57 \<or> ?n \<in> {95, 45, 46}"
    unfolding codes set_append set_upt by auto
  also have "\<dots> \<longleftrightarrow> safe_byte c"
    using of_char_eq_iff [of c "CHR ''_''", where ?'a = nat] of_char_eq_iff [of c "CHR ''-''", where ?'a = nat]
      of_char_eq_iff [of c "CHR ''.''", where ?'a = nat]
    by (simp add: safe_byte_def less_eq_char_def)
  finally show ?thesis by simp
qed

lemma safe_segment_plain: "safe_segment s \<longleftrightarrow> plain_segment s"
  by (auto simp: safe_segment_def plain_segment_def list_all_iff safe_byte_iff)

text \<open>C24: the path of a secret route is accepted exactly when it is a non-empty path of plain
  segments, a slash and a plain name: no empty, \<open>.\<close> or \<open>..\<close> segment and no byte
  outside letters, digits, underscore, hyphen and dot reaches the store.\<close>

theorem accepted_secret_paths:
  "split_secret_path rest = Inr (path, name) \<longleftrightarrow>
     rest = path @ ''/'' @ name \<and> path \<noteq> '''' \<and>
     list_all plain_segment (go_split CHR ''/'' path) \<and> plain_segment name"
  unfolding split_secret_path_Inr safe_path_segments safe_segment_plain by auto

text \<open>C25: storage keys are faithful: on records with a non-empty path and slash-free, non-empty
  environment and name, the listing's parser inverts the key layout and accepts nothing else;
  two such records have the same value key, the same version key or the same time key only if
  they are the same record; and no key of one family is a key of another, whatever the records
  are.\<close>

theorem storage_keys_faithful:
  "(parse_secret_rel_key b = Some x \<longleftrightarrow> listable x \<and> rel_key x = b) \<and>
   (listable (p, e, n) \<and> listable (p', e', n') \<and>
      (secret_key p n e = secret_key p' n' e' \<or> version_key p n e = version_key p' n' e' \<or>
       mtime_key p n e = mtime_key p' n' e') \<longrightarrow>
      (p, e, n) = (p', e', n')) \<and>
   secret_key p n e \<noteq> version_key p' n' e' \<and> secret_key p n e \<noteq> mtime_key p' n' e' \<and>
   version_key p n e \<noteq> mtime_key p' n' e'"
  using rel.dec_eq_Some_iff [of b x] rel.enc_inj [of "(p, e, n)" "(p', e', n')"]
  by (auto simp: same_key_iff simp del: listable.simps)

theorem storage_keys_faithful_witness:
  "listable (''brand/acme'', ''prod'', ''db'') \<and>
   parse_secret_rel_key (rel_key (''brand/acme'', ''prod'', ''db'')) = Some (''brand/acme'', ''prod'', ''db'')"
  using storage_keys_faithful [of "rel_key (''brand/acme'', ''prod'', ''db'')" "(''brand/acme'', ''prod'', ''db'')"]
  by simp

text \<open>A server that boots has a complete identity configuration, each part of it given by
  the caller or the environment and none by a default, and its verifier never fails for lack
  of configuration.\<close>

lemma boot_needs_identity:
  assumes "embed_configure E cfg0 = Inr (cfg, st)"
    and "verify_jwt parse fetch now h st = (r, st')"
  shows "trim_space (iam_endpoint cfg) \<noteq> '''' \<and> iam_endpoint cfg \<in> {iam_endpoint cfg0, trim_space (E ''IAM_URL'')} \<and>
     trim_space (expected_issuer cfg) \<noteq> '''' \<and>
     expected_issuer cfg \<in> {expected_issuer cfg0, trim_space (E ''IAM_ISSUER'')} \<and>
     trim_space (expected_audience cfg) \<noteq> '''' \<and>
     expected_audience cfg \<in> {expected_audience cfg0, trim_space (E ''IAM_AUDIENCE'')} \<and>
     as_issuer st = Some (expected_issuer cfg) \<and> as_jwks st \<noteq> None \<and> r \<noteq> Inl AuthNoConfig"
proof -
  note c = assms(1) [unfolded embed_configure_Inr]
  have v: "validate_prod_config_at_boot cfg = None" and cfg: "cfg = apply_embed_defaults E cfg0" using c by auto
  have ne: "trim_space (iam_endpoint cfg) \<noteq> ''''" "trim_space (expected_issuer cfg) \<noteq> ''''"
    "trim_space (expected_audience cfg) \<noteq> ''''"
    using v by (auto simp: validate_prod_config_at_boot_def split: if_splits)
  have given: "iam_endpoint cfg \<in> {iam_endpoint cfg0, trim_space (E ''IAM_URL'')}"
    "expected_issuer cfg \<in> {expected_issuer cfg0, trim_space (E ''IAM_ISSUER'')}"
    "expected_audience cfg \<in> {expected_audience cfg0, trim_space (E ''IAM_AUDIENCE'')}"
    by (simp_all add: cfg apply_embed_defaults_def or_default_def)
  note a = configured_auth [OF assms(1)]
  have "r \<noteq> Inl AuthNoConfig"
    using configured_never_unconfigured [OF a(1) trim_space_neq [OF a(2)] a(3) assms(2)] by simp
  with ne given a(1,3) show ?thesis by simp
qed

lemma boot_needs_identity_witness:
  "\<exists>cfg st. embed_configure demo_environ demo_config = Inr (cfg, st) \<and> as_jwks st \<noteq> None"
proof -
  have "\<not> isl (embed_configure demo_environ demo_config)" by code_simp
  then obtain cfg st where b: "embed_configure demo_environ demo_config = Inr (cfg, st)"
    by (cases "embed_configure demo_environ demo_config") auto
  from boot_needs_identity [OF b prod.collapse [symmetric]] b show ?thesis by blast
qed

definition demo_zap_environ :: environ where
  "demo_zap_environ k =
     (if k = ''KMS_MASTER_KEY_B64'' then ''AAAAAAAAAAAAAAAAAAAAAAAAAAAAAAAAAAAAAAAAAAA='' else '''')"

section \<open>Routing\<close>

text \<open>Dispatch is unambiguous: apart from the catch-all, at most one route of the table
  matches a request, so the listing never shadows reading one secret, whatever the order of
  registration.\<close>

lemma routes_unambiguous:
  assumes "i < length (base_routes @ key_routes)" "j < length (base_routes @ key_routes)"
    and "(base_routes @ key_routes) ! i = (m, p, rt)" "(base_routes @ key_routes) ! j = (m, p', rt')"
    and "match_segs p segs \<noteq> None" "match_segs p' segs \<noteq> None"
  shows "i = j"
  using exclusive_sound [OF routes_exclusive _ assms(2,3,4,5)] assms(6)
    exclusive_sound [OF routes_exclusive _ assms(1,4,3,6)] assms(5)
  by (metis linorder_neqE_nat)

lemma routes_unambiguous_witness:
  "match_segs (secrets_pat @ [Rest ''rest'']) [''v1'', ''kms'', ''orgs'', ''acme'', ''secrets''] = None"
proof (rule ccontr)
  assume n: "\<not> ?thesis"
  have l: "(3 :: nat) < length (base_routes @ key_routes)" "(4 :: nat) < length (base_routes @ key_routes)"
    by (simp_all add: base_routes_def key_routes_def)
  have e: "(base_routes @ key_routes) ! 3 = (''GET'', secrets_pat, RList)"
    "(base_routes @ key_routes) ! 4 = (''GET'', secrets_pat @ [Rest ''rest''], RGet)"
    by (simp_all add: base_routes_def)
  have "match_segs secrets_pat [''v1'', ''kms'', ''orgs'', ''acme'', ''secrets''] \<noteq> None"
    by (simp add: secrets_pat_def)
  from routes_unambiguous [OF l e this n] show False by simp
qed

text \<open>The process environment is readable by administrators only: any answer of the
  environment endpoint other than the two constant refusals needs a verified administrator,
  and it names a variable in the POSIX grammar or is a 400.\<close>

lemma env_secret_admin_only:
  assumes "env_secret pf now E r w = (resp, w')" "resp \<notin> {unauthorized, admin_required}"
  shows "\<exists>c. verified_claims pf now r w = Some c \<and> is_admin c \<and>
     (rs_status resp = 200 \<longrightarrow> safe_env_name (path_value r ''name'') \<and>
        rs_body resp = Json (JObj [(''secret'', JObj [(''secretKey'', JStr (path_value r ''name'')),
          (''secretValue'', JStr (E (path_value r ''name'')))])]))"
proof -
  from env_h.effect_needs_admin [OF assms(1)] assms(2) obtain c where
    c: "verified_claims pf now r w = Some c" "is_admin c" by blast
  obtain x w1 where a: "authorize pf now r w = (x, w1)" by (cases "authorize pf now r w")
  with c have "x = Inr c" by (cases x) (auto simp: verified_claims_def)
  with a c assms show ?thesis by (auto simp: env_secret_def Let_def split: if_splits)
qed

definition demo_env_req :: request where
  "demo_env_req = demo_req ''GET'' ''root'' [(''name'', ''HOME'')] [] JNull"

lemma env_secret_admin_only_witness:
  "\<exists>c. verified_claims demo_pf 5 demo_env_req demo_world = Some c \<and> is_admin c"
proof -
  have "rs_status (fst (env_secret demo_pf 5 (\<lambda>k. ''/root'') demo_env_req demo_world)) = 200"
    by code_simp
  then have "fst (env_secret demo_pf 5 (\<lambda>k. ''/root'') demo_env_req demo_world) \<notin> {unauthorized, admin_required}"
    by (auto simp: unauthorized_def admin_required_def)
  from env_secret_admin_only [OF prod.collapse [symmetric] this] show ?thesis by blast
qed

section \<open>The life of a server\<close>

text \<open>C37: an embedded server runs the ZAP transport only with a consensus authority.  Its entries
  are those of the snapshot file, when \<^verbatim>\<open>KMS_CONSENSUS_FILE\<close> names one (the two lists are then
  not read), and those of the two environment lists otherwise; every entry that is not blank
  was parsed as a node; and from all these nodes, at least one validator and one operator,
  with the configured time to live, the authorizer was built, and it passed its self-test with
  the first validator.  The transport key has 32 bytes and comes from the environment, and the
  port is positive.\<close>

theorem zap_needs_authority:
  assumes "embed host_of be (build_consensus_authorizer pid pdur new_az probe E read_file) E cfg0 = (Booted h st, got)"
    and "em_zap h"
  shows "\<exists>vs ops validators operators ttl az.
     authority_entries E read_file vs ops \<and> all_named pid vs validators \<and> all_named pid ops operators \<and>
     validators \<noteq> [] \<and> operators \<noteq> [] \<and>
     (if trim_space (E ''KMS_CONSENSUS_TTL'') = '''' then ttl = 30 * 1000000000
      else pdur (trim_space (E ''KMS_CONSENSUS_TTL'')) = Some ttl) \<and>
     new_az validators operators ttl = Inr az \<and> probe az (hd validators) = None \<and>
     0 < sint (em_zap_port h) \<and>
     (\<exists>key. base64_std_decode (E ''KMS_MASTER_KEY_B64'') = Some key \<and> length key = 32)"
proof -
  from embed_Booted [OF assms(1)] assms(2) obtain cfg key a where
    z: "zap_boot E cfg (build_consensus_authorizer pid pdur new_az probe E read_file) = ZapStart key a"
    and port: "em_zap_port h = zap_port cfg"
    by blast
  have key: "base64_std_decode (E ''KMS_MASTER_KEY_B64'') = Some key"
    using z by (auto simp: zap_boot_def Let_def env_or_def split: option.splits if_splits sum.splits)
  from zap_boot_fail_closed [OF z]
  have b: "build_consensus_authorizer pid pdur new_az probe E read_file = Inr (Some a)"
    and len: "length key = 32" and pos: "0 < sint (zap_port cfg)"
    by auto
  from pos port have "0 < sint (em_zap_port h)" by simp
  with key len show ?thesis by - (rule build_authorizer_Some [OF b], blast)
qed

definition demo_authority_environ :: environ where
  "demo_authority_environ k =
     (if k = ''KMS_CONSENSUS_VALIDATORS'' then ''v1, v2'' else if k = ''KMS_CONSENSUS_OPERATORS'' then ''o1''
      else if demo_zap_environ k \<noteq> '''' then demo_zap_environ k else demo_environ k)"

theorem zap_needs_authority_witness:
  "\<exists>validators operators key. all_named Some (list_entries ''v1, v2'') validators \<and>
     all_named Some (list_entries ''o1'') operators \<and>
     base64_std_decode (demo_authority_environ ''KMS_MASTER_KEY_B64'') = Some key \<and> length key = 32"
proof -
  let ?be = "demo_boot_env"
  let ?az = "build_consensus_authorizer Some (\<lambda>s. None) (\<lambda>vs ops ttl. Inr ()) (\<lambda>a v. None)
    demo_authority_environ (\<lambda>p. NotExist)"
  let ?r = "embed (\<lambda>e. None) ?be ?az demo_authority_environ demo_config"
  have "(case fst ?r of Booted h st \<Rightarrow> em_zap h | _ \<Rightarrow> False)" by code_simp
  then obtain h st where "fst ?r = Booted h st" and z: "em_zap h" by (auto split: embed_result.splits)
  then have b: "?r = (Booted h st, snd ?r)" by (metis prod.collapse)
  have e: "trim_space (demo_authority_environ ''KMS_CONSENSUS_FILE'') = ''''"
    "demo_authority_environ ''KMS_CONSENSUS_VALIDATORS'' = ''v1, v2''"
    "demo_authority_environ ''KMS_CONSENSUS_OPERATORS'' = ''o1''"
    by code_simp+
  obtain vs ops validators operators key where "authority_entries demo_authority_environ (\<lambda>p. NotExist) vs ops"
    "all_named Some vs validators" "all_named Some ops operators"
    "base64_std_decode (demo_authority_environ ''KMS_MASTER_KEY_B64'') = Some key" "length key = 32"
    using zap_needs_authority [OF b z] by blast
  then show ?thesis by (auto simp: authority_entries_def e)
qed

text \<open>C38: what the mounts of a process acquire and its shutdowns release.  Over any life of a
  process, whatever is released was acquired and is released at most once, each shutdown
  releasing from the listener down to the database; if the parent never mounts twice without a
  shutdown in between, then what was released and what the mounted handle still holds are
  exactly what was acquired, except for two kinds of resources: the audit log's SQL database
  and the client of the MPC daemon.  No shutdown ever releases one of those: they leak, once
  per mount.  After a shutdown nothing is held and the service is not ready.\<close>

theorem resources_released_once:
  fixes evs :: "'a life_event list"
  defines "p \<equiv> foldl life fresh_process evs"
  shows "mset (ps_log p) + mset (outstanding p) \<subseteq># mset (ps_acquired p) \<and>
   (well_used fresh_process evs \<longrightarrow>
      mset (ps_log p) + mset (outstanding p) = mset (filter (\<lambda>r. r \<notin> {AuditDb, MpcClient}) (ps_acquired p))) \<and>
   set (ps_log p) \<inter> {AuditDb, MpcClient} = {} \<and>
   (\<exists>rel. ps_log (shutdown p) = ps_log p @ rel \<and> sorted_wrt (<) rel) \<and>
   (evs \<noteq> [] \<and> last evs = DoShutdown \<longrightarrow> outstanding p = [] \<and> readyz_status p = 503)"
proof -
  have f: "ps_log fresh_process = []" "accounted fresh_process = releasable fresh_process"
    by (simp_all add: fresh_process_def outstanding_def releasable_def accounted_def)
  have "accounted p \<subseteq># releasable p" using life_balance [of fresh_process evs] f(2) by (simp add: p_def)
  also have "releasable p \<subseteq># mset (ps_acquired p)" by (simp add: releasable_def)
  finally have sub: "mset (ps_log p) + mset (outstanding p) \<subseteq># mset (ps_acquired p)" by (simp add: accounted_def)
  have exact: "well_used fresh_process evs \<longrightarrow> mset (ps_log p) + mset (outstanding p) = releasable p"
    using life_balance_exact [of fresh_process evs] f(2) by (simp add: p_def accounted_def)
  have never: "set (ps_log p) \<inter> never_released = {}"
    using never_logged [of fresh_process evs] f by (simp add: p_def)
  have rel: "\<exists>rel. ps_log (shutdown p) = ps_log p @ rel \<and> sorted_wrt (<) rel"
    using life_shutdown(1) [of p] outstanding_sorted(1) [of p] by blast
  have "outstanding p = [] \<and> readyz_status p = 503" if "evs \<noteq> []" "last evs = DoShutdown"
  proof -
    from that have e: "evs = butlast evs @ [DoShutdown]" by (metis append_butlast_last_id)
    let ?q = "foldl life fresh_process (butlast evs)"
    have "p = shutdown ?q" unfolding p_def by (subst e) simp
    moreover have "readyz_status (shutdown ?q) = 503"
      by (simp add: shutdown_def readyz_status_def split: option.splits prod.splits)
    ultimately show ?thesis by (simp add: life_shutdown)
  qed
  with sub exact never rel show ?thesis by (simp add: releasable_def never_released_def)
qed

theorem resources_released_once_witness:
  "let p = foldl life fresh_process
     [DoMount \<lparr>su_host_of = \<lambda>e. None, su_boot = demo_boot_env,
        su_authorizer = (Inr None :: snap_err + unit option), su_environ = demo_environ\<rparr> ''/data'', DoShutdown]
   in ps_acquired p = [Database, Auditor, AuditDb] \<and> mset (ps_log p) = {#Auditor, Database#}"
proof -
  let ?y = "\<lparr>su_host_of = \<lambda>e. None, su_boot = demo_boot_env,
        su_authorizer = (Inr None :: snap_err + unit option), su_environ = demo_environ\<rparr>"
  let ?evs = "[DoMount ?y ''/data'', DoShutdown]"
  let ?p = "foldl life fresh_process ?evs"
  have u: "well_used fresh_process ?evs" by (simp add: fresh_process_def)
  have a: "ps_acquired ?p = [Database, Auditor, AuditDb]" by code_simp
  note r = resources_released_once [of ?evs]
  have "mset (ps_log ?p) + mset (outstanding ?p) = mset (filter (\<lambda>r. r \<notin> {AuditDb, MpcClient}) (ps_acquired ?p))"
    by (rule r [THEN conjunct2, THEN conjunct1, THEN mp, OF u])
  moreover have "outstanding ?p = []"
    by (rule r [THEN conjunct2, THEN conjunct2, THEN conjunct2, THEN conjunct2, THEN mp, THEN conjunct1]) simp
  ultimately have "mset (ps_log ?p) = {#Auditor, Database#}" by (simp add: a del: foldl.simps)
  with a show ?thesis unfolding Let_def by blast
qed

end
